theory Spec2Isabelle
  imports Main "HOL-Library.Word" "HOL-Library.AList"
begin

section \<open>Data model of drm/DrmDevice\<close>

text \<open>
  A shallow embedding of \<^verbatim>\<open>src/drm/DrmDevice.cpp\<close> and \<^verbatim>\<open>src/drm/DrmDevice.h\<close>.

  Kernel object ids are \<^verbatim>\<open>uint32_t\<close>, property values \<^verbatim>\<open>uint64_t\<close>. A display id is a
  C++ \<^verbatim>\<open>int\<close> that \<^verbatim>\<open>Init\<close> increments: a 32-bit word, read as two's complement with
  \<open>sint\<close>, whose \<open>+ 1\<close> wraps from \<^verbatim>\<open>INT_MAX\<close> to \<^verbatim>\<open>INT_MIN\<close> as the compiled
  \<^verbatim>\<open>++num_displays\<close> does. Return codes are \<^verbatim>\<open>int\<close>s that are only passed on and
  compared: they are \<open>int\<close>. A \<^verbatim>\<open>size_t\<close> is a 64-bit word.
\<close>

type_synonym u32 = "32 word"
type_synonym u64 = "64 word"
type_synonym cint = "32 word"

text \<open>The values of \<^verbatim>\<open><cerrno>\<close> on Linux.\<close>

definition ENOENT :: int where "ENOENT = 2"
definition EAGAIN :: int where "EAGAIN = 11"
definition EACCES :: int where "EACCES = 13"
definition ENODEV :: int where "ENODEV = 19"

text \<open>
  The classes \<^verbatim>\<open>DrmCrtc\<close>, \<^verbatim>\<open>DrmEncoder\<close> and \<^verbatim>\<open>DrmConnector\<close> are declared in headers
  that are not part of the sources at hand; \<^verbatim>\<open>DrmDevice\<close> uses them through the getters
  named below, and each object is a record of what those getters answer. Every object
  stores the index \<^verbatim>\<open>i\<close> of its id in the kernel's resource array, as
  \<^verbatim>\<open>CreateInstance(*this, res->crtcs[i], i)\<close> passes it: two objects of one vector differ
  in it, so equality of records is identity of the objects the C++ maps point to.
\<close>

record DrmCrtc =
  crtc_id :: u32                \<comment> \<open>\<^verbatim>\<open>DrmCrtc::GetId()\<close>\<close>
  crtc_index :: nat             \<comment> \<open>index in the resource array\<close>

record DrmEncoder =
  enc_id :: u32                 \<comment> \<open>\<^verbatim>\<open>DrmEncoder::GetId()\<close>\<close>
  enc_index :: nat
  current_crtc_id :: u32        \<comment> \<open>\<^verbatim>\<open>GetCurrentCrtcId()\<close>, 0 if none\<close>
  possible_crtcs :: u32         \<comment> \<open>the possible-CRTC bitmask\<close>

record DrmConnector =
  conn_id :: u32                \<comment> \<open>\<^verbatim>\<open>DrmConnector::GetId()\<close>\<close>
  conn_index :: nat
  IsConnected :: bool
  IsInternal :: bool
  IsExternal :: bool
  IsWriteback :: bool
  current_encoder_id :: u32     \<comment> \<open>\<^verbatim>\<open>GetCurrentEncoderId()\<close>, 0 if none\<close>
  possible_encoders :: "u32 list" \<comment> \<open>the supported-encoder set, as ids\<close>

text \<open>
  Modelled from the spec: \<^verbatim>\<open>DrmEncoder::SupportsCrtc\<close> (DrmEncoder.h is missing). The
  spec has the CRTC's index \<open>used as a bit position in encoders' possible-CRTC masks\<close>.
\<close>

definition SupportsCrtc :: "DrmEncoder \<Rightarrow> DrmCrtc \<Rightarrow> bool" where
  "SupportsCrtc enc crtc = bit (possible_crtcs enc) (crtc_index crtc)"

text \<open>
  Modelled from the spec: \<^verbatim>\<open>DrmConnector::SupportsEncoder\<close> (DrmConnector.h is missing):
  membership in the connector's supported-encoder set.
\<close>

definition SupportsEncoder :: "DrmConnector \<Rightarrow> DrmEncoder \<Rightarrow> bool" where
  "SupportsEncoder conn enc = (enc_id enc \<in> set (possible_encoders conn))"

text \<open>
  What \<^verbatim>\<open>DrmDevice\<close> does to the outside world: the libdrm calls of \<^verbatim>\<open>Init\<close> and of the
  property-blob functions, and the log lines (by their format strings). They are
  recorded in order in the field \<open>trace\<close> of the device; the calls made inside the
  object factories and by \<^verbatim>\<open>GetProperty\<close> are not recorded.
\<close>

datatype client_cap =
    DRM_CLIENT_CAP_UNIVERSAL_PLANES
  | DRM_CLIENT_CAP_ATOMIC
  | DRM_CLIENT_CAP_WRITEBACK_CONNECTORS

datatype event =
    sys_open string
  | drmSetClientCap client_cap
  | drmGetCap_ADDFB2_MODIFIERS
  | drmSetMaster
  | drmIsMaster
  | drmModeGetResources
  | drmModeGetPlaneResources
  | DRM_IOCTL_MODE_CREATEPROPBLOB u64 u32
  | DRM_IOCTL_MODE_DESTROYPROPBLOB u32
  | ALOGE string
  | ALOGW string
  | ALOGI string

text \<open>
  The fields of \<^verbatim>\<open>class DrmDevice\<close>, without the trailing underscore of their C++
  names. A \<^verbatim>\<open>std::map\<close> is an association list read with \<open>map_of\<close> and written with
  \<open>AList.update\<close> (which replaces the entry of a key that is present, as
  \<^verbatim>\<open>operator[]\<close> followed by assignment does). A plane is only catalogued: its id.
\<close>

record DrmDevice =
  fd :: "int option"
  connectors :: "DrmConnector list"
  writeback_connectors :: "DrmConnector list"
  encoders :: "DrmEncoder list"
  crtcs :: "DrmCrtc list"
  planes :: "u32 list"
  min_resolution :: "u32 \<times> u32"
  max_resolution :: "u32 \<times> u32"
  bound_crtcs :: "(cint \<times> DrmCrtc) list"
  bound_connectors :: "(cint \<times> DrmConnector) list"
  connectors_to_display_id :: "(DrmConnector \<times> cint) list"
  encoders_to_display_id :: "(DrmEncoder \<times> cint) list"
  bound_encoders :: "(DrmCrtc \<times> DrmEncoder) list"
  HasAddFb2ModifiersSupport :: bool
  trace :: "event list"

text \<open>The constructor: every container empty, the flag value-initialised.\<close>

definition DrmDevice_new :: DrmDevice where
  "DrmDevice_new =
     \<lparr> fd = None, connectors = [], writeback_connectors = [], encoders = [], crtcs = [],
       planes = [], min_resolution = (0, 0), max_resolution = (0, 0),
       bound_crtcs = [], bound_connectors = [], connectors_to_display_id = [],
       encoders_to_display_id = [], bound_encoders = [],
       HasAddFb2ModifiersSupport = False, trace = [] \<rparr>"

definition emit :: "event \<Rightarrow> DrmDevice \<Rightarrow> DrmDevice" where
  "emit e dev = dev\<lparr>trace := trace dev @ [e]\<rparr>"

text \<open>\<^verbatim>\<open>std::map::size()\<close>: the number of keys.\<close>

definition map_size :: "('k \<times> 'v) list \<Rightarrow> nat" where
  "map_size m = length (remdups (map fst m))"

text \<open>
  An uncaught C++ failure: \<^verbatim>\<open>std::map::at\<close> throws \<^verbatim>\<open>std::out_of_range\<close> on a missing
  key; \<^verbatim>\<open>GetProperty\<close> reads through the pointer \<^verbatim>\<open>drmModeGetProperty\<close> returns without
  testing it.
\<close>

datatype cxx_error = out_of_range | null_dereference

definition map_at :: "('k \<times> 'v) list \<Rightarrow> 'k \<Rightarrow> cxx_error + 'v" where
  "map_at m k = (case map_of m k of None \<Rightarrow> Inl out_of_range | Some v \<Rightarrow> Inr v)"

section \<open>Lookups\<close>

definition FindCrtcById :: "DrmDevice \<Rightarrow> u32 \<Rightarrow> DrmCrtc option" where
  "FindCrtcById dev ident = find (\<lambda>crtc. crtc_id crtc = ident) (crtcs dev)"

definition FindEncoderById :: "DrmDevice \<Rightarrow> u32 \<Rightarrow> DrmEncoder option" where
  "FindEncoderById dev ident = find (\<lambda>enc. enc_id enc = ident) (encoders dev)"

definition HandlesDisplay :: "DrmDevice \<Rightarrow> cint \<Rightarrow> bool" where
  "HandlesDisplay dev display = (map_of (bound_connectors dev) display \<noteq> None)"

definition GetConnectorForDisplay :: "DrmDevice \<Rightarrow> cint \<Rightarrow> cxx_error + DrmConnector" where
  "GetConnectorForDisplay dev display = map_at (bound_connectors dev) display"

definition GetCrtcForDisplay :: "DrmDevice \<Rightarrow> cint \<Rightarrow> cxx_error + DrmCrtc" where
  "GetCrtcForDisplay dev display = map_at (bound_crtcs dev) display"

section \<open>The pipeline assignment engine\<close>

text \<open>
  The two assignments of \<^verbatim>\<open>TryEncoderForDisplay\<close> on a bind:
  \<^verbatim>\<open>bound_crtcs_[display] = crtc; bound_encoders_[crtc] = enc;\<close>
\<close>

definition bind_crtc :: "DrmDevice \<Rightarrow> cint \<Rightarrow> DrmCrtc \<Rightarrow> DrmEncoder \<Rightarrow> DrmDevice" where
  "bind_crtc dev display crtc enc =
     dev\<lparr> bound_crtcs := AList.update display crtc (bound_crtcs dev),
          bound_encoders := AList.update crtc enc (bound_encoders dev) \<rparr>"

text \<open>The loop \<^verbatim>\<open>for (auto &crtc : crtcs_)\<close> of \<^verbatim>\<open>TryEncoderForDisplay\<close>, ending in
  \<^verbatim>\<open>return -EAGAIN\<close>.\<close>

fun try_crtcs :: "DrmDevice \<Rightarrow> cint \<Rightarrow> DrmEncoder \<Rightarrow> DrmCrtc list \<Rightarrow> int \<times> DrmDevice" where
  "try_crtcs dev display enc [] = (- EAGAIN, dev)"
| "try_crtcs dev display enc (crtc # rest) =
     (if \<not> SupportsCrtc enc crtc \<or> crtc_id crtc = current_crtc_id enc
      then try_crtcs dev display enc rest
      else if map_of (bound_crtcs dev) display = None
      then (0, bind_crtc dev display crtc enc)
      else try_crtcs dev display enc rest)"

definition TryEncoderForDisplay :: "DrmDevice \<Rightarrow> cint \<Rightarrow> DrmEncoder \<Rightarrow> int \<times> DrmDevice" where
  "TryEncoderForDisplay dev display enc =
     (case FindCrtcById dev (current_crtc_id enc) of
        Some crtc \<Rightarrow>
          if map_of (bound_crtcs dev) display = None
          then (0, bind_crtc dev display crtc enc)
          else try_crtcs dev display enc (crtcs dev)
      | None \<Rightarrow> try_crtcs dev display enc (crtcs dev))"

text \<open>The loop \<^verbatim>\<open>for (auto &enc : encoders_)\<close> of \<^verbatim>\<open>CreateDisplayPipe\<close>, ending in the
  log line and \<^verbatim>\<open>return -ENODEV\<close>.\<close>

fun try_encoders :: "DrmDevice \<Rightarrow> DrmConnector \<Rightarrow> cint \<Rightarrow> DrmEncoder list \<Rightarrow> int \<times> DrmDevice" where
  "try_encoders dev connector display [] =
     (- ENODEV, emit (ALOGE ''Could not find a suitable encoder/crtc for display %d'') dev)"
| "try_encoders dev connector display (enc # rest) =
     (if \<not> SupportsEncoder connector enc \<or> map_of (encoders_to_display_id dev) enc \<noteq> None
      then try_encoders dev connector display rest
      else
        (case TryEncoderForDisplay dev display enc of
           (ret, dev') \<Rightarrow>
             if ret = 0
             then (0, dev'\<lparr>encoders_to_display_id :=
                           AList.update enc display (encoders_to_display_id dev')\<rparr>)
             else if ret \<noteq> - EAGAIN
             then (ret, emit (ALOGE ''Could not set mode %d/%d'') dev')
             else try_encoders dev' connector display rest))"

text \<open>The first half of \<^verbatim>\<open>CreateDisplayPipe\<close>: the encoder the connector is currently
  configured with. \<open>Inl\<close> is a \<^verbatim>\<open>return\<close> of the function, \<open>Inr\<close> falls through to
  the loop over the encoders.\<close>

definition try_current_encoder ::
  "DrmDevice \<Rightarrow> DrmConnector \<Rightarrow> cint \<Rightarrow> (int \<times> DrmDevice) + DrmDevice" where
  "try_current_encoder dev connector display =
     (case FindEncoderById dev (current_encoder_id connector) of
        None \<Rightarrow> Inr dev
      | Some enc0 \<Rightarrow>
          if map_of (encoders_to_display_id dev) enc0 = None
          then
            (case TryEncoderForDisplay dev display enc0 of
               (ret, dev') \<Rightarrow>
                 if ret = 0
                 then Inl (0, dev'\<lparr>encoders_to_display_id :=
                                    AList.update enc0 display (encoders_to_display_id dev')\<rparr>)
                 else if ret \<noteq> - EAGAIN
                 then Inl (ret, emit (ALOGE ''Could not set mode %d/%d'') dev')
                 else Inr dev')
          else Inr dev)"

definition CreateDisplayPipe :: "DrmDevice \<Rightarrow> DrmConnector \<Rightarrow> cxx_error + int \<times> DrmDevice" where
  "CreateDisplayPipe dev connector =
     (case map_at (connectors_to_display_id dev) connector of
        Inl e \<Rightarrow> Inl e
      | Inr display \<Rightarrow>
          (case try_current_encoder dev connector display of
             Inl returned \<Rightarrow> Inr returned
           | Inr dev' \<Rightarrow> Inr (try_encoders dev' connector display (encoders dev'))))"

section \<open>The kernel, as \<^verbatim>\<open>DrmDevice\<close> sees it\<close>

text \<open>
  What the mode-setting device answers. \<^verbatim>\<open>drmModeRes\<close> is libdrm's resource snapshot.
  The object factories \<^verbatim>\<open>DrmCrtc::CreateInstance\<close>, \<^verbatim>\<open>DrmEncoder::CreateInstance\<close>,
  \<^verbatim>\<open>DrmConnector::CreateInstance\<close> and \<^verbatim>\<open>DrmPlane::CreateInstance\<close> are not part of the
  sources at hand: what they read from the kernel for an object id is a field here,
  \<open>None\<close> (or \<open>False\<close>) when the factory returns no object.
\<close>

record drmModeRes =
  res_crtcs :: "u32 list"
  res_encoders :: "u32 list"
  res_connectors :: "u32 list"
  min_width :: u32
  max_width :: u32
  min_height :: u32
  max_height :: u32

record connector_info =
  ci_connected :: bool
  ci_internal :: bool
  ci_external :: bool
  ci_writeback :: bool
  ci_encoder_id :: u32
  ci_encoders :: "u32 list"

record drmModeProperty =
  prop_id :: u32
  prop_name :: string
  prop_flags :: u32

record kernel =
  k_open :: "string \<Rightarrow> int option"
      \<comment> \<open>\<^verbatim>\<open>open(path, O_RDWR | O_CLOEXEC)\<close>: the descriptor, \<open>None\<close> on failure\<close>
  k_set_universal_planes :: int
  k_set_atomic :: int
  k_writeback_cap_defined :: bool
      \<comment> \<open>whether the headers define \<^verbatim>\<open>DRM_CLIENT_CAP_WRITEBACK_CONNECTORS\<close>\<close>
  k_set_writeback_connectors :: int
  k_get_cap_addfb2_modifiers :: "int \<times> u64"
      \<comment> \<open>\<^verbatim>\<open>drmGetCap\<close>: its return code and the capability it stores\<close>
  k_is_master :: int
  k_resources :: "drmModeRes option"
  k_plane_resources :: "u32 list option"
  k_crtc :: "u32 \<Rightarrow> bool"
  k_encoder :: "u32 \<Rightarrow> (u32 \<times> u32) option"
      \<comment> \<open>the encoder's current CRTC id and possible-CRTC mask\<close>
  k_connector :: "u32 \<Rightarrow> connector_info option"
  k_plane :: "u32 \<Rightarrow> bool"
  k_object_properties :: "u32 \<Rightarrow> u32 \<Rightarrow> (u32 \<times> u64) list option"
      \<comment> \<open>\<^verbatim>\<open>drmModeObjectGetProperties\<close>: property ids with their current values\<close>
  k_property :: "u32 \<Rightarrow> drmModeProperty option"
      \<comment> \<open>\<^verbatim>\<open>drmModeGetProperty\<close>, \<open>None\<close> for a null pointer\<close>
  k_create_blob :: "u64 \<Rightarrow> u32 \<Rightarrow> int \<times> u32"
      \<comment> \<open>\<^verbatim>\<open>DRM_IOCTL_MODE_CREATEPROPBLOB\<close>: return code and blob id\<close>
  k_destroy_blob :: "u32 \<Rightarrow> int"

text \<open>Modelled from the spec: the object factories (see above). An object carries the
  id and the index it was created with.\<close>

definition DrmCrtc_CreateInstance :: "kernel \<Rightarrow> u32 \<Rightarrow> nat \<Rightarrow> DrmCrtc option" where
  "DrmCrtc_CreateInstance k ident index =
     (if k_crtc k ident then Some \<lparr>crtc_id = ident, crtc_index = index\<rparr> else None)"

definition DrmEncoder_CreateInstance :: "kernel \<Rightarrow> u32 \<Rightarrow> nat \<Rightarrow> DrmEncoder option" where
  "DrmEncoder_CreateInstance k ident index =
     (case k_encoder k ident of
        None \<Rightarrow> None
      | Some (cur, poss) \<Rightarrow>
          Some \<lparr>enc_id = ident, enc_index = index, current_crtc_id = cur,
                possible_crtcs = poss\<rparr>)"

definition DrmConnector_CreateInstance :: "kernel \<Rightarrow> u32 \<Rightarrow> nat \<Rightarrow> DrmConnector option" where
  "DrmConnector_CreateInstance k ident index =
     (case k_connector k ident of
        None \<Rightarrow> None
      | Some ci \<Rightarrow>
          Some \<lparr>conn_id = ident, conn_index = index, IsConnected = ci_connected ci,
                IsInternal = ci_internal ci, IsExternal = ci_external ci,
                IsWriteback = ci_writeback ci, current_encoder_id = ci_encoder_id ci,
                possible_encoders = ci_encoders ci\<rparr>)"

section \<open>\<^verbatim>\<open>DrmDevice::Init\<close>\<close>

text \<open>
  Lines 46 to 84: opening the node and negotiating capabilities. \<open>Inl\<close> is a \<^verbatim>\<open>return\<close>
  of \<^verbatim>\<open>Init\<close> with its tuple; \<open>Inr\<close> carries the local \<^verbatim>\<open>ret\<close> on.
\<close>

definition Init_negotiate ::
  "kernel \<Rightarrow> string \<Rightarrow> DrmDevice \<Rightarrow> ((int \<times> int) \<times> DrmDevice) + (int \<times> DrmDevice)" where
  "Init_negotiate k path dev0 =
     (let dev1 = emit (sys_open path) (dev0\<lparr>fd := k_open k path\<rparr>) in
      if fd dev1 = None
      then Inl ((- ENODEV, 0), emit (ALOGE ''Failed to open dri %s: %s'') dev1)
      else
      let ret1 = k_set_universal_planes k;
          dev2 = emit (drmSetClientCap DRM_CLIENT_CAP_UNIVERSAL_PLANES) dev1 in
      if ret1 \<noteq> 0
      then Inl ((ret1, 0), emit (ALOGE ''Failed to set universal plane cap %d'') dev2)
      else
      let ret2 = k_set_atomic k;
          dev3 = emit (drmSetClientCap DRM_CLIENT_CAP_ATOMIC) dev2 in
      if ret2 \<noteq> 0
      then Inl ((ret2, 0), emit (ALOGE ''Failed to set atomic cap %d'') dev3)
      else
      let (ret3, dev4) =
            (if k_writeback_cap_defined k
             then
               (let r = k_set_writeback_connectors k;
                    d = emit (drmSetClientCap DRM_CLIENT_CAP_WRITEBACK_CONNECTORS) dev3 in
                if r \<noteq> 0
                then (0, emit (ALOGI ''Failed to set writeback cap %d'') d)
                else (r, d))
             else (ret2, dev3));
          dev5 = emit drmGetCap_ADDFB2_MODIFIERS dev4;
          (cap_value, dev6) =
            (if fst (k_get_cap_addfb2_modifiers k) \<noteq> 0
             then (0, emit (ALOGW ''drmGetCap failed. Fallback to no modifier support.'') dev5)
             else (snd (k_get_cap_addfb2_modifiers k), dev5));
          dev7 = dev6\<lparr>HasAddFb2ModifiersSupport := (cap_value \<noteq> 0)\<rparr>;
          dev8 = emit drmIsMaster (emit drmSetMaster dev7) in
      if k_is_master k = 0
      then Inl ((- EACCES, 0), emit (ALOGE ''DRM/KMS master access required'') dev8)
      else Inr (ret3, dev8))"

text \<open>Lines 92 to 126: the resolution bounds and the three enumeration loops. An id
  whose factory fails is skipped; a writeback connector goes to its own vector.\<close>

definition create_all :: "(u32 \<Rightarrow> nat \<Rightarrow> 'a option) \<Rightarrow> u32 list \<Rightarrow> 'a list" where
  "create_all factory ids =
     List.map_filter (\<lambda>(i, ident). factory ident i) (enumerate 0 ids)"

definition Init_enumerate :: "kernel \<Rightarrow> drmModeRes \<Rightarrow> DrmDevice \<Rightarrow> DrmDevice" where
  "Init_enumerate k res dev =
     (let conns = create_all (DrmConnector_CreateInstance k) (res_connectors res) in
      dev\<lparr> min_resolution := (min_width res, min_height res),
           max_resolution := (max_width res, max_height res),
           crtcs := crtcs dev @ create_all (DrmCrtc_CreateInstance k) (res_crtcs res),
           encoders := encoders dev @ create_all (DrmEncoder_CreateInstance k) (res_encoders res),
           writeback_connectors := writeback_connectors dev @ filter IsWriteback conns,
           connectors := connectors dev @ filter (\<lambda>conn. \<not> IsWriteback conn) conns \<rparr>)"

text \<open>Lines 128 to 138: the lambda \<^verbatim>\<open>add_displays\<close>, which captures \<^verbatim>\<open>num_displays\<close> by
  reference; the pair is the device and \<^verbatim>\<open>num_displays\<close>.\<close>

fun add_displays_loop ::
  "bool \<Rightarrow> bool \<Rightarrow> DrmConnector list \<Rightarrow> DrmDevice \<times> cint \<Rightarrow> DrmDevice \<times> cint" where
  "add_displays_loop internal connected [] (dev, num_displays) = (dev, num_displays)"
| "add_displays_loop internal connected (conn # rest) (dev, num_displays) =
     (let is_connected = IsConnected conn in
      if (if internal then IsInternal conn else IsExternal conn) \<and>
         (if connected then is_connected else \<not> is_connected)
      then add_displays_loop internal connected rest
             (dev\<lparr> bound_connectors := AList.update num_displays conn (bound_connectors dev),
                   connectors_to_display_id :=
                     AList.update conn num_displays (connectors_to_display_id dev) \<rparr>,
              num_displays + 1)
      else add_displays_loop internal connected rest (dev, num_displays))"

definition add_displays :: "bool \<Rightarrow> bool \<Rightarrow> DrmDevice \<times> cint \<Rightarrow> DrmDevice \<times> cint" where
  "add_displays internal connected st =
     add_displays_loop internal connected (connectors (fst st)) st"

text \<open>Lines 143 to 146: the four calls, internal and connected first.\<close>

definition Init_add_displays :: "DrmDevice \<times> cint \<Rightarrow> DrmDevice \<times> cint" where
  "Init_add_displays st =
     add_displays False False (add_displays True False
       (add_displays False True (add_displays True True st)))"

text \<open>Lines 167 to 174: the loop over \<^verbatim>\<open>connectors_\<close> that creates the pipelines, and the
  final \<^verbatim>\<open>return\<close>, where \<^verbatim>\<open>make_tuple\<close> narrows the \<^verbatim>\<open>size_t\<close> of
  \<^verbatim>\<open>bound_connectors_.size()\<close> to the \<^verbatim>\<open>int\<close> of the tuple.\<close>

fun Init_pipes ::
  "int \<Rightarrow> DrmDevice \<Rightarrow> DrmConnector list \<Rightarrow> cxx_error + (int \<times> int) \<times> DrmDevice" where
  "Init_pipes ret dev [] =
     Inr ((ret, sint (of_nat (map_size (bound_connectors dev)) :: cint)), dev)"
| "Init_pipes ret dev (conn # rest) =
     (case CreateDisplayPipe dev conn of
        Inl e \<Rightarrow> Inl e
      | Inr (ret', dev') \<Rightarrow>
          if ret' \<noteq> 0
          then Inr ((ret', 0), emit (ALOGE ''Failed CreateDisplayPipe %d with %d'') dev')
          else Init_pipes ret' dev' rest)"

text \<open>Lines 44 to 165: everything of \<^verbatim>\<open>Init\<close> before the pipelines are created. \<open>Inl\<close>
  is a \<^verbatim>\<open>return\<close> of \<^verbatim>\<open>Init\<close>.\<close>

definition Init_prepare ::
  "kernel \<Rightarrow> string \<Rightarrow> cint \<Rightarrow> DrmDevice \<Rightarrow> ((int \<times> int) \<times> DrmDevice) + (int \<times> DrmDevice)" where
  "Init_prepare k path num_displays dev0 =
     (case Init_negotiate k path dev0 of
        Inl returned \<Rightarrow> Inl returned
      | Inr (ret, dev1) \<Rightarrow>
          (case k_resources k of
             None \<Rightarrow>
               Inl ((- ENODEV, 0),
                    emit (ALOGE ''Failed to get DrmDevice resources'') (emit drmModeGetResources dev1))
           | Some res \<Rightarrow>
               (let dev2 = Init_enumerate k res (emit drmModeGetResources dev1);
                    dev3 = fst (Init_add_displays (dev2, num_displays)) in
                if ret \<noteq> 0 then Inl ((ret, 0), dev3)
                else
                  (case k_plane_resources k of
                     None \<Rightarrow>
                       Inl ((- ENOENT, 0),
                            emit (ALOGE ''Failed to get plane resources'')
                              (emit drmModeGetPlaneResources dev3))
                   | Some plane_res \<Rightarrow>
                       Inr (ret, (emit drmModeGetPlaneResources dev3)
                                   \<lparr>planes := planes dev3 @ filter (k_plane k) plane_res\<rparr>)))))"

definition Init ::
  "kernel \<Rightarrow> string \<Rightarrow> cint \<Rightarrow> DrmDevice \<Rightarrow> cxx_error + (int \<times> int) \<times> DrmDevice" where
  "Init k path num_displays dev0 =
     (case Init_prepare k path num_displays dev0 of
        Inl returned \<Rightarrow> Inr returned
      | Inr (ret, dev) \<Rightarrow> Init_pipes ret dev (connectors dev))"

section \<open>\<^verbatim>\<open>DrmDevice::GetProperty\<close>\<close>

text \<open>
  Modelled from the spec: \<^verbatim>\<open>DrmProperty::Init(obj_id, p, value)\<close> (DrmProperty.cpp is
  missing). The spec has the lookup return \<open>the matched property plus its current raw
  value\<close>: the object's id, the kernel's descriptor and the value.
\<close>

record DrmProperty =
  property_obj_id :: u32
  property_descriptor :: "drmModeProperty option"
  property_current :: u64

definition DrmProperty_Init :: "u32 \<Rightarrow> drmModeProperty \<Rightarrow> u64 \<Rightarrow> DrmProperty" where
  "DrmProperty_Init obj_id p v =
     \<lparr>property_obj_id = obj_id, property_descriptor = Some p, property_current = v\<rparr>"

text \<open>
  The loop \<^verbatim>\<open>for (int i = 0; !found && i < props->count_props; ++i)\<close> over the parallel
  arrays \<^verbatim>\<open>props->props\<close> and \<^verbatim>\<open>props->prop_values\<close>: the result is \<^verbatim>\<open>found\<close> and
  the caller's \<^verbatim>\<open>*property\<close>. \<^verbatim>\<open>p->name\<close> is read without a test of \<^verbatim>\<open>p\<close>.
\<close>

fun GetProperty_loop ::
  "kernel \<Rightarrow> u32 \<Rightarrow> string \<Rightarrow> (u32 \<times> u64) list \<Rightarrow> DrmProperty \<Rightarrow> cxx_error + bool \<times> DrmProperty" where
  "GetProperty_loop k obj_id name [] property = Inr (False, property)"
| "GetProperty_loop k obj_id name ((pid, v) # rest) property =
     (case k_property k pid of
        None \<Rightarrow> Inl null_dereference
      | Some p \<Rightarrow>
          if prop_name p = name
          then Inr (True, DrmProperty_Init obj_id p v)
          else GetProperty_loop k obj_id name rest property)"

definition GetProperty ::
  "kernel \<Rightarrow> u32 \<Rightarrow> u32 \<Rightarrow> string \<Rightarrow> DrmProperty \<Rightarrow> cxx_error + int \<times> DrmProperty" where
  "GetProperty k obj_id obj_type name property =
     (case k_object_properties k obj_id obj_type of
        None \<Rightarrow> Inr (- ENODEV, property)
      | Some props \<Rightarrow>
          (case GetProperty_loop k obj_id name props property of
             Inl e \<Rightarrow> Inl e
           | Inr (found, property') \<Rightarrow> Inr (if found then 0 else - ENOENT, property')))"

section \<open>\<^verbatim>\<open>DrmDevice::RegisterUserPropertyBlob\<close>\<close>

text \<open>
  \<^verbatim>\<open>DrmModeUserPropertyBlobUnique\<close> is a \<^verbatim>\<open>std::unique_ptr\<close> to the blob id with the
  lambda of lines 268 to 279 as its deleter: here the id it owns, \<open>None\<close> when empty.
  The buffer is its address and its \<^verbatim>\<open>size_t length\<close>; the assignment
  \<^verbatim>\<open>create_blob.length = length\<close> narrows the length to the 32 bits of the kernel's field,
  and the ioctl sees the narrowed one.
\<close>

type_synonym DrmModeUserPropertyBlobUnique = "u32 option"

definition RegisterUserPropertyBlob ::
  "kernel \<Rightarrow> DrmDevice \<Rightarrow> u64 \<Rightarrow> u64 \<Rightarrow> DrmModeUserPropertyBlobUnique \<times> DrmDevice" where
  "RegisterUserPropertyBlob k dev data len =
     (let create_blob_length = (ucast len :: u32);
          dev1 = emit (DRM_IOCTL_MODE_CREATEPROPBLOB data create_blob_length) dev in
      if fst (k_create_blob k data create_blob_length) \<noteq> 0
      then (None, emit (ALOGE ''Failed to create mode property blob %d'') dev1)
      else (Some (snd (k_create_blob k data create_blob_length)), dev1))"

text \<open>The deleter: one destroy ioctl, and a log line when it fails.\<close>

definition blob_deleter :: "kernel \<Rightarrow> DrmDevice \<Rightarrow> u32 \<Rightarrow> DrmDevice" where
  "blob_deleter k dev it =
     (let dev1 = emit (DRM_IOCTL_MODE_DESTROYPROPBLOB it) dev in
      if k_destroy_blob k it \<noteq> 0
      then emit (ALOGE ''Failed to destroy mode property blob %u/%d'') dev1
      else dev1)"

text \<open>
  Releasing the handle, as the destructor of \<^verbatim>\<open>std::unique_ptr\<close> (or \<^verbatim>\<open>reset()\<close>) does
  when the owning scope is left by whatever path: the deleter runs on the id the handle
  owns, an empty handle runs nothing, and the handle is empty afterwards.
\<close>

definition blob_release ::
  "kernel \<Rightarrow> DrmDevice \<Rightarrow> DrmModeUserPropertyBlobUnique \<Rightarrow> DrmModeUserPropertyBlobUnique \<times> DrmDevice" where
  "blob_release k dev handle =
     (case handle of None \<Rightarrow> (None, dev) | Some it \<Rightarrow> (None, blob_deleter k dev it))"

section \<open>Observations used in the statements\<close>

text \<open>The five binding maps of a device.\<close>

definition binding_maps ::
  "DrmDevice \<Rightarrow> (cint \<times> DrmCrtc) list \<times> (cint \<times> DrmConnector) list \<times>
     (DrmConnector \<times> cint) list \<times> (DrmEncoder \<times> cint) list \<times> (DrmCrtc \<times> DrmEncoder) list" where
  "binding_maps dev =
     (bound_crtcs dev, bound_connectors dev, connectors_to_display_id dev,
      encoders_to_display_id dev, bound_encoders dev)"

text \<open>A confirmed bind of a display to a CRTC through an encoder: the entries of
  \<^verbatim>\<open>bound_crtcs_\<close>, \<^verbatim>\<open>bound_encoders_\<close> and \<^verbatim>\<open>encoders_to_display_id_\<close> together.\<close>

definition bind_pipeline :: "DrmDevice \<Rightarrow> cint \<Rightarrow> DrmCrtc \<Rightarrow> DrmEncoder \<Rightarrow> DrmDevice" where
  "bind_pipeline dev display crtc enc =
     dev\<lparr> bound_crtcs := AList.update display crtc (bound_crtcs dev),
          bound_encoders := AList.update crtc enc (bound_encoders dev),
          encoders_to_display_id := AList.update enc display (encoders_to_display_id dev) \<rparr>"

text \<open>The libdrm calls of a trace, without the log lines.\<close>

fun is_log :: "event \<Rightarrow> bool" where
  "is_log (ALOGE _) = True"
| "is_log (ALOGW _) = True"
| "is_log (ALOGI _) = True"
| "is_log _ = False"

definition calls :: "DrmDevice \<Rightarrow> event list" where
  "calls dev = filter (\<lambda>e. \<not> is_log e) (trace dev)"

text \<open>
  The device after a negotiation in which the node opened and both required
  capabilities were set: the descriptor, the modifier flag, and the calls and log lines
  in the order of lines 46 to 81.
\<close>

definition negotiated :: "kernel \<Rightarrow> string \<Rightarrow> DrmDevice \<Rightarrow> DrmDevice" where
  "negotiated k path dev0 =
     dev0\<lparr> fd := k_open k path,
           HasAddFb2ModifiersSupport :=
             (fst (k_get_cap_addfb2_modifiers k) = 0 \<and> snd (k_get_cap_addfb2_modifiers k) \<noteq> 0),
           trace := trace dev0 @
             [sys_open path, drmSetClientCap DRM_CLIENT_CAP_UNIVERSAL_PLANES,
              drmSetClientCap DRM_CLIENT_CAP_ATOMIC] @
             (if k_writeback_cap_defined k
              then drmSetClientCap DRM_CLIENT_CAP_WRITEBACK_CONNECTORS #
                   (if k_set_writeback_connectors k \<noteq> 0
                    then [ALOGI ''Failed to set writeback cap %d''] else [])
              else []) @
             drmGetCap_ADDFB2_MODIFIERS #
             (if fst (k_get_cap_addfb2_modifiers k) \<noteq> 0
              then [ALOGW ''drmGetCap failed. Fallback to no modifier support.''] else []) @
             [drmSetMaster, drmIsMaster] \<rparr>"

text \<open>A device whose resource vectors and binding maps are all empty.\<close>

definition nothing_enumerated :: "DrmDevice \<Rightarrow> bool" where
  "nothing_enumerated dev =
     (crtcs dev = [] \<and> encoders dev = [] \<and> connectors dev = [] \<and>
      writeback_connectors dev = [] \<and> planes dev = [] \<and>
      binding_maps dev = ([], [], [], [], []))"

text \<open>
  The order of the spec, written from its words: four priority classes (internal and
  connected, external and connected, internal and disconnected, external and
  disconnected), enumeration order within a class.
\<close>

definition priority_order :: "DrmConnector list \<Rightarrow> DrmConnector list" where
  "priority_order cs =
     filter (\<lambda>c. IsInternal c \<and> IsConnected c) cs @
     filter (\<lambda>c. IsExternal c \<and> IsConnected c) cs @
     filter (\<lambda>c. IsInternal c \<and> \<not> IsConnected c) cs @
     filter (\<lambda>c. IsExternal c \<and> \<not> IsConnected c) cs"

text \<open>
  The CRTC search of the spec, written from its words: the encoder's currently
  configured CRTC when the device has it, otherwise the first CRTC in enumeration order
  that the encoder can drive and that is not its current CRTC.
\<close>

definition crtc_search :: "DrmDevice \<Rightarrow> DrmEncoder \<Rightarrow> DrmCrtc option" where
  "crtc_search dev enc =
     (case FindCrtcById dev (current_crtc_id enc) of
        Some crtc \<Rightarrow> Some crtc
      | None \<Rightarrow>
          find (\<lambda>crtc. SupportsCrtc enc crtc \<and> crtc_id crtc \<noteq> current_crtc_id enc) (crtcs dev))"

text \<open>
  The candidates of a connector, written from the spec's words: the encoder the
  connector is currently configured with, then every encoder of the device that the
  connector supports, leaving out the encoders another display has claimed. The
  connector has exhausted its candidates when the CRTC search finds no CRTC for any of
  them.
\<close>

definition candidate_encoders :: "DrmDevice \<Rightarrow> DrmConnector \<Rightarrow> DrmEncoder list" where
  "candidate_encoders dev conn =
     filter (\<lambda>enc. map_of (encoders_to_display_id dev) enc = None)
       ((case FindEncoderById dev (current_encoder_id conn) of
           None \<Rightarrow> [] | Some enc0 \<Rightarrow> [enc0]) @
        filter (SupportsEncoder conn) (encoders dev))"

definition candidates_exhausted :: "DrmDevice \<Rightarrow> DrmConnector \<Rightarrow> bool" where
  "candidates_exhausted dev conn =
     list_all (\<lambda>enc. crtc_search dev enc = None) (candidate_encoders dev conn)"

text \<open>Consecutive display ids from a starting id, written from the spec's words: each
  connector of the sequence gets the next id, where next is the \<^verbatim>\<open>++\<close> of a 32-bit
  \<^verbatim>\<open>int\<close>.\<close>

fun sequential_ids :: "cint \<Rightarrow> 'a list \<Rightarrow> (cint \<times> 'a) list" where
  "sequential_ids n [] = []"
| "sequential_ids n (x # xs) = (n, x) # sequential_ids (n + 1) xs"

text \<open>The names of the properties in a property set, as their descriptors give them.\<close>

definition property_names :: "kernel \<Rightarrow> (u32 \<times> u64) list \<Rightarrow> string list" where
  "property_names k props =
     List.map_filter (\<lambda>(pid, v). map_option prop_name (k_property k pid)) props"

text \<open>Every property id of a property set has a descriptor: \<^verbatim>\<open>drmModeGetProperty\<close>
  returns no null pointer for it.\<close>

definition descriptors_resolve :: "kernel \<Rightarrow> (u32 \<times> u64) list \<Rightarrow> bool" where
  "descriptors_resolve k props = list_all (\<lambda>(pid, v). k_property k pid \<noteq> None) props"

text \<open>The condition under which the lambda \<^verbatim>\<open>add_displays\<close> gives a connector an id.\<close>

definition in_class :: "bool \<Rightarrow> bool \<Rightarrow> DrmConnector \<Rightarrow> bool" where
  "in_class internal connected conn =
     ((if internal then IsInternal conn else IsExternal conn) \<and>
      (if connected then IsConnected conn else \<not> IsConnected conn))"

text \<open>
  What holds of the connectors of a device at every moment of \<^verbatim>\<open>Init\<close>: the two
  vectors are split by \<^verbatim>\<open>IsWriteback\<close>; the display maps refer to connectors of
  \<^verbatim>\<open>connectors_\<close> only; a display id that a connector, a CRTC or an encoder is bound to
  is a key of \<^verbatim>\<open>bound_connectors_\<close>.
\<close>

definition connectors_wf :: "DrmDevice \<Rightarrow> bool" where
  "connectors_wf dev =
     (list_all (\<lambda>c. \<not> IsWriteback c) (connectors dev) \<and>
      list_all IsWriteback (writeback_connectors dev) \<and>
      snd ` set (bound_connectors dev) \<subseteq> set (connectors dev) \<and>
      fst ` set (connectors_to_display_id dev) \<subseteq> set (connectors dev) \<and>
      snd ` set (connectors_to_display_id dev) \<subseteq> fst ` set (bound_connectors dev))"

definition pipelines_wf :: "DrmDevice \<Rightarrow> bool" where
  "pipelines_wf dev =
     (fst ` set (bound_crtcs dev) \<subseteq> fst ` set (bound_connectors dev) \<and>
      snd ` set (encoders_to_display_id dev) \<subseteq> fst ` set (bound_connectors dev))"

text \<open>What \<^verbatim>\<open>Init\<close> establishes on a fresh device, whichever way it ends: the connectors
  and pipelines are well formed and the display ids follow the priority order (of fewer
  than \<open>2 ^ 31\<close> connectors: \<^verbatim>\<open>count_connectors\<close> is an \<^verbatim>\<open>int\<close>).\<close>

definition prepared_state :: "cint \<Rightarrow> DrmDevice \<Rightarrow> bool" where
  "prepared_state n dev =
     (connectors_wf dev \<and> pipelines_wf dev \<and>
      (length (connectors dev) < 2 ^ 31 \<longrightarrow>
       bound_connectors dev = sequential_ids n (priority_order (connectors dev))))"

text \<open>
  Identity of what is bound: the connectors of \<^verbatim>\<open>connectors_\<close> are pairwise different and
  no two of them have one display id; and, for the connectors still to be given a
  pipeline, their display ids have no CRTC and no encoder yet, while no encoder and no
  display occurs twice in \<^verbatim>\<open>encoders_to_display_id_\<close>.
\<close>

definition ids_injective :: "DrmDevice \<Rightarrow> bool" where
  "ids_injective dev =
     (distinct (connectors dev) \<and> distinct (map snd (connectors_to_display_id dev)))"

definition displays_free :: "DrmDevice \<Rightarrow> DrmConnector list \<Rightarrow> bool" where
  "displays_free dev todo =
     (distinct todo \<and>
      list_all (\<lambda>c. case map_of (connectors_to_display_id dev) c of
                      None \<Rightarrow> True
                    | Some d \<Rightarrow> d \<notin> fst ` set (bound_crtcs dev) \<and>
                               d \<notin> snd ` set (encoders_to_display_id dev)) todo \<and>
      distinct (map fst (encoders_to_display_id dev)) \<and>
      distinct (map snd (encoders_to_display_id dev)))"

section \<open>Concrete devices\<close>

text \<open>
  Scenario A of the spec with a writeback connector added: CRTCs 40 and 41; encoder 30
  on CRTC 40 (mask bit 0), encoder 31 idle (mask bit 1); connector 50 internal,
  connected, on encoder 30; connector 51 external, connected, idle, on encoder 31;
  connector 52 a writeback connector.
\<close>

definition info_50 :: connector_info where
  "info_50 = \<lparr> ci_connected = True, ci_internal = True, ci_external = False,
               ci_writeback = False, ci_encoder_id = 30, ci_encoders = [30] \<rparr>"

definition info_51 :: connector_info where
  "info_51 = \<lparr> ci_connected = True, ci_internal = False, ci_external = True,
               ci_writeback = False, ci_encoder_id = 0, ci_encoders = [31] \<rparr>"

definition info_52 :: connector_info where
  "info_52 = \<lparr> ci_connected = True, ci_internal = False, ci_external = False,
               ci_writeback = True, ci_encoder_id = 0, ci_encoders = [] \<rparr>"

definition kernel_A :: kernel where
  "kernel_A =
     \<lparr> k_open = (\<lambda>p. Some 3), k_set_universal_planes = 0, k_set_atomic = 0,
       k_writeback_cap_defined = True, k_set_writeback_connectors = 0,
       k_get_cap_addfb2_modifiers = (0, 1), k_is_master = 1,
       k_resources = Some \<lparr> res_crtcs = [40, 41], res_encoders = [30, 31],
                           res_connectors = [50, 52, 51], min_width = 0, max_width = 4096,
                           min_height = 0, max_height = 4096 \<rparr>,
       k_plane_resources = Some [60],
       k_crtc = (\<lambda>i. True),
       k_encoder = [30 \<mapsto> (40, 1), 31 \<mapsto> (0, 2)],
       k_connector = [50 \<mapsto> info_50, 51 \<mapsto> info_51, 52 \<mapsto> info_52],
       k_plane = (\<lambda>i. True),
       k_object_properties =
         (\<lambda>obj_id obj_type. if obj_id = 40 then Some [(1, 0), (2, 7), (3, 9)] else None),
       k_property =
         [1 \<mapsto> \<lparr>prop_id = 1, prop_name = ''ACTIVE'', prop_flags = 0\<rparr>,
          2 \<mapsto> \<lparr>prop_id = 2, prop_name = ''MODE_ID'', prop_flags = 0\<rparr>,
          3 \<mapsto> \<lparr>prop_id = 3, prop_name = ''OUT_FENCE_PTR'', prop_flags = 0\<rparr>],
       k_create_blob = (\<lambda>data len. if len = 0 then (- 22, 0) else (0, 77)),
       k_destroy_blob = (\<lambda>blob. if blob = 77 then - 2 else 0) \<rparr>"

definition crtc_40 :: DrmCrtc where "crtc_40 = \<lparr>crtc_id = 40, crtc_index = 0\<rparr>"
definition crtc_41 :: DrmCrtc where "crtc_41 = \<lparr>crtc_id = 41, crtc_index = 1\<rparr>"

definition enc_30 :: DrmEncoder where
  "enc_30 = \<lparr>enc_id = 30, enc_index = 0, current_crtc_id = 40, possible_crtcs = 1\<rparr>"

definition enc_31 :: DrmEncoder where
  "enc_31 = \<lparr>enc_id = 31, enc_index = 1, current_crtc_id = 0, possible_crtcs = 2\<rparr>"

definition conn_50 :: DrmConnector where
  "conn_50 = \<lparr>conn_id = 50, conn_index = 0, IsConnected = True, IsInternal = True,
              IsExternal = False, IsWriteback = False, current_encoder_id = 30,
              possible_encoders = [30]\<rparr>"

definition conn_51 :: DrmConnector where
  "conn_51 = \<lparr>conn_id = 51, conn_index = 2, IsConnected = True, IsInternal = False,
              IsExternal = True, IsWriteback = False, current_encoder_id = 0,
              possible_encoders = [31]\<rparr>"

definition conn_52 :: DrmConnector where
  "conn_52 = \<lparr>conn_id = 52, conn_index = 1, IsConnected = True, IsInternal = False,
              IsExternal = False, IsWriteback = True, current_encoder_id = 0,
              possible_encoders = []\<rparr>"

text \<open>The device of scenario A once its connectors have display ids 0 and 1 and no
  pipeline has been created.\<close>

definition device_A :: DrmDevice where
  "device_A =
     DrmDevice_new
       \<lparr> connectors := [conn_50, conn_51], writeback_connectors := [conn_52],
         encoders := [enc_30, enc_31], crtcs := [crtc_40, crtc_41],
         bound_connectors := [(0, conn_50), (1, conn_51)],
         connectors_to_display_id := [(conn_50, 0), (conn_51, 1)] \<rparr>"

text \<open>A \<^verbatim>\<open>DrmProperty\<close> that has not been initialised.\<close>

definition property_0 :: DrmProperty where
  "property_0 = \<lparr>property_obj_id = 0, property_descriptor = None, property_current = 0\<rparr>"

text \<open>
  The kernel of scenario A when the property set of CRTC 40 lists an id, 9, for which
  \<^verbatim>\<open>drmModeGetProperty\<close> returns a null pointer, before the property \<^verbatim>\<open>MODE_ID\<close>.
\<close>

definition kernel_null_property :: kernel where
  "kernel_null_property =
     kernel_A\<lparr> k_object_properties :=
                 (\<lambda>obj_id obj_type. if obj_id = 40 then Some [(9, 1), (2, 7)] else None) \<rparr>"

text \<open>A device whose connectors are enumerated external first and have no display id
  yet.\<close>

definition device_unnumbered :: DrmDevice where
  "device_unnumbered = DrmDevice_new \<lparr> connectors := [conn_51, conn_50] \<rparr>"

text \<open>Scenario A on a process that is not the display master, whose kernel refuses the
  writeback capability and fails the modifier probe.\<close>

definition kernel_not_master :: kernel where
  "kernel_not_master =
     kernel_A \<lparr> k_set_writeback_connectors := - 22,
                k_get_cap_addfb2_modifiers := (- 1, 5), k_is_master := 0 \<rparr>"

text \<open>
  Scenario B of the spec: as scenario A, but connector 51 supports no encoder of the
  device.
\<close>

definition kernel_B :: kernel where
  "kernel_B =
     kernel_A \<lparr> k_connector :=
       [50 \<mapsto> info_50, 51 \<mapsto> info_51\<lparr>ci_encoders := []\<rparr>, 52 \<mapsto> info_52] \<rparr>"

text \<open>
  The devices of scenarios A and B along \<^verbatim>\<open>Init\<close> with starting id 0: prepared (before
  the pipelines are created), and at the return of \<^verbatim>\<open>Init\<close>. In scenario B connector 51
  supports no encoder.
\<close>

definition trace_prepared :: "event list" where
  "trace_prepared =
     [sys_open ''/dev/dri/card0'', drmSetClientCap DRM_CLIENT_CAP_UNIVERSAL_PLANES,
      drmSetClientCap DRM_CLIENT_CAP_ATOMIC,
      drmSetClientCap DRM_CLIENT_CAP_WRITEBACK_CONNECTORS, drmGetCap_ADDFB2_MODIFIERS,
      drmSetMaster, drmIsMaster, drmModeGetResources, drmModeGetPlaneResources]"

definition device_A_prepared :: DrmDevice where
  "device_A_prepared =
     device_A \<lparr> fd := Some 3, planes := [60], max_resolution := (4096, 4096),
                HasAddFb2ModifiersSupport := True, trace := trace_prepared \<rparr>"

definition device_A_done :: DrmDevice where
  "device_A_done =
     device_A_prepared
       \<lparr> bound_crtcs := [(0, crtc_40), (1, crtc_41)],
         encoders_to_display_id := [(enc_30, 0), (enc_31, 1)],
         bound_encoders := [(crtc_40, enc_30), (crtc_41, enc_31)] \<rparr>"

definition conn_51_B :: DrmConnector where
  "conn_51_B = conn_51 \<lparr> possible_encoders := [] \<rparr>"

definition device_B_prepared :: DrmDevice where
  "device_B_prepared =
     device_A_prepared
       \<lparr> connectors := [conn_50, conn_51_B],
         bound_connectors := [(0, conn_50), (1, conn_51_B)],
         connectors_to_display_id := [(conn_50, 0), (conn_51_B, 1)] \<rparr>"

definition device_B_failed :: DrmDevice where
  "device_B_failed =
     device_B_prepared
       \<lparr> bound_crtcs := [(0, crtc_40)],
         encoders_to_display_id := [(enc_30, 0)],
         bound_encoders := [(crtc_40, enc_30)],
         trace := trace_prepared @
           [ALOGE ''Could not find a suitable encoder/crtc for display %d'',
            ALOGE ''Failed CreateDisplayPipe %d with %d''] \<rparr>"

text \<open>
  One CRTC and two encoders that can both drive it: CRTC 10; encoders 20 and 21, idle,
  mask bit 0; connector 30 internal on encoder 20, connector 31 external on encoder 21,
  both connected and not configured.
\<close>

definition kernel_shared :: kernel where
  "kernel_shared =
     kernel_A
       \<lparr> k_resources := Some \<lparr> res_crtcs = [10], res_encoders = [20, 21],
                               res_connectors = [30, 31], min_width = 0, max_width = 4096,
                               min_height = 0, max_height = 4096 \<rparr>,
         k_encoder := [20 \<mapsto> (0, 1), 21 \<mapsto> (0, 1)],
         k_connector :=
           [30 \<mapsto> info_50\<lparr>ci_encoder_id := 0, ci_encoders := [20]\<rparr>,
            31 \<mapsto> info_51\<lparr>ci_encoders := [21]\<rparr>] \<rparr>"

definition crtc_10 :: DrmCrtc where "crtc_10 = \<lparr>crtc_id = 10, crtc_index = 0\<rparr>"

section \<open>Evaluation of the concrete devices\<close>

lemmas engine_defs =
  TryEncoderForDisplay_def try_current_encoder_def CreateDisplayPipe_def FindCrtcById_def
  FindEncoderById_def SupportsCrtc_def SupportsEncoder_def bind_crtc_def bind_pipeline_def
  map_at_def emit_def ENODEV_def EAGAIN_def ENOENT_def EACCES_def

lemmas init_defs =
  Init_def Init_prepare_def Init_negotiate_def Init_enumerate_def Init_add_displays_def
  add_displays_def create_all_def List.map_filter_simps enumerate_eq_zip
  DrmCrtc_CreateInstance_def DrmEncoder_CreateInstance_def DrmConnector_CreateInstance_def
  map_size_def DrmDevice_new_def Let_def

lemmas concrete_defs =
  kernel_A_def kernel_B_def kernel_shared_def kernel_not_master_def info_50_def info_51_def info_52_def
  crtc_40_def crtc_41_def crtc_10_def enc_30_def enc_31_def conn_50_def conn_51_def
  conn_52_def device_A_def device_unnumbered_def property_0_def
  trace_prepared_def device_A_prepared_def device_A_done_def conn_51_B_def
  device_B_prepared_def device_B_failed_def

section \<open>The CRTC search and the creation of one pipeline\<close>

lemma try_crtcs_cases:
  "try_crtcs dev display enc cs = (ret, dev') \<Longrightarrow>
     (ret = - EAGAIN \<and> dev' = dev) \<or>
     (ret = 0 \<and> (\<exists>crtc. crtc \<in> set cs \<and> dev' = bind_crtc dev display crtc enc))"
  by (induction cs) (auto split: if_splits)

lemma FindCrtcById_mem: "FindCrtcById dev i = Some crtc \<Longrightarrow> crtc \<in> set (crtcs dev)"
  by (auto simp: FindCrtcById_def find_Some_iff)

lemma FindEncoderById_mem: "FindEncoderById dev i = Some enc \<Longrightarrow> enc \<in> set (encoders dev)"
  by (auto simp: FindEncoderById_def find_Some_iff)

lemma TryEncoderForDisplay_cases:
  "TryEncoderForDisplay dev display enc = (ret, dev') \<Longrightarrow>
     (ret = - EAGAIN \<and> dev' = dev) \<or>
     (ret = 0 \<and> (\<exists>crtc. crtc \<in> set (crtcs dev) \<and> dev' = bind_crtc dev display crtc enc))"
  unfolding TryEncoderForDisplay_def
  by (auto split: option.splits if_splits dest: try_crtcs_cases FindCrtcById_mem)

lemma try_crtcs_unbound:
  "map_of (bound_crtcs dev) display = None \<Longrightarrow>
   try_crtcs dev display enc cs =
     (case find (\<lambda>crtc. SupportsCrtc enc crtc \<and> crtc_id crtc \<noteq> current_crtc_id enc) cs of
        Some crtc \<Rightarrow> (0, bind_crtc dev display crtc enc)
      | None \<Rightarrow> (- EAGAIN, dev))"
  by (induction cs) auto

lemma TryEncoderForDisplay_unbound:
  "map_of (bound_crtcs dev) display = None \<Longrightarrow>
   TryEncoderForDisplay dev display enc =
     (case crtc_search dev enc of
        Some crtc \<Rightarrow> (0, bind_crtc dev display crtc enc)
      | None \<Rightarrow> (- EAGAIN, dev))"
  by (simp add: TryEncoderForDisplay_def crtc_search_def try_crtcs_unbound split: option.splits)

lemma try_crtcs_bound:
  "map_of (bound_crtcs dev) display \<noteq> None \<Longrightarrow> try_crtcs dev display enc cs = (- EAGAIN, dev)"
  by (induction cs) auto

lemma TryEncoderForDisplay_bound:
  "map_of (bound_crtcs dev) display \<noteq> None \<Longrightarrow>
   TryEncoderForDisplay dev display enc = (- EAGAIN, dev)"
  by (auto simp: TryEncoderForDisplay_def try_crtcs_bound split: option.splits)

lemma try_encoders_cases:
  "try_encoders dev conn display es = (ret, dev') \<Longrightarrow>
     (ret = - ENODEV \<and>
      dev' = emit (ALOGE ''Could not find a suitable encoder/crtc for display %d'') dev) \<or>
     (ret = 0 \<and> (\<exists>enc crtc. enc \<in> set es \<and> crtc \<in> set (crtcs dev) \<and>
        map_of (encoders_to_display_id dev) enc = None \<and>
        dev' = bind_pipeline dev display crtc enc))"
proof (induction es)
  case Nil
  then show ?case by auto
next
  case (Cons enc es)
  show ?case
  proof (cases "\<not> SupportsEncoder conn enc \<or> map_of (encoders_to_display_id dev) enc \<noteq> None")
    case True
    with Cons show ?thesis by auto
  next
    case False
    obtain r d where t: "TryEncoderForDisplay dev display enc = (r, d)" by force
    from TryEncoderForDisplay_cases[OF t] show ?thesis
    proof
      assume "r = - EAGAIN \<and> d = dev"
      with False t Cons show ?thesis by (auto simp: EAGAIN_def)
    next
      assume "r = 0 \<and> (\<exists>crtc. crtc \<in> set (crtcs dev) \<and> d = bind_crtc dev display crtc enc)"
      then obtain crtc where c: "r = 0" "crtc \<in> set (crtcs dev)"
          "d = bind_crtc dev display crtc enc"
        by blast
      with False t Cons.prems have "ret = 0" "dev' = bind_pipeline dev display crtc enc"
        by (auto simp: bind_crtc_def bind_pipeline_def)
      with c False show ?thesis by auto
    qed
  qed
qed

lemma try_current_encoder_cases:
  "try_current_encoder dev conn display = r \<Longrightarrow>
     r = Inr dev \<or>
     (\<exists>enc crtc. enc \<in> set (encoders dev) \<and> crtc \<in> set (crtcs dev) \<and>
        map_of (encoders_to_display_id dev) enc = None \<and>
        r = Inl (0, bind_pipeline dev display crtc enc))"
proof (cases "FindEncoderById dev (current_encoder_id conn)")
  case None
  assume "try_current_encoder dev conn display = r"
  with None show ?thesis by (simp add: try_current_encoder_def)
next
  case (Some enc0)
  assume r: "try_current_encoder dev conn display = r"
  obtain rt d where t: "TryEncoderForDisplay dev display enc0 = (rt, d)" by force
  show ?thesis
  proof (cases "map_of (encoders_to_display_id dev) enc0 = None")
    case False
    with Some r show ?thesis by (auto simp: try_current_encoder_def)
  next
    case True
    from TryEncoderForDisplay_cases[OF t] show ?thesis
    proof
      assume "rt = - EAGAIN \<and> d = dev"
      with Some True t r show ?thesis by (auto simp: try_current_encoder_def EAGAIN_def)
    next
      assume "rt = 0 \<and> (\<exists>crtc. crtc \<in> set (crtcs dev) \<and> d = bind_crtc dev display crtc enc0)"
      then obtain crtc where c: "rt = 0" "crtc \<in> set (crtcs dev)"
          "d = bind_crtc dev display crtc enc0"
        by blast
      with Some True t r have "r = Inl (0, bind_pipeline dev display crtc enc0)"
        by (auto simp: try_current_encoder_def bind_crtc_def bind_pipeline_def)
      with c True FindEncoderById_mem[OF Some] show ?thesis by blast
    qed
  qed
qed

lemma CreateDisplayPipe_cases:
  assumes a: "CreateDisplayPipe dev conn = Inr (ret, dev')"
  shows "\<exists>display. map_of (connectors_to_display_id dev) conn = Some display \<and>
     ((ret = - ENODEV \<and>
       dev' = emit (ALOGE ''Could not find a suitable encoder/crtc for display %d'') dev) \<or>
      (ret = 0 \<and> (\<exists>enc crtc. enc \<in> set (encoders dev) \<and> crtc \<in> set (crtcs dev) \<and>
          map_of (encoders_to_display_id dev) enc = None \<and>
          dev' = bind_pipeline dev display crtc enc)))"
proof -
  from a obtain display where d: "map_of (connectors_to_display_id dev) conn = Some display"
    by (auto simp: CreateDisplayPipe_def map_at_def split: option.splits)
  from try_current_encoder_cases[OF refl, of dev conn display]
  show ?thesis
  proof
    assume "try_current_encoder dev conn display = Inr dev"
    with a d have "try_encoders dev conn display (encoders dev) = (ret, dev')"
      by (simp add: CreateDisplayPipe_def map_at_def)
    from try_encoders_cases[OF this] d show ?thesis by blast
  next
    assume "\<exists>enc crtc. enc \<in> set (encoders dev) \<and> crtc \<in> set (crtcs dev) \<and>
        map_of (encoders_to_display_id dev) enc = None \<and>
        try_current_encoder dev conn display = Inl (0, bind_pipeline dev display crtc enc)"
    then obtain enc crtc where e: "enc \<in> set (encoders dev)" "crtc \<in> set (crtcs dev)"
        "map_of (encoders_to_display_id dev) enc = None"
        "try_current_encoder dev conn display = Inl (0, bind_pipeline dev display crtc enc)"
      by blast
    with a d have "ret = 0" "dev' = bind_pipeline dev display crtc enc"
      by (auto simp: CreateDisplayPipe_def map_at_def)
    with e d show ?thesis by blast
  qed
qed

text \<open>
  C6. When \<^verbatim>\<open>TryEncoderForDisplay\<close> returns the retry signal \<^verbatim>\<open>-EAGAIN\<close> the device is
  exactly as before the attempt, and its only other outcome is 0 with the
  display-to-CRTC and CRTC-to-encoder entries written. \<^verbatim>\<open>CreateDisplayPipe\<close> either
  fails with all five binding maps as they were, or returns 0 with the display-to-CRTC,
  CRTC-to-encoder and encoder-to-display entries of the connector's display written
  together, for an encoder that was unclaimed.
\<close>

theorem C6_retry_commits_nothing:
  assumes "TryEncoderForDisplay dev display enc = (ret, dev')"
    and "CreateDisplayPipe dev2 conn = Inr (ret2, dev2')"
  shows "((ret = - EAGAIN \<and> dev' = dev) \<or>
          (ret = 0 \<and> (\<exists>crtc. crtc \<in> set (crtcs dev) \<and> dev' = bind_crtc dev display crtc enc))) \<and>
         (\<exists>d. map_of (connectors_to_display_id dev2) conn = Some d \<and>
            ((ret2 \<noteq> 0 \<and> binding_maps dev2' = binding_maps dev2) \<or>
             (ret2 = 0 \<and> (\<exists>e crtc. e \<in> set (encoders dev2) \<and> crtc \<in> set (crtcs dev2) \<and>
                 map_of (encoders_to_display_id dev2) e = None \<and>
                 dev2' = bind_pipeline dev2 d crtc e))))"
proof -
  from CreateDisplayPipe_cases[OF assms(2)] obtain d where
    d: "map_of (connectors_to_display_id dev2) conn = Some d"
    and c: "(ret2 = - ENODEV \<and>
             dev2' = emit (ALOGE ''Could not find a suitable encoder/crtc for display %d'') dev2) \<or>
            (ret2 = 0 \<and> (\<exists>e crtc. e \<in> set (encoders dev2) \<and> crtc \<in> set (crtcs dev2) \<and>
                 map_of (encoders_to_display_id dev2) e = None \<and>
                 dev2' = bind_pipeline dev2 d crtc e))"
    by blast
  from c have "(ret2 \<noteq> 0 \<and> binding_maps dev2' = binding_maps dev2) \<or>
            (ret2 = 0 \<and> (\<exists>e crtc. e \<in> set (encoders dev2) \<and> crtc \<in> set (crtcs dev2) \<and>
                 map_of (encoders_to_display_id dev2) e = None \<and>
                 dev2' = bind_pipeline dev2 d crtc e))"
    by (auto simp: ENODEV_def binding_maps_def emit_def)
  with d TryEncoderForDisplay_cases[OF assms(1)] show ?thesis by blast
qed

theorem C6_retry_commits_nothing_witness:
  "TryEncoderForDisplay device_A 1 (enc_31\<lparr>possible_crtcs := 0\<rparr>) = (- EAGAIN, device_A) \<and>
   CreateDisplayPipe device_A conn_50 = Inr (0, bind_pipeline device_A 0 crtc_40 enc_30) \<and>
   binding_maps (bind_pipeline device_A 0 crtc_40 enc_30) =
     ([(0, crtc_40)], [(0, conn_50), (1, conn_51)], [(conn_50, 0), (conn_51, 1)],
      [(enc_30, 0)], [(crtc_40, enc_30)])"
proof -
  have t: "TryEncoderForDisplay device_A 1 (enc_31\<lparr>possible_crtcs := 0\<rparr>) = (- EAGAIN, device_A)"
    by (simp add: engine_defs concrete_defs DrmDevice_new_def)
  have p: "CreateDisplayPipe device_A conn_50 = Inr (0, bind_pipeline device_A 0 crtc_40 enc_30)"
    by (simp add: engine_defs concrete_defs DrmDevice_new_def)
  have b: "binding_maps (bind_pipeline device_A 0 crtc_40 enc_30) =
     ([(0, crtc_40)], [(0, conn_50), (1, conn_51)], [(conn_50, 0), (conn_51, 1)],
      [(enc_30, 0)], [(crtc_40, enc_30)])"
    by (simp add: binding_maps_def bind_pipeline_def device_A_def DrmDevice_new_def)
  from C6_retry_commits_nothing[OF t p] t p b show ?thesis by simp
qed

text \<open>
  C4. For a connector with a display id: \<^verbatim>\<open>TryEncoderForDisplay\<close> on a display that has
  no CRTC yet binds the CRTC that \<open>crtc_search\<close> names (the encoder's currently
  configured CRTC when the device has it, otherwise the first CRTC in enumeration order
  that the encoder's mask allows and that is not its current CRTC) and returns the
  retry signal \<^verbatim>\<open>-EAGAIN\<close> when there is none; on a display that has a CRTC it returns
  the retry signal. \<^verbatim>\<open>CreateDisplayPipe\<close> on a display with no CRTC attempts the
  connector's currently configured encoder first when the device has it and it is
  unclaimed: if its search finds a CRTC that is the pipeline, and on the retry signal
  the scan over all encoders goes on. (The display of a connector has no CRTC whenever
  \<^verbatim>\<open>Init\<close> creates its pipeline, the connectors being fewer than \<open>2 ^ 31\<close>: lemma
  \<open>Init_pipes_display_unbound\<close> below.)
\<close>

theorem C4_preferred_encoder_and_crtc_search:
  assumes "map_of (connectors_to_display_id dev) conn = Some display"
  shows "TryEncoderForDisplay dev display enc =
           (if map_of (bound_crtcs dev) display = None
            then (case crtc_search dev enc of
                    Some crtc \<Rightarrow> (0, bind_crtc dev display crtc enc)
                  | None \<Rightarrow> (- EAGAIN, dev))
            else (- EAGAIN, dev)) \<and>
         (map_of (bound_crtcs dev) display = None \<longrightarrow>
            CreateDisplayPipe dev conn =
              Inr (case FindEncoderById dev (current_encoder_id conn) of
                     None \<Rightarrow> try_encoders dev conn display (encoders dev)
                   | Some enc0 \<Rightarrow>
                       if map_of (encoders_to_display_id dev) enc0 = None
                       then (case crtc_search dev enc0 of
                               Some crtc \<Rightarrow> (0, bind_pipeline dev display crtc enc0)
                             | None \<Rightarrow> try_encoders dev conn display (encoders dev))
                       else try_encoders dev conn display (encoders dev)))"
proof -
  have 1: "TryEncoderForDisplay dev display e =
           (if map_of (bound_crtcs dev) display = None
            then (case crtc_search dev e of
                    Some crtc \<Rightarrow> (0, bind_crtc dev display crtc e)
                  | None \<Rightarrow> (- EAGAIN, dev))
            else (- EAGAIN, dev))" for e
  proof (cases "map_of (bound_crtcs dev) display = None")
    case True
    with TryEncoderForDisplay_unbound[OF True, of e] show ?thesis by simp
  next
    case False
    have "TryEncoderForDisplay dev display e = (- EAGAIN, dev)"
      by (rule TryEncoderForDisplay_bound[OF False])
    with False show ?thesis by auto
  qed
  have 2: "CreateDisplayPipe dev conn =
           Inr (case FindEncoderById dev (current_encoder_id conn) of
                  None \<Rightarrow> try_encoders dev conn display (encoders dev)
                | Some enc0 \<Rightarrow>
                    if map_of (encoders_to_display_id dev) enc0 = None
                    then (case crtc_search dev enc0 of
                            Some crtc \<Rightarrow> (0, bind_pipeline dev display crtc enc0)
                          | None \<Rightarrow> try_encoders dev conn display (encoders dev))
                    else try_encoders dev conn display (encoders dev))"
    if u: "map_of (bound_crtcs dev) display = None"
    using assms u
    by (simp add: CreateDisplayPipe_def map_at_def try_current_encoder_def 1 EAGAIN_def
          bind_crtc_def bind_pipeline_def split: option.splits)
  from 1 2 show ?thesis by blast
qed

theorem C4_preferred_encoder_and_crtc_search_witness:
  "map_of (connectors_to_display_id device_A) conn_50 = Some 0 \<and>
   map_of (bound_crtcs device_A) 0 = None \<and>
   crtc_search device_A enc_31 = Some crtc_41 \<and>
   TryEncoderForDisplay device_A 0 enc_31 = (0, bind_crtc device_A 0 crtc_41 enc_31) \<and>
   FindEncoderById device_A (current_encoder_id conn_50) = Some enc_30 \<and>
   map_of (encoders_to_display_id device_A) enc_30 = None \<and>
   crtc_search device_A enc_30 = Some crtc_40 \<and>
   CreateDisplayPipe device_A conn_50 = Inr (0, bind_pipeline device_A 0 crtc_40 enc_30)"
proof -
  have h1: "map_of (bound_crtcs device_A) 0 = None"
    by (simp add: concrete_defs DrmDevice_new_def)
  have h2: "map_of (connectors_to_display_id device_A) conn_50 = Some 0"
    by (simp add: concrete_defs DrmDevice_new_def)
  have s1: "crtc_search device_A enc_31 = Some crtc_41"
    by (simp add: crtc_search_def engine_defs concrete_defs DrmDevice_new_def)
  have s0: "crtc_search device_A enc_30 = Some crtc_40"
    by (simp add: crtc_search_def engine_defs concrete_defs DrmDevice_new_def)
  have f: "FindEncoderById device_A (current_encoder_id conn_50) = Some enc_30"
    by (simp add: engine_defs concrete_defs DrmDevice_new_def)
  have u: "map_of (encoders_to_display_id device_A) enc_30 = None"
    by (simp add: concrete_defs DrmDevice_new_def)
  from C4_preferred_encoder_and_crtc_search[OF h2, of enc_31] h1 h2 s1 s0 f u
  show ?thesis by simp
qed

section \<open>Injectivity of the CRTC binding\<close>

text \<open>
  C1. The claim that no CRTC is bound to more than one display id fails on the device
  \<open>kernel_shared\<close>: one CRTC, two encoders that can both drive it, two connected
  connectors. \<^verbatim>\<open>Init\<close> succeeds with two displays, and displays 0 and 1 are both bound to
  CRTC 10, because \<^verbatim>\<open>TryEncoderForDisplay\<close> tests \<^verbatim>\<open>bound_crtcs_.count(display)\<close>, whether
  the display has a CRTC, and never whether the CRTC has a display.
\<close>

theorem C1_one_crtc_bound_to_two_displays:
  "map_sum id (map_prod id bound_crtcs) (Init kernel_shared ''/dev/dri/card0'' 0 DrmDevice_new) =
     Inr ((0, 2), [(0, crtc_10), (1, crtc_10)])"
  by (simp add: init_defs engine_defs concrete_defs)


section \<open>Allocation of display ids\<close>

lemma add_displays_loop_Cons:
  "add_displays_loop i c (conn # cs) (dev, n) =
     (if in_class i c conn
      then add_displays_loop i c cs
             (dev\<lparr> bound_connectors := AList.update n conn (bound_connectors dev),
                   connectors_to_display_id :=
                     AList.update conn n (connectors_to_display_id dev) \<rparr>,
              n + 1)
      else add_displays_loop i c cs (dev, n))"
  by (simp add: in_class_def Let_def)

lemma update_fresh: "k \<notin> fst ` set al \<Longrightarrow> AList.update k v al = al @ [(k, v)]"
  by (induction al) auto

text \<open>
  Display ids are 32-bit: \<open>n + of_nat j\<close> is the id \<open>j\<close> increments after \<open>n\<close>, and
  fewer than \<open>2 ^ 32\<close> increments never come back to an id already given.
\<close>

lemma cint_offset_inj:
  assumes "i < 2 ^ 32" "j < 2 ^ 32" "(n :: cint) + of_nat i = n + of_nat j"
  shows "i = j"
proof -
  from assms(3) have "(of_nat i :: cint) = of_nat j" by simp
  then have "take_bit 32 i = take_bit 32 j" by (simp add: word_of_nat_eq_iff)
  with assms(1,2) show ?thesis by (simp add: take_bit_nat_eq_self)
qed

lemma cint_offset_fresh:
  "m < 2 ^ 32 \<Longrightarrow> (n :: cint) + of_nat m \<notin> (\<lambda>j. n + of_nat j) ` {..<m}"
proof
  assume m: "m < 2 ^ 32" and "n + of_nat m \<in> (\<lambda>j. n + of_nat j) ` {..<m}"
  then obtain j where j: "j < m" "n + of_nat m = n + of_nat j" by auto
  from j(1) m have "j < 2 ^ 32" by simp
  from cint_offset_inj[OF m this j(2)] j(1) show False by simp
qed

lemma cint_offset_Suc: "(n :: cint) + of_nat m + 1 = n + of_nat (Suc m)"
  by simp

lemma sequential_ids_append:
  "sequential_ids n (xs @ ys) = sequential_ids n xs @ sequential_ids (n + of_nat (length xs)) ys"
  by (induction xs arbitrary: n) (simp_all add: add.assoc)

lemma sequential_ids_length: "length (sequential_ids n xs) = length xs"
  by (induction xs arbitrary: n) simp_all

lemma sequential_ids_nth:
  "i < length xs \<Longrightarrow> sequential_ids n xs ! i = (n + of_nat i, xs ! i)"
proof (induction xs arbitrary: n i)
  case Nil
  then show ?case by simp
next
  case (Cons x xs)
  show ?case
  proof (cases i)
    case 0
    then show ?thesis by simp
  next
    case (Suc j)
    with Cons.prems have "j < length xs" by simp
    from Cons.IH[OF this, of "n + 1"] Suc show ?thesis by (simp add: add.assoc)
  qed
qed

lemma sequential_ids_keys:
  "fst ` set (sequential_ids n xs) = (\<lambda>j. n + of_nat j) ` {..<length xs}"
proof -
  have "set (sequential_ids n xs) = (\<lambda>i. sequential_ids n xs ! i) ` {..<length xs}"
    by (auto simp: set_conv_nth sequential_ids_length)
  also have "\<dots> = (\<lambda>i. (n + of_nat i, xs ! i)) ` {..<length xs}"
    by (rule image_cong) (simp_all add: sequential_ids_nth)
  finally show ?thesis by (simp add: image_image)
qed

lemma add_displays_loop_bound:
  "add_displays_loop i c cs (dev, n0 + of_nat m) = (dev', n') \<Longrightarrow>
   m + length (filter (in_class i c) cs) \<le> 2 ^ 32 \<Longrightarrow>
   fst ` set (bound_connectors dev) \<subseteq> (\<lambda>j. n0 + of_nat j) ` {..<m} \<Longrightarrow>
     bound_connectors dev' =
       bound_connectors dev @ sequential_ids (n0 + of_nat m) (filter (in_class i c) cs) \<and>
     n' = n0 + of_nat (m + length (filter (in_class i c) cs)) \<and>
     fst ` set (bound_connectors dev') \<subseteq>
       (\<lambda>j. n0 + of_nat j) ` {..<m + length (filter (in_class i c) cs)}"
proof (induction cs arbitrary: dev m)
  case Nil
  then show ?case by simp
next
  case (Cons conn cs)
  show ?case
  proof (cases "in_class i c conn")
    case False
    with Cons.prems have *: "add_displays_loop i c cs (dev, n0 + of_nat m) = (dev', n')"
      "m + length (filter (in_class i c) cs) \<le> 2 ^ 32"
      by (simp_all add: add_displays_loop_Cons del: add_displays_loop.simps)
    from False have feq: "filter (in_class i c) (conn # cs) = filter (in_class i c) cs"
      by simp
    from Cons.IH[OF * Cons.prems(3)] show ?thesis unfolding feq .
  next
    case True
    define n where "n = n0 + of_nat m"
    define bc where "bc = AList.update n conn (bound_connectors dev)"
    define d where "d = dev\<lparr> bound_connectors := bc,
                   connectors_to_display_id :=
                     AList.update conn n (connectors_to_display_id dev) \<rparr>"
    from True Cons.prems(1) have l: "add_displays_loop i c cs (d, n0 + of_nat (Suc m)) = (dev', n')"
      by (simp add: add_displays_loop_Cons d_def bc_def n_def cint_offset_Suc
               del: add_displays_loop.simps of_nat_Suc)
    from True Cons.prems(2) have m: "m < 2 ^ 32"
      and le: "Suc m + length (filter (in_class i c) cs) \<le> 2 ^ 32" by simp_all
    from cint_offset_fresh[OF m, of n0] Cons.prems(3)
    have fresh: "n \<notin> fst ` set (bound_connectors dev)" unfolding n_def by blast
    have b: "bc = bound_connectors dev @ [(n, conn)]"
      unfolding bc_def by (rule update_fresh[OF fresh])
    have "fst ` set bc = insert n (fst ` set (bound_connectors dev))"
      by (simp add: b)
    with Cons.prems(3) have k: "fst ` set (bound_connectors d) \<subseteq> (\<lambda>j. n0 + of_nat j) ` {..<Suc m}"
      unfolding d_def n_def by (simp add: lessThan_Suc, blast)
    note r = Cons.IH[OF l le k]
    from True have f: "filter (in_class i c) (conn # cs) = conn # filter (in_class i c) cs"
      by simp
    have bd: "bound_connectors d = bound_connectors dev @ [(n, conn)]"
      by (simp add: d_def b)
    have s: "sequential_ids n (conn # filter (in_class i c) cs) =
               (n, conn) # sequential_ids (n0 + of_nat (Suc m)) (filter (in_class i c) cs)"
      by (simp add: n_def cint_offset_Suc del: of_nat_Suc)
    have 1: "bound_connectors dev' =
       bound_connectors dev @ sequential_ids (n0 + of_nat m) (filter (in_class i c) (conn # cs))"
      using r[THEN conjunct1] by (simp only: f bd s[unfolded n_def] n_def append_assoc append_Cons append_Nil)
    have eq: "Suc m + length (filter (in_class i c) cs) =
              m + length (filter (in_class i c) (conn # cs))"
      using True by simp
    have 2: "n' = n0 + of_nat (m + length (filter (in_class i c) (conn # cs)))"
      using r[THEN conjunct2, THEN conjunct1] by (simp only: eq)
    have 3: "fst ` set (bound_connectors dev') \<subseteq>
       (\<lambda>j. n0 + of_nat j) ` {..<m + length (filter (in_class i c) (conn # cs))}"
      using r[THEN conjunct2, THEN conjunct2] by (simp only: eq)
    from 1 2 3 show ?thesis by (intro conjI)
  qed
qed

lemma add_displays_loop_frame:
  "add_displays_loop i c cs (dev, n) = (dev', n') \<Longrightarrow>
     dev' = dev\<lparr> bound_connectors := bound_connectors dev',
                 connectors_to_display_id := connectors_to_display_id dev' \<rparr>"
proof (induction cs arbitrary: dev n)
  case Nil
  then show ?case by simp
next
  case (Cons conn cs)
  show ?case
  proof (cases "in_class i c conn")
    case False
    with Cons.prems have "add_displays_loop i c cs (dev, n) = (dev', n')"
      by (simp add: add_displays_loop_Cons del: add_displays_loop.simps)
    from Cons.IH[OF this] show ?thesis .
  next
    case True
    let ?d = "dev\<lparr> bound_connectors := AList.update n conn (bound_connectors dev),
                   connectors_to_display_id :=
                     AList.update conn n (connectors_to_display_id dev) \<rparr>"
    from True Cons.prems have l: "add_displays_loop i c cs (?d, n + 1) = (dev', n')"
      by (simp add: add_displays_loop_Cons del: add_displays_loop.simps)
    from Cons.IH[OF l] have "dev' = ?d\<lparr> bound_connectors := bound_connectors dev',
                 connectors_to_display_id := connectors_to_display_id dev' \<rparr>" .
    then show ?thesis by simp
  qed
qed

lemma add_displays_bound:
  assumes "add_displays i c (dev, n0 + of_nat m) = (dev', n')"
    and "m + length (filter (in_class i c) (connectors dev)) \<le> 2 ^ 32"
    and "fst ` set (bound_connectors dev) \<subseteq> (\<lambda>j. n0 + of_nat j) ` {..<m}"
  shows "bound_connectors dev' =
           bound_connectors dev @
           sequential_ids (n0 + of_nat m) (filter (in_class i c) (connectors dev))"
    and "n' = n0 + of_nat (m + length (filter (in_class i c) (connectors dev)))"
    and "connectors dev' = connectors dev"
    and "fst ` set (bound_connectors dev') \<subseteq>
           (\<lambda>j. n0 + of_nat j) ` {..<m + length (filter (in_class i c) (connectors dev))}"
proof -
  from assms(1) have l: "add_displays_loop i c (connectors dev) (dev, n0 + of_nat m) = (dev', n')"
    by (simp add: add_displays_def)
  note r = add_displays_loop_bound[OF l assms(2,3)]
  from r show "bound_connectors dev' =
           bound_connectors dev @
           sequential_ids (n0 + of_nat m) (filter (in_class i c) (connectors dev))"
    by (rule conjunct1)
  from r show "n' = n0 + of_nat (m + length (filter (in_class i c) (connectors dev)))"
    by (rule conjunct2[THEN conjunct1])
  from r show "fst ` set (bound_connectors dev') \<subseteq>
           (\<lambda>j. n0 + of_nat j) ` {..<m + length (filter (in_class i c) (connectors dev))}"
    by (rule conjunct2[THEN conjunct2])
  from add_displays_loop_frame[OF l] have "connectors dev' = connectors (dev\<lparr> bound_connectors := bound_connectors dev',
                 connectors_to_display_id := connectors_to_display_id dev' \<rparr>)" by simp
  then show "connectors dev' = connectors dev" by simp
qed

lemma priority_order_classes:
  "priority_order cs =
     filter (in_class True True) cs @ filter (in_class False True) cs @
     filter (in_class True False) cs @ filter (in_class False False) cs"
  by (simp add: priority_order_def in_class_def[abs_def])

text \<open>
  A connector is in at most two of the four classes, so the connectors of a
  \<^verbatim>\<open>drmModeRes\<close>, whose \<^verbatim>\<open>count_connectors\<close> is an \<^verbatim>\<open>int\<close>, get fewer than \<open>2 ^ 32\<close> ids.
\<close>

lemma priority_order_length: "length (priority_order cs) \<le> 2 * length cs"
proof -
  have "length (filter (\<lambda>c. P c \<and> Q c) cs) + length (filter (\<lambda>c. P c \<and> \<not> Q c) cs) \<le> length cs"
    for P Q :: "DrmConnector \<Rightarrow> bool"
  proof -
    have "length (filter (\<lambda>c. P c \<and> Q c) cs) + length (filter (\<lambda>c. P c \<and> \<not> Q c) cs) =
          length (filter Q (filter P cs)) + length (filter (\<lambda>c. \<not> Q c) (filter P cs))"
      by (simp add: conj_commute)
    also have "\<dots> = length (filter P cs)" by (rule sum_length_filter_compl)
    finally show ?thesis by simp
  qed
  from this[of IsInternal IsConnected] this[of IsExternal IsConnected]
  show ?thesis by (simp add: priority_order_def)
qed

lemma priority_order_fits:
  "length cs < 2 ^ 31 \<Longrightarrow> length (priority_order cs) \<le> 2 ^ 32"
  using priority_order_length[of cs] by simp

lemma Init_add_displays_bound:
  assumes e: "bound_connectors dev = []"
    and a: "Init_add_displays (dev, n) = (dev', n')"
    and len: "length (priority_order (connectors dev)) \<le> 2 ^ 32"
  shows "bound_connectors dev' = sequential_ids n (priority_order (connectors dev))"
    and "n' = n + of_nat (length (priority_order (connectors dev)))"
    and "connectors dev' = connectors dev"
proof -
  define f1 where "f1 = filter (in_class True True) (connectors dev)"
  define f2 where "f2 = filter (in_class False True) (connectors dev)"
  define f3 where "f3 = filter (in_class True False) (connectors dev)"
  define f4 where "f4 = filter (in_class False False) (connectors dev)"
  have p: "priority_order (connectors dev) = f1 @ f2 @ f3 @ f4"
    by (simp add: priority_order_classes f1_def f2_def f3_def f4_def)
  obtain d1 n1 where s1: "add_displays True True (dev, n + of_nat 0) = (d1, n1)" by force
  obtain d2 n2 where s2: "add_displays False True (d1, n1) = (d2, n2)" by force
  obtain d3 n3 where s3: "add_displays True False (d2, n2) = (d3, n3)" by force
  from a s1 s2 s3 have s4: "add_displays False False (d3, n3) = (dev', n')"
    by (simp add: Init_add_displays_def)
  from len have t: "length f1 + length f2 + length f3 + length f4 \<le> 2 ^ 32"
    by (simp add: p)
  from e have k0: "fst ` set (bound_connectors dev) \<subseteq> (\<lambda>j. n + of_nat j) ` {..<0}" by simp
  from t have t1: "0 + length (filter (in_class True True) (connectors dev)) \<le> 2 ^ 32"
    by (simp add: f1_def)
  note r1 = add_displays_bound[OF s1 t1 k0, folded f1_def]
  from t have t2: "(0 + length f1) + length (filter (in_class False True) (connectors d1)) \<le> 2 ^ 32"
    by (simp add: r1(3) f2_def)
  note r2 = add_displays_bound[OF s2[unfolded r1(2)] t2 r1(4), unfolded r1(3), folded f2_def]
  from t have t3: "(0 + length f1 + length f2) +
      length (filter (in_class True False) (connectors d2)) \<le> 2 ^ 32"
    by (simp add: r2(3) f3_def)
  note r3 = add_displays_bound[OF s3[unfolded r2(2)] t3 r2(4), unfolded r2(3), folded f3_def]
  from t have t4: "(0 + length f1 + length f2 + length f3) +
      length (filter (in_class False False) (connectors d3)) \<le> 2 ^ 32"
    by (simp add: r3(3) f4_def)
  note r4 = add_displays_bound[OF s4[unfolded r3(2)] t4 r3(4), unfolded r3(3), folded f4_def]
  from r4(3) show "connectors dev' = connectors dev" .
  from r4(2) show "n' = n + of_nat (length (priority_order (connectors dev)))"
    by (simp add: p add.assoc)
  have "bound_connectors dev' =
      sequential_ids n f1 @ sequential_ids (n + of_nat (length f1)) f2 @
      sequential_ids (n + of_nat (length f1 + length f2)) f3 @
      sequential_ids (n + of_nat (length f1 + length f2 + length f3)) f4"
    using r1(1) r2(1) r3(1) r4(1) e by simp
  also have "\<dots> = sequential_ids n (f1 @ f2 @ f3 @ f4)"
    by (simp add: sequential_ids_append add.assoc)
  finally show "bound_connectors dev' = sequential_ids n (priority_order (connectors dev))"
    by (simp only: p)
qed


lemma cint_offset_sint:
  assumes "sint (n :: cint) + int i < 2 ^ 31"
  shows "sint (n + of_nat i) = sint n + int i"
proof -
  have "n + of_nat i = word_of_int (sint n + int i)" by simp
  moreover have "- (2 ^ 31) \<le> sint n + int i" using sint_ge[of n] by simp
  ultimately show ?thesis using assms
    by (simp only: sint_sbintrunc') (simp add: signed_take_bit_int_eq_self)
qed

text \<open>
  C3. Whatever the enumerated connectors are (fewer than \<open>2 ^ 31\<close> of them: the kernel
  counts them in an \<^verbatim>\<open>int\<close>), the four calls of \<^verbatim>\<open>add_displays\<close> on a device with no
  display yet fill \<^verbatim>\<open>bound_connectors_\<close> with consecutive ids from the starting id, given
  to the connectors in the order of the four priority classes and in enumeration order
  within a class; \<^verbatim>\<open>num_displays\<close> advances by their number. Consecutive is the \<^verbatim>\<open>++\<close> of
  a 32-bit \<^verbatim>\<open>int\<close>: read as integers, the ids are the starting id plus the position for
  every position where that sum does not pass \<^verbatim>\<open>INT_MAX\<close>, and the increment wraps
  after it. If some connector is internal and connected, the starting id is bound to an
  internal connected connector.
\<close>

theorem C3_display_ids_by_priority:
  assumes "bound_connectors dev = []"
    and "Init_add_displays (dev, n) = (dev', n')"
    and "length (connectors dev) < 2 ^ 31"
  shows "bound_connectors dev' = sequential_ids n (priority_order (connectors dev)) \<and>
         n' = n + of_nat (length (priority_order (connectors dev))) \<and>
         (\<forall>i < length (priority_order (connectors dev)).
            sint n + int i < 2 ^ 31 \<longrightarrow>
            sint (fst (bound_connectors dev' ! i)) = sint n + int i \<and>
            snd (bound_connectors dev' ! i) = priority_order (connectors dev) ! i) \<and>
         (list_ex (\<lambda>c. IsInternal c \<and> IsConnected c) (connectors dev) \<longrightarrow>
            (\<exists>c. GetConnectorForDisplay dev' n = Inr c \<and> IsInternal c \<and> IsConnected c))"
proof -
  note r = Init_add_displays_bound[OF assms(1,2) priority_order_fits[OF assms(3)]]
  have "\<exists>c. GetConnectorForDisplay dev' n = Inr c \<and> IsInternal c \<and> IsConnected c"
    if "list_ex (\<lambda>c. IsInternal c \<and> IsConnected c) (connectors dev)"
  proof -
    from that have "filter (\<lambda>c. IsInternal c \<and> IsConnected c) (connectors dev) \<noteq> []"
      by (auto simp: list_ex_iff filter_empty_conv)
    then obtain x xs where f: "filter (\<lambda>c. IsInternal c \<and> IsConnected c) (connectors dev) = x # xs"
      by (cases "filter (\<lambda>c. IsInternal c \<and> IsConnected c) (connectors dev)") auto
    then have "x \<in> set (filter (\<lambda>c. IsInternal c \<and> IsConnected c) (connectors dev))" by simp
    then have x: "IsInternal x \<and> IsConnected x" by simp
    from f r(1) have "GetConnectorForDisplay dev' n = Inr x"
      by (simp add: GetConnectorForDisplay_def map_at_def priority_order_def)
    with x show ?thesis by blast
  qed
  moreover have "sint (fst (bound_connectors dev' ! i)) = sint n + int i \<and>
            snd (bound_connectors dev' ! i) = priority_order (connectors dev) ! i"
    if "i < length (priority_order (connectors dev))" "sint n + int i < 2 ^ 31" for i
    using that by (simp add: r(1) sequential_ids_nth cint_offset_sint)
  ultimately show ?thesis using r(1,2) by blast
qed

theorem C3_display_ids_by_priority_witness:
  "bound_connectors device_unnumbered = [] \<and>
   length (connectors device_unnumbered) < 2 ^ 31 \<and>
   priority_order (connectors device_unnumbered) = [conn_50, conn_51] \<and>
   Init_add_displays (device_unnumbered, 5) =
     (device_unnumbered \<lparr> bound_connectors := [(5, conn_50), (6, conn_51)],
                          connectors_to_display_id := [(conn_50, 5), (conn_51, 6)] \<rparr>, 7) \<and>
   sequential_ids 5 [conn_50, conn_51] = [(5, conn_50), (6, conn_51)] \<and>
   GetConnectorForDisplay
     (device_unnumbered \<lparr> bound_connectors := [(5, conn_50), (6, conn_51)],
                          connectors_to_display_id := [(conn_50, 5), (conn_51, 6)] \<rparr>) 5 =
     Inr conn_50 \<and>
   IsInternal conn_50 \<and> IsConnected conn_50 \<and>
   Init_add_displays (device_unnumbered, 2147483647) =
     (device_unnumbered \<lparr> bound_connectors := [(2147483647, conn_50), (2147483648, conn_51)],
                          connectors_to_display_id :=
                            [(conn_50, 2147483647), (conn_51, 2147483648)] \<rparr>, 2147483649) \<and>
   sequential_ids 2147483647 [conn_50, conn_51] =
     [(2147483647, conn_50), (2147483648, conn_51)] \<and>
   sint (2147483647 :: cint) = 2147483647 \<and> sint (2147483648 :: cint) = - 2147483648"
proof -
  let ?d5 = "device_unnumbered \<lparr> bound_connectors := [(5, conn_50), (6, conn_51)],
                          connectors_to_display_id := [(conn_50, 5), (conn_51, 6)] \<rparr>"
  let ?dmax = "device_unnumbered
      \<lparr> bound_connectors := [(2147483647, conn_50), (2147483648, conn_51)],
        connectors_to_display_id := [(conn_50, 2147483647), (conn_51, 2147483648)] \<rparr>"
  have e: "bound_connectors device_unnumbered = []"
    by (simp add: device_unnumbered_def DrmDevice_new_def)
  have l: "length (connectors device_unnumbered) < 2 ^ 31"
    by (simp add: device_unnumbered_def DrmDevice_new_def)
  have a: "Init_add_displays (device_unnumbered, 5) = (?d5, 7)"
    by (simp add: Init_add_displays_def add_displays_def concrete_defs DrmDevice_new_def)
  have m: "Init_add_displays (device_unnumbered, 2147483647) = (?dmax, 2147483649)"
    by (simp add: Init_add_displays_def add_displays_def concrete_defs DrmDevice_new_def)
  have p: "priority_order (connectors device_unnumbered) = [conn_50, conn_51]"
    by (simp add: priority_order_def concrete_defs DrmDevice_new_def)
  have g: "GetConnectorForDisplay ?d5 5 = Inr conn_50"
    by (simp add: GetConnectorForDisplay_def map_at_def)
  have i: "IsInternal conn_50 \<and> IsConnected conn_50"
    by (simp add: conn_50_def)
  have s: "sint (2147483647 :: cint) = 2147483647 \<and> sint (2147483648 :: cint) = - 2147483648"
    by simp
  from C3_display_ids_by_priority[OF e a l]
  have 1: "bound_connectors ?d5 = sequential_ids 5 [conn_50, conn_51]" by (simp only: p)
  from C3_display_ids_by_priority[OF e m l]
  have 2: "bound_connectors ?dmax = sequential_ids 2147483647 [conn_50, conn_51]"
    by (simp only: p)
  from 1 have 3: "sequential_ids 5 [conn_50, conn_51] = [(5, conn_50), (6, conn_51)]" by simp
  from 2 have 4: "sequential_ids 2147483647 [conn_50, conn_51] =
     [(2147483647, conn_50), (2147483648, conn_51)]" by simp
  from e l p a 3 g i m 4 s show ?thesis by blast
qed

section \<open>Property lookup\<close>

lemma GetProperty_loop_absent:
  "descriptors_resolve k props \<Longrightarrow> name \<notin> set (property_names k props) \<Longrightarrow>
   GetProperty_loop k obj name props p0 = Inr (False, p0)"
  by (induction props)
     (auto simp: descriptors_resolve_def property_names_def List.map_filter_simps split: option.splits)

lemma GetProperty_loop_found:
  "GetProperty_loop k obj name props p0 = Inr (True, p') \<Longrightarrow>
   \<exists>pid v d. (pid, v) \<in> set props \<and> k_property k pid = Some d \<and> prop_name d = name \<and>
     p' = DrmProperty_Init obj d v"
proof (induction props)
  case Nil
  then show ?case by simp
next
  case (Cons pv props)
  obtain pid v where pv: "pv = (pid, v)" by force
  from Cons.prems pv obtain d where d: "k_property k pid = Some d"
    by (cases "k_property k pid") auto
  show ?case
  proof (cases "prop_name d = name")
    case True
    with Cons.prems pv d have "p' = DrmProperty_Init obj d v" by simp
    with True d pv show ?thesis by auto
  next
    case False
    with Cons.prems pv d have "GetProperty_loop k obj name props p0 = Inr (True, p')" by simp
    from Cons.IH[OF this] show ?thesis by auto
  qed
qed

lemma property_names_iff:
  "name \<in> set (property_names k props) \<longleftrightarrow>
   (\<exists>pid v d. (pid, v) \<in> set props \<and> k_property k pid = Some d \<and> prop_name d = name)"
proof (induction props)
  case Nil
  show ?case by (simp add: property_names_def List.map_filter_simps)
next
  case (Cons pv props)
  obtain pid v where pv: "pv = (pid, v)" by force
  have "property_names k (pv # props) =
          (case k_property k pid of None \<Rightarrow> [] | Some d \<Rightarrow> [prop_name d]) @ property_names k props"
    by (simp add: pv property_names_def List.map_filter_simps split: option.splits)
  with Cons.IH pv show ?case
    by (cases "k_property k pid") auto
qed

lemma GetProperty_loop_present:
  "descriptors_resolve k props \<Longrightarrow> name \<in> set (property_names k props) \<Longrightarrow>
   \<exists>p'. GetProperty_loop k obj name props p0 = Inr (True, p')"
  by (induction props)
     (auto simp: descriptors_resolve_def property_names_def List.map_filter_simps split: option.splits)

text \<open>
  Where every property id of the set has a descriptor: \<^verbatim>\<open>GetProperty\<close> returns \<^verbatim>\<open>-ENODEV\<close>
  exactly when \<^verbatim>\<open>drmModeObjectGetProperties\<close> returns nothing; otherwise the result is
  \<^verbatim>\<open>-ENOENT\<close> with the caller's property untouched if no property of the set has the
  requested name; if one has, the result is 0 with a property of the set that has the
  name; and a name carried by exactly one property of the set gives that property's
  descriptor with its current value.
\<close>

lemma GetProperty_results:
  "(k_object_properties k obj ty = None \<longrightarrow> GetProperty k obj ty name p0 = Inr (- ENODEV, p0)) \<and>
   (GetProperty k obj ty name p0 = Inr (- ENODEV, p1) \<longrightarrow> k_object_properties k obj ty = None) \<and>
   (k_object_properties k obj ty = Some props \<and> descriptors_resolve k props \<longrightarrow>
      (name \<notin> set (property_names k props) \<longrightarrow>
         GetProperty k obj ty name p0 = Inr (- ENOENT, p0)) \<and>
      (name \<in> set (property_names k props) \<longrightarrow>
         (\<exists>pid v d. (pid, v) \<in> set props \<and> k_property k pid = Some d \<and> prop_name d = name \<and>
            GetProperty k obj ty name p0 = Inr (0, DrmProperty_Init obj d v))) \<and>
      (\<forall>pid v d. (pid, v) \<in> set props \<and> k_property k pid = Some d \<and> prop_name d = name \<and>
          (\<forall>pid' v' d'. (pid', v') \<in> set props \<and> k_property k pid' = Some d' \<and>
              prop_name d' = name \<longrightarrow> pid' = pid \<and> v' = v) \<longrightarrow>
          GetProperty k obj ty name p0 = Inr (0, DrmProperty_Init obj d v)))"
proof (intro conjI impI allI)
  assume "k_object_properties k obj ty = None"
  then show "GetProperty k obj ty name p0 = Inr (- ENODEV, p0)"
    by (simp add: GetProperty_def)
next
  assume "GetProperty k obj ty name p0 = Inr (- ENODEV, p1)"
  then show "k_object_properties k obj ty = None"
    by (auto simp: GetProperty_def ENODEV_def ENOENT_def split: option.splits sum.splits if_splits)
next
  assume a: "k_object_properties k obj ty = Some props \<and> descriptors_resolve k props"
    and n: "name \<notin> set (property_names k props)"
  from a n GetProperty_loop_absent[of k props name obj p0]
  show "GetProperty k obj ty name p0 = Inr (- ENOENT, p0)"
    by (simp add: GetProperty_def)
next
  assume a: "k_object_properties k obj ty = Some props \<and> descriptors_resolve k props"
    and n: "name \<in> set (property_names k props)"
  from a n GetProperty_loop_present[of k props name obj p0]
  obtain p' where l: "GetProperty_loop k obj name props p0 = Inr (True, p')" by blast
  from GetProperty_loop_found[OF l] obtain pid v d where
    f: "(pid, v) \<in> set props" "k_property k pid = Some d" "prop_name d = name"
       "p' = DrmProperty_Init obj d v"
    by blast
  from a l f(4) have "GetProperty k obj ty name p0 = Inr (0, DrmProperty_Init obj d v)"
    by (simp add: GetProperty_def)
  with f show "\<exists>pid v d. (pid, v) \<in> set props \<and> k_property k pid = Some d \<and> prop_name d = name \<and>
            GetProperty k obj ty name p0 = Inr (0, DrmProperty_Init obj d v)"
    by blast
next
  fix pid v d
  assume a: "k_object_properties k obj ty = Some props \<and> descriptors_resolve k props"
    and u: "(pid, v) \<in> set props \<and> k_property k pid = Some d \<and> prop_name d = name \<and>
          (\<forall>pid' v' d'. (pid', v') \<in> set props \<and> k_property k pid' = Some d' \<and>
              prop_name d' = name \<longrightarrow> pid' = pid \<and> v' = v)"
  from u have "name \<in> set (property_names k props)"
    unfolding property_names_iff by blast
  from a this GetProperty_loop_present[of k props name obj p0]
  obtain p' where l: "GetProperty_loop k obj name props p0 = Inr (True, p')" by blast
  from GetProperty_loop_found[OF l] obtain pid' v' d' where
    f: "(pid', v') \<in> set props" "k_property k pid' = Some d'" "prop_name d' = name"
       "p' = DrmProperty_Init obj d' v'"
    by blast
  with u have "pid' = pid" "v' = v" by blast+
  with f u have "p' = DrmProperty_Init obj d v" by simp
  with a l show "GetProperty k obj ty name p0 = Inr (0, DrmProperty_Init obj d v)"
    by (simp add: GetProperty_def)
qed


lemma GetProperty_results_kernel_A:
  "k_object_properties kernel_A 40 0 = Some [(1, 0), (2, 7), (3, 9)] \<and>
   descriptors_resolve kernel_A [(1, 0), (2, 7), (3, 9)] \<and>
   property_names kernel_A [(1, 0), (2, 7), (3, 9)] = [''ACTIVE'', ''MODE_ID'', ''OUT_FENCE_PTR''] \<and>
   GetProperty kernel_A 40 0 ''MODE_ID'' property_0 =
     Inr (0, DrmProperty_Init 40 \<lparr>prop_id = 2, prop_name = ''MODE_ID'', prop_flags = 0\<rparr> 7) \<and>
   GetProperty kernel_A 40 0 ''GAMMA_LUT'' property_0 = Inr (- ENOENT, property_0) \<and>
   k_object_properties kernel_A 41 0 = None \<and>
   GetProperty kernel_A 41 0 ''MODE_ID'' property_0 = Inr (- ENODEV, property_0)"
proof -
  have o: "k_object_properties kernel_A 40 0 = Some [(1, 0), (2, 7), (3, 9)]"
    by (simp add: kernel_A_def)
  have r: "descriptors_resolve kernel_A [(1, 0), (2, 7), (3, 9)]"
    by (simp add: descriptors_resolve_def kernel_A_def)
  have n: "property_names kernel_A [(1, 0), (2, 7), (3, 9)] =
             [''ACTIVE'', ''MODE_ID'', ''OUT_FENCE_PTR'']"
    by (simp add: property_names_def List.map_filter_simps kernel_A_def)
  have g: "GetProperty kernel_A 40 0 ''MODE_ID'' property_0 =
     Inr (0, DrmProperty_Init 40 \<lparr>prop_id = 2, prop_name = ''MODE_ID'', prop_flags = 0\<rparr> 7)"
    by (simp add: GetProperty_def kernel_A_def)
  have a: "GetProperty kernel_A 40 0 ''GAMMA_LUT'' property_0 = Inr (- ENOENT, property_0)"
    by (simp add: GetProperty_def kernel_A_def)
  have q: "k_object_properties kernel_A 41 0 = None"
    by (simp add: kernel_A_def)
  have f: "GetProperty kernel_A 41 0 ''MODE_ID'' property_0 = Inr (- ENODEV, property_0)"
    by (simp add: GetProperty_def kernel_A_def)
  from GetProperty_results[of kernel_A 40 0 "''MODE_ID''" property_0 property_0
        "[(1, 0), (2, 7), (3, 9)]"] o r n g a q f
  show ?thesis by simp
qed


text \<open>
  C7. The claim fails where the kernel lists a property id and \<^verbatim>\<open>drmModeGetProperty\<close>
  gives no descriptor for it: \<^verbatim>\<open>GetProperty\<close> reads \<^verbatim>\<open>p->name\<close> at line 296 without a
  test of \<^verbatim>\<open>p\<close>, although it tests \<^verbatim>\<open>props\<close> at line 287. On CRTC 40 of
  \<open>kernel_null_property\<close> the enumeration succeeds, the name \<^verbatim>\<open>MODE_ID\<close> is present exactly
  once and \<^verbatim>\<open>GAMMA_LUT\<close> is absent; the lookup of either is a null dereference, where the
  claim has the descriptor of \<^verbatim>\<open>MODE_ID\<close> with its value 7 and NotFound.
\<close>

theorem C7_GetProperty_null_descriptor:
  "k_object_properties kernel_null_property 40 0 = Some [(9, 1), (2, 7)] \<and>
   k_property kernel_null_property 9 = None \<and>
   property_names kernel_null_property [(9, 1), (2, 7)] = [''MODE_ID''] \<and>
   GetProperty kernel_null_property 40 0 ''MODE_ID'' property_0 = Inl null_dereference \<and>
   GetProperty kernel_null_property 40 0 ''GAMMA_LUT'' property_0 = Inl null_dereference"
  by (simp add: kernel_null_property_def kernel_A_def GetProperty_def property_names_def
        List.map_filter_simps)

section \<open>Property blobs\<close>

lemma calls_emit:
  "calls (emit e dev) = (if is_log e then calls dev else calls dev @ [e])"
  by (simp add: calls_def emit_def)

text \<open>
  C8. Let \<^verbatim>\<open>RegisterUserPropertyBlob\<close> return a handle and let the handle be released.
  The creation is the ioctl on the buffer with its length narrowed to 32 bits. If it
  succeeded, the handle owns the blob id and the calls issued are the creation followed
  by exactly one destroy of that id; a destroy that fails adds its log line and nothing
  else. If the creation failed the handle is empty and the release issues no call. In
  both cases the handle is empty after the release, releasing it again does nothing,
  and the device differs from the one before in its trace only: there is no error to
  return.
\<close>

theorem C8_blob_lifecycle:
  assumes "RegisterUserPropertyBlob k dev data len = (h, dev1)"
    and "blob_release k dev1 h = (h', dev2)"
  shows "(fst (k_create_blob k data (ucast len)) = 0 \<longrightarrow>
            h = Some (snd (k_create_blob k data (ucast len))) \<and>
            calls dev2 = calls dev @
              [DRM_IOCTL_MODE_CREATEPROPBLOB data (ucast len),
               DRM_IOCTL_MODE_DESTROYPROPBLOB (snd (k_create_blob k data (ucast len)))] \<and>
            trace dev2 = trace dev @
              [DRM_IOCTL_MODE_CREATEPROPBLOB data (ucast len),
               DRM_IOCTL_MODE_DESTROYPROPBLOB (snd (k_create_blob k data (ucast len)))] @
              (if k_destroy_blob k (snd (k_create_blob k data (ucast len))) \<noteq> 0
               then [ALOGE ''Failed to destroy mode property blob %u/%d''] else [])) \<and>
         (fst (k_create_blob k data (ucast len)) \<noteq> 0 \<longrightarrow>
            h = None \<and> dev2 = dev1 \<and>
            calls dev2 = calls dev @ [DRM_IOCTL_MODE_CREATEPROPBLOB data (ucast len)]) \<and>
         h' = None \<and> blob_release k dev2 h' = (None, dev2) \<and>
         dev2 = dev\<lparr>trace := trace dev2\<rparr>"
proof (cases "fst (k_create_blob k data (ucast len)) = 0")
  case True
  with assms(1) have h: "h = Some (snd (k_create_blob k data (ucast len)))"
    and d1: "dev1 = emit (DRM_IOCTL_MODE_CREATEPROPBLOB data (ucast len)) dev"
    by (simp_all add: RegisterUserPropertyBlob_def Let_def)
  from assms(2) h have h': "h' = None"
    and d2: "dev2 = blob_deleter k dev1 (snd (k_create_blob k data (ucast len)))"
    by (simp_all add: blob_release_def)
  from True h h' d1 d2 show ?thesis
    by (simp add: blob_release_def blob_deleter_def Let_def calls_def emit_def)
next
  case False
  with assms(1) have h: "h = None"
    and d1: "dev1 = emit (ALOGE ''Failed to create mode property blob %d'')
                      (emit (DRM_IOCTL_MODE_CREATEPROPBLOB data (ucast len)) dev)"
    by (simp_all add: RegisterUserPropertyBlob_def Let_def)
  from assms(2) h have h': "h' = None" and d2: "dev2 = dev1"
    by (simp_all add: blob_release_def)
  from False h h' d1 d2 show ?thesis
    by (simp add: blob_release_def calls_def emit_def)
qed

theorem C8_blob_lifecycle_witness:
  "RegisterUserPropertyBlob kernel_A DrmDevice_new 4096 16 =
     (Some 77, emit (DRM_IOCTL_MODE_CREATEPROPBLOB 4096 16) DrmDevice_new) \<and>
   blob_release kernel_A (emit (DRM_IOCTL_MODE_CREATEPROPBLOB 4096 16) DrmDevice_new) (Some 77) =
     (None, DrmDevice_new\<lparr>trace :=
        [DRM_IOCTL_MODE_CREATEPROPBLOB 4096 16, DRM_IOCTL_MODE_DESTROYPROPBLOB 77,
         ALOGE ''Failed to destroy mode property blob %u/%d'']\<rparr>) \<and>
   fst (k_create_blob kernel_A 4096 (ucast (16 :: u64))) = 0 \<and>
   calls (DrmDevice_new\<lparr>trace :=
        [DRM_IOCTL_MODE_CREATEPROPBLOB 4096 16, DRM_IOCTL_MODE_DESTROYPROPBLOB 77,
         ALOGE ''Failed to destroy mode property blob %u/%d'']\<rparr>) =
     [DRM_IOCTL_MODE_CREATEPROPBLOB 4096 16, DRM_IOCTL_MODE_DESTROYPROPBLOB 77] \<and>
   RegisterUserPropertyBlob kernel_A DrmDevice_new 4096 4294967296 =
     (None, DrmDevice_new\<lparr>trace :=
        [DRM_IOCTL_MODE_CREATEPROPBLOB 4096 0,
         ALOGE ''Failed to create mode property blob %d'']\<rparr>) \<and>
   blob_release kernel_A
     (DrmDevice_new\<lparr>trace :=
        [DRM_IOCTL_MODE_CREATEPROPBLOB 4096 0,
         ALOGE ''Failed to create mode property blob %d'']\<rparr>) None =
     (None, DrmDevice_new\<lparr>trace :=
        [DRM_IOCTL_MODE_CREATEPROPBLOB 4096 0,
         ALOGE ''Failed to create mode property blob %d'']\<rparr>) \<and>
   fst (k_create_blob kernel_A 4096 (ucast (4294967296 :: u64))) \<noteq> 0 \<and>
   calls (DrmDevice_new\<lparr>trace :=
        [DRM_IOCTL_MODE_CREATEPROPBLOB 4096 0,
         ALOGE ''Failed to create mode property blob %d'']\<rparr>) =
     [DRM_IOCTL_MODE_CREATEPROPBLOB 4096 0]"
proof -
  let ?failed = "DrmDevice_new\<lparr>trace :=
        [DRM_IOCTL_MODE_CREATEPROPBLOB 4096 0,
         ALOGE ''Failed to create mode property blob %d'']\<rparr>"
  have c: "RegisterUserPropertyBlob kernel_A DrmDevice_new 4096 16 =
     (Some 77, emit (DRM_IOCTL_MODE_CREATEPROPBLOB 4096 16) DrmDevice_new)"
    by (simp add: RegisterUserPropertyBlob_def kernel_A_def Let_def)
  have r: "blob_release kernel_A (emit (DRM_IOCTL_MODE_CREATEPROPBLOB 4096 16) DrmDevice_new)
             (Some 77) =
     (None, DrmDevice_new\<lparr>trace :=
        [DRM_IOCTL_MODE_CREATEPROPBLOB 4096 16, DRM_IOCTL_MODE_DESTROYPROPBLOB 77,
         ALOGE ''Failed to destroy mode property blob %u/%d'']\<rparr>)"
    by (simp add: blob_release_def blob_deleter_def kernel_A_def Let_def emit_def
          DrmDevice_new_def)
  have u: "(ucast (16 :: u64) :: u32) = 16" by simp
  have k: "fst (k_create_blob kernel_A 4096 (ucast (16 :: u64))) = 0"
    by (simp add: kernel_A_def)
  have s: "snd (k_create_blob kernel_A 4096 16) = 77"
    by (simp add: kernel_A_def)
  have d: "calls DrmDevice_new = []"
    by (simp add: calls_def DrmDevice_new_def)
  from C8_blob_lifecycle[OF c r] k
  have "calls (DrmDevice_new\<lparr>trace :=
        [DRM_IOCTL_MODE_CREATEPROPBLOB 4096 16, DRM_IOCTL_MODE_DESTROYPROPBLOB 77,
         ALOGE ''Failed to destroy mode property blob %u/%d'']\<rparr>) =
     calls DrmDevice_new @
       [DRM_IOCTL_MODE_CREATEPROPBLOB 4096 (ucast (16 :: u64)),
        DRM_IOCTL_MODE_DESTROYPROPBLOB (snd (k_create_blob kernel_A 4096 (ucast (16 :: u64))))]"
    by blast
  then have 1: "calls (DrmDevice_new\<lparr>trace :=
        [DRM_IOCTL_MODE_CREATEPROPBLOB 4096 16, DRM_IOCTL_MODE_DESTROYPROPBLOB 77,
         ALOGE ''Failed to destroy mode property blob %u/%d'']\<rparr>) =
     [DRM_IOCTL_MODE_CREATEPROPBLOB 4096 16, DRM_IOCTL_MODE_DESTROYPROPBLOB 77]"
    by (simp only: u s d append_Nil)
  have c0: "RegisterUserPropertyBlob kernel_A DrmDevice_new 4096 4294967296 = (None, ?failed)"
    by (simp add: RegisterUserPropertyBlob_def kernel_A_def Let_def emit_def DrmDevice_new_def)
  have r0: "blob_release kernel_A ?failed None = (None, ?failed)"
    by (simp add: blob_release_def)
  have u0: "(ucast (4294967296 :: u64) :: u32) = 0" by simp
  have k0: "fst (k_create_blob kernel_A 4096 (ucast (4294967296 :: u64))) \<noteq> 0"
    by (simp add: kernel_A_def)
  from C8_blob_lifecycle[OF c0 r0] k0
  have "calls ?failed =
     calls DrmDevice_new @ [DRM_IOCTL_MODE_CREATEPROPBLOB 4096 (ucast (4294967296 :: u64))]"
    by blast
  then have 2: "calls ?failed = [DRM_IOCTL_MODE_CREATEPROPBLOB 4096 0]"
    by (simp only: d u0 append_Nil)
  from c r k 1 c0 r0 k0 2 show ?thesis by blast
qed

section \<open>Capability negotiation\<close>

lemma calls_new: "calls DrmDevice_new = []"
  by (simp add: calls_def DrmDevice_new_def)

lemma Init_negotiate_open_failed:
  "k_open k path = None \<Longrightarrow>
   Init_negotiate k path dev0 =
     Inl ((- ENODEV, 0),
          dev0\<lparr>fd := None,
                trace := trace dev0 @ [sys_open path, ALOGE ''Failed to open dri %s: %s'']\<rparr>)"
  by (simp add: Init_negotiate_def Let_def emit_def)

lemma Init_negotiate_universal_failed:
  "k_open k path = Some f \<Longrightarrow> k_set_universal_planes k \<noteq> 0 \<Longrightarrow>
   Init_negotiate k path dev0 =
     Inl ((k_set_universal_planes k, 0),
          dev0\<lparr>fd := Some f,
                trace := trace dev0 @
                  [sys_open path, drmSetClientCap DRM_CLIENT_CAP_UNIVERSAL_PLANES,
                   ALOGE ''Failed to set universal plane cap %d'']\<rparr>)"
  by (simp add: Init_negotiate_def Let_def emit_def)

lemma Init_negotiate_atomic_failed:
  "k_open k path = Some f \<Longrightarrow> k_set_universal_planes k = 0 \<Longrightarrow> k_set_atomic k \<noteq> 0 \<Longrightarrow>
   Init_negotiate k path dev0 =
     Inl ((k_set_atomic k, 0),
          dev0\<lparr>fd := Some f,
                trace := trace dev0 @
                  [sys_open path, drmSetClientCap DRM_CLIENT_CAP_UNIVERSAL_PLANES,
                   drmSetClientCap DRM_CLIENT_CAP_ATOMIC,
                   ALOGE ''Failed to set atomic cap %d'']\<rparr>)"
  by (simp add: Init_negotiate_def Let_def emit_def)

lemma Init_negotiate_caps_set:
  "k_open k path = Some f \<Longrightarrow> k_set_universal_planes k = 0 \<Longrightarrow> k_set_atomic k = 0 \<Longrightarrow>
   Init_negotiate k path dev0 =
     (if k_is_master k = 0
      then Inl ((- EACCES, 0),
                emit (ALOGE ''DRM/KMS master access required'') (negotiated k path dev0))
      else Inr (0, negotiated k path dev0))"
  by (simp add: Init_negotiate_def Let_def emit_def negotiated_def)



lemma nothing_enumerated_negotiated: "nothing_enumerated (negotiated k path DrmDevice_new)"
  by (simp add: nothing_enumerated_def binding_maps_def negotiated_def DrmDevice_new_def)

lemma Init_negotiation_failed:
  "Init_negotiate k path dev0 = Inl returned \<Longrightarrow> Init k path n dev0 = Inr returned"
  by (simp add: Init_def Init_prepare_def)

text \<open>
  C5. On a node that opens, \<^verbatim>\<open>Init\<close> negotiates in a fixed order. A failure to set the
  universal-plane capability returns its code with display count 0 after two calls; a
  failure to set the atomic capability returns its code with count 0 after three. Once
  both are set, the writeback capability (where the headers define it) and the modifier
  probe cannot fail the negotiation: a refused writeback capability leaves a log line,
  a failed probe leaves the modifier support off. A process that is not the display
  master gets \<^verbatim>\<open>-EACCES\<close> with count 0. In every fatal case the device has only its
  descriptor, its modifier flag and its trace set: nothing is enumerated.
\<close>

theorem C5_capability_negotiation:
  assumes "k_open k path = Some f"
  shows
   "(k_set_universal_planes k \<noteq> 0 \<longrightarrow>
       Init k path n DrmDevice_new =
         Inr ((k_set_universal_planes k, 0),
              DrmDevice_new\<lparr>fd := Some f, trace :=
                [sys_open path, drmSetClientCap DRM_CLIENT_CAP_UNIVERSAL_PLANES,
                 ALOGE ''Failed to set universal plane cap %d'']\<rparr>)) \<and>
    (k_set_universal_planes k = 0 \<and> k_set_atomic k \<noteq> 0 \<longrightarrow>
       Init k path n DrmDevice_new =
         Inr ((k_set_atomic k, 0),
              DrmDevice_new\<lparr>fd := Some f, trace :=
                [sys_open path, drmSetClientCap DRM_CLIENT_CAP_UNIVERSAL_PLANES,
                 drmSetClientCap DRM_CLIENT_CAP_ATOMIC,
                 ALOGE ''Failed to set atomic cap %d'']\<rparr>)) \<and>
    (k_set_universal_planes k = 0 \<and> k_set_atomic k = 0 \<and> k_is_master k = 0 \<longrightarrow>
       Init k path n DrmDevice_new =
         Inr ((- EACCES, 0),
              emit (ALOGE ''DRM/KMS master access required'')
                (negotiated k path DrmDevice_new))) \<and>
    (k_set_universal_planes k = 0 \<and> k_set_atomic k = 0 \<and> k_is_master k \<noteq> 0 \<longrightarrow>
       Init_negotiate k path DrmDevice_new = Inr (0, negotiated k path DrmDevice_new)) \<and>
    nothing_enumerated (negotiated k path DrmDevice_new) \<and>
    calls (negotiated k path DrmDevice_new) =
      [sys_open path, drmSetClientCap DRM_CLIENT_CAP_UNIVERSAL_PLANES,
       drmSetClientCap DRM_CLIENT_CAP_ATOMIC] @
      (if k_writeback_cap_defined k
       then [drmSetClientCap DRM_CLIENT_CAP_WRITEBACK_CONNECTORS] else []) @
      [drmGetCap_ADDFB2_MODIFIERS, drmSetMaster, drmIsMaster] \<and>
    (ALOGI ''Failed to set writeback cap %d'' \<in> set (trace (negotiated k path DrmDevice_new)) \<longleftrightarrow>
       k_writeback_cap_defined k \<and> k_set_writeback_connectors k \<noteq> 0) \<and>
    HasAddFb2ModifiersSupport (negotiated k path DrmDevice_new) =
      (fst (k_get_cap_addfb2_modifiers k) = 0 \<and> snd (k_get_cap_addfb2_modifiers k) \<noteq> 0)"
proof (intro conjI impI)
  assume u: "k_set_universal_planes k \<noteq> 0"
  from Init_negotiate_universal_failed[OF assms u, of DrmDevice_new]
  show "Init k path n DrmDevice_new =
         Inr ((k_set_universal_planes k, 0),
              DrmDevice_new\<lparr>fd := Some f, trace :=
                [sys_open path, drmSetClientCap DRM_CLIENT_CAP_UNIVERSAL_PLANES,
                 ALOGE ''Failed to set universal plane cap %d'']\<rparr>)"
    by (simp add: Init_negotiation_failed DrmDevice_new_def)
next
  assume "k_set_universal_planes k = 0 \<and> k_set_atomic k \<noteq> 0"
  then have u: "k_set_universal_planes k = 0" and a: "k_set_atomic k \<noteq> 0" by simp_all
  from Init_negotiate_atomic_failed[OF assms u a, of DrmDevice_new]
  show "Init k path n DrmDevice_new =
         Inr ((k_set_atomic k, 0),
              DrmDevice_new\<lparr>fd := Some f, trace :=
                [sys_open path, drmSetClientCap DRM_CLIENT_CAP_UNIVERSAL_PLANES,
                 drmSetClientCap DRM_CLIENT_CAP_ATOMIC,
                 ALOGE ''Failed to set atomic cap %d'']\<rparr>)"
    by (simp add: Init_negotiation_failed DrmDevice_new_def)
next
  assume "k_set_universal_planes k = 0 \<and> k_set_atomic k = 0 \<and> k_is_master k = 0"
  then have u: "k_set_universal_planes k = 0" and a: "k_set_atomic k = 0"
    and m: "k_is_master k = 0" by simp_all
  from Init_negotiate_caps_set[OF assms u a, of DrmDevice_new] m
  show "Init k path n DrmDevice_new =
         Inr ((- EACCES, 0),
              emit (ALOGE ''DRM/KMS master access required'')
                (negotiated k path DrmDevice_new))"
    by (simp add: Init_negotiation_failed)
next
  assume "k_set_universal_planes k = 0 \<and> k_set_atomic k = 0 \<and> k_is_master k \<noteq> 0"
  then have u: "k_set_universal_planes k = 0" and a: "k_set_atomic k = 0"
    and m: "k_is_master k \<noteq> 0" by simp_all
  from Init_negotiate_caps_set[OF assms u a, of DrmDevice_new] m
  show "Init_negotiate k path DrmDevice_new = Inr (0, negotiated k path DrmDevice_new)"
    by simp
next
  show "nothing_enumerated (negotiated k path DrmDevice_new)"
    by (rule nothing_enumerated_negotiated)
next
  show "calls (negotiated k path DrmDevice_new) =
      [sys_open path, drmSetClientCap DRM_CLIENT_CAP_UNIVERSAL_PLANES,
       drmSetClientCap DRM_CLIENT_CAP_ATOMIC] @
      (if k_writeback_cap_defined k
       then [drmSetClientCap DRM_CLIENT_CAP_WRITEBACK_CONNECTORS] else []) @
      [drmGetCap_ADDFB2_MODIFIERS, drmSetMaster, drmIsMaster]"
    by (simp add: calls_def negotiated_def DrmDevice_new_def)
next
  show "ALOGI ''Failed to set writeback cap %d'' \<in> set (trace (negotiated k path DrmDevice_new)) \<longleftrightarrow>
       k_writeback_cap_defined k \<and> k_set_writeback_connectors k \<noteq> 0"
    by (simp add: negotiated_def DrmDevice_new_def)
next
  show "HasAddFb2ModifiersSupport (negotiated k path DrmDevice_new) =
      (fst (k_get_cap_addfb2_modifiers k) = 0 \<and> snd (k_get_cap_addfb2_modifiers k) \<noteq> 0)"
    by (simp add: negotiated_def)
qed

theorem C5_capability_negotiation_witness:
  "k_open kernel_not_master ''/dev/dri/card0'' = Some 3 \<and>
   k_set_universal_planes kernel_not_master = 0 \<and> k_set_atomic kernel_not_master = 0 \<and>
   k_is_master kernel_not_master = 0 \<and>
   Init kernel_not_master ''/dev/dri/card0'' 0 DrmDevice_new =
     Inr ((- EACCES, 0),
          emit (ALOGE ''DRM/KMS master access required'')
            (negotiated kernel_not_master ''/dev/dri/card0'' DrmDevice_new)) \<and>
   emit (ALOGE ''DRM/KMS master access required'')
     (negotiated kernel_not_master ''/dev/dri/card0'' DrmDevice_new) =
     DrmDevice_new \<lparr> fd := Some 3, trace :=
       [sys_open ''/dev/dri/card0'', drmSetClientCap DRM_CLIENT_CAP_UNIVERSAL_PLANES,
        drmSetClientCap DRM_CLIENT_CAP_ATOMIC,
        drmSetClientCap DRM_CLIENT_CAP_WRITEBACK_CONNECTORS,
        ALOGI ''Failed to set writeback cap %d'', drmGetCap_ADDFB2_MODIFIERS,
        ALOGW ''drmGetCap failed. Fallback to no modifier support.'',
        drmSetMaster, drmIsMaster, ALOGE ''DRM/KMS master access required''] \<rparr>"
proof -
  have o: "k_open kernel_not_master ''/dev/dri/card0'' = Some 3"
    by (simp add: kernel_not_master_def kernel_A_def)
  have u: "k_set_universal_planes kernel_not_master = 0"
    by (simp add: kernel_not_master_def kernel_A_def)
  have a: "k_set_atomic kernel_not_master = 0"
    by (simp add: kernel_not_master_def kernel_A_def)
  have m: "k_is_master kernel_not_master = 0"
    by (simp add: kernel_not_master_def kernel_A_def)
  have d: "emit (ALOGE ''DRM/KMS master access required'')
     (negotiated kernel_not_master ''/dev/dri/card0'' DrmDevice_new) =
     DrmDevice_new \<lparr> fd := Some 3, trace :=
       [sys_open ''/dev/dri/card0'', drmSetClientCap DRM_CLIENT_CAP_UNIVERSAL_PLANES,
        drmSetClientCap DRM_CLIENT_CAP_ATOMIC,
        drmSetClientCap DRM_CLIENT_CAP_WRITEBACK_CONNECTORS,
        ALOGI ''Failed to set writeback cap %d'', drmGetCap_ADDFB2_MODIFIERS,
        ALOGW ''drmGetCap failed. Fallback to no modifier support.'',
        drmSetMaster, drmIsMaster, ALOGE ''DRM/KMS master access required''] \<rparr>"
    by (simp add: negotiated_def emit_def kernel_not_master_def kernel_A_def DrmDevice_new_def)
  from C5_capability_negotiation[OF o, of 0] u a m
  have "Init kernel_not_master ''/dev/dri/card0'' 0 DrmDevice_new =
     Inr ((- EACCES, 0),
          emit (ALOGE ''DRM/KMS master access required'')
            (negotiated kernel_not_master ''/dev/dri/card0'' DrmDevice_new))"
    by blast
  with o u a m d show ?thesis by blast
qed


section \<open>Invariants of \<^verbatim>\<open>Init\<close>\<close>

lemma values_update: "snd ` set (AList.update k v al) \<subseteq> insert v (snd ` set al)"
  by (induction al) auto

lemma keys_update: "fst ` set (AList.update k v al) = insert k (fst ` set al)"
  by (simp add: AList.dom_update)

lemma map_of_keys: "map_of al k = Some v \<Longrightarrow> k \<in> fst ` set al"
  by (metis domI dom_map_of_conv_image_fst)

lemma map_of_values: "map_of al k = Some v \<Longrightarrow> v \<in> snd ` set al"
  by (metis image_eqI map_of_SomeD snd_conv)

lemma map_of_None_keys: "map_of al k = None \<longleftrightarrow> k \<notin> fst ` set al"
  by (simp add: map_of_eq_None_iff)

lemma connectors_wf_emit [simp]: "connectors_wf (emit e dev) = connectors_wf dev"
  by (simp add: connectors_wf_def emit_def)

lemma pipelines_wf_emit [simp]: "pipelines_wf (emit e dev) = pipelines_wf dev"
  by (simp add: pipelines_wf_def emit_def)

lemma connectors_wf_new: "connectors_wf DrmDevice_new"
  by (simp add: connectors_wf_def DrmDevice_new_def)

lemma pipelines_wf_new: "pipelines_wf DrmDevice_new"
  by (simp add: pipelines_wf_def DrmDevice_new_def)

lemma add_displays_loop_wf:
  "add_displays_loop i c cs (dev, n) = (dev', n') \<Longrightarrow> set cs \<subseteq> S \<Longrightarrow>
   snd ` set (bound_connectors dev) \<subseteq> S \<Longrightarrow>
   fst ` set (connectors_to_display_id dev) \<subseteq> S \<Longrightarrow>
   snd ` set (connectors_to_display_id dev) \<subseteq> fst ` set (bound_connectors dev) \<Longrightarrow>
     snd ` set (bound_connectors dev') \<subseteq> S \<and>
     fst ` set (connectors_to_display_id dev') \<subseteq> S \<and>
     snd ` set (connectors_to_display_id dev') \<subseteq> fst ` set (bound_connectors dev') \<and>
     fst ` set (bound_connectors dev) \<subseteq> fst ` set (bound_connectors dev')"
proof (induction cs arbitrary: dev n)
  case Nil
  then show ?case by simp
next
  case (Cons conn cs)
  from Cons.prems(2) have cs: "set cs \<subseteq> S" and cn: "conn \<in> S" by simp_all
  show ?case
  proof (cases "in_class i c conn")
    case False
    with Cons.prems(1) have "add_displays_loop i c cs (dev, n) = (dev', n')"
      by (simp add: add_displays_loop_Cons del: add_displays_loop.simps)
    from Cons.IH[OF this cs Cons.prems(3,4,5)] show ?thesis .
  next
    case True
    define bc where "bc = AList.update n conn (bound_connectors dev)"
    define cd where "cd = AList.update conn n (connectors_to_display_id dev)"
    define d where "d = dev\<lparr> bound_connectors := bc, connectors_to_display_id := cd \<rparr>"
    from True Cons.prems(1) have l: "add_displays_loop i c cs (d, n + 1) = (dev', n')"
      by (simp add: add_displays_loop_Cons d_def bc_def cd_def del: add_displays_loop.simps)
    have kb: "fst ` set bc = insert n (fst ` set (bound_connectors dev))"
      by (simp add: bc_def keys_update)
    have kc: "fst ` set cd = insert conn (fst ` set (connectors_to_display_id dev))"
      by (simp add: cd_def keys_update)
    have vb: "snd ` set bc \<subseteq> insert conn (snd ` set (bound_connectors dev))"
      unfolding bc_def by (rule values_update)
    have vc: "snd ` set cd \<subseteq> insert n (snd ` set (connectors_to_display_id dev))"
      unfolding cd_def by (rule values_update)
    have 1: "snd ` set (bound_connectors d) \<subseteq> S"
      using vb Cons.prems(3) cn unfolding d_def by (simp, blast)
    have 2: "fst ` set (connectors_to_display_id d) \<subseteq> S"
      using kc Cons.prems(4) cn unfolding d_def by simp
    have 3: "snd ` set (connectors_to_display_id d) \<subseteq> fst ` set (bound_connectors d)"
      using vc kb Cons.prems(5) unfolding d_def by (simp, blast)
    have 4: "fst ` set (bound_connectors dev) \<subseteq> fst ` set (bound_connectors d)"
      using kb unfolding d_def by (simp, blast)
    from Cons.IH[OF l cs 1 2 3] 4 show ?thesis by (meson order_trans)
  qed
qed

lemma add_displays_wf:
  assumes a: "add_displays i c (dev, n) = (dev', n')"
    and w: "connectors_wf dev" and p: "pipelines_wf dev"
  shows "connectors_wf dev' \<and> pipelines_wf dev' \<and>
         connectors dev' = connectors dev \<and> writeback_connectors dev' = writeback_connectors dev \<and>
         encoders dev' = encoders dev \<and> crtcs dev' = crtcs dev"
proof -
  from a have l: "add_displays_loop i c (connectors dev) (dev, n) = (dev', n')"
    by (simp add: add_displays_def)
  from add_displays_loop_frame[OF l]
  have f: "dev' = dev\<lparr> bound_connectors := bound_connectors dev',
                 connectors_to_display_id := connectors_to_display_id dev' \<rparr>" .
  have fr: "connectors dev' = connectors dev" "writeback_connectors dev' = writeback_connectors dev"
    "encoders dev' = encoders dev" "crtcs dev' = crtcs dev"
    "bound_crtcs dev' = bound_crtcs dev" "encoders_to_display_id dev' = encoders_to_display_id dev"
    by (subst f, simp)+
  from w have "snd ` set (bound_connectors dev) \<subseteq> set (connectors dev)"
    "fst ` set (connectors_to_display_id dev) \<subseteq> set (connectors dev)"
    "snd ` set (connectors_to_display_id dev) \<subseteq> fst ` set (bound_connectors dev)"
    by (simp_all add: connectors_wf_def)
  from add_displays_loop_wf[OF l subset_refl this]
  have r: "snd ` set (bound_connectors dev') \<subseteq> set (connectors dev)"
     "fst ` set (connectors_to_display_id dev') \<subseteq> set (connectors dev)"
     "snd ` set (connectors_to_display_id dev') \<subseteq> fst ` set (bound_connectors dev')"
     "fst ` set (bound_connectors dev) \<subseteq> fst ` set (bound_connectors dev')"
    by simp_all
  from w r fr have "connectors_wf dev'" by (simp add: connectors_wf_def)
  moreover from p r(4) have "pipelines_wf dev'"
    unfolding pipelines_wf_def fr by (meson order_trans)
  ultimately show ?thesis using fr by simp
qed

lemma Init_add_displays_wf:
  assumes a: "Init_add_displays (dev, n) = (dev', n')"
    and w: "connectors_wf dev" and p: "pipelines_wf dev"
  shows "connectors_wf dev' \<and> pipelines_wf dev' \<and>
         connectors dev' = connectors dev \<and> writeback_connectors dev' = writeback_connectors dev \<and>
         encoders dev' = encoders dev \<and> crtcs dev' = crtcs dev"
proof -
  obtain d1 n1 where s1: "add_displays True True (dev, n) = (d1, n1)" by force
  obtain d2 n2 where s2: "add_displays False True (d1, n1) = (d2, n2)" by force
  obtain d3 n3 where s3: "add_displays True False (d2, n2) = (d3, n3)" by force
  from a s1 s2 s3 have s4: "add_displays False False (d3, n3) = (dev', n')"
    by (simp add: Init_add_displays_def)
  note r1 = add_displays_wf[OF s1 w p]
  note r2 = add_displays_wf[OF s2 r1[THEN conjunct1] r1[THEN conjunct2, THEN conjunct1]]
  note r3 = add_displays_wf[OF s3 r2[THEN conjunct1] r2[THEN conjunct2, THEN conjunct1]]
  note r4 = add_displays_wf[OF s4 r3[THEN conjunct1] r3[THEN conjunct2, THEN conjunct1]]
  from r1 r2 r3 r4 show ?thesis by simp
qed

lemma Init_enumerate_wf:
  "connectors_wf dev \<Longrightarrow> connectors_wf (Init_enumerate k res dev)"
  by (auto simp: connectors_wf_def Init_enumerate_def Let_def list_all_iff)

lemma Init_enumerate_pipelines_wf:
  "pipelines_wf dev \<Longrightarrow> pipelines_wf (Init_enumerate k res dev)"
  by (simp add: pipelines_wf_def Init_enumerate_def Let_def)

lemma Init_negotiate_frame:
  assumes "Init_negotiate k path dev0 = Inl (r, dev) \<or> Init_negotiate k path dev0 = Inr (ret, dev)"
  shows "\<exists>f h t. dev = dev0\<lparr>fd := f, HasAddFb2ModifiersSupport := h, trace := t\<rparr>"
proof (cases "k_open k path")
  case None
  from assms Init_negotiate_open_failed[OF None, of dev0]
  have "dev = dev0\<lparr>fd := None, HasAddFb2ModifiersSupport := HasAddFb2ModifiersSupport dev0,
          trace := trace dev0 @ [sys_open path, ALOGE ''Failed to open dri %s: %s'']\<rparr>"
    by (elim disjE) simp_all
  then show ?thesis by blast
next
  case (Some f)
  show ?thesis
  proof (cases "k_set_universal_planes k = 0")
    case False
    from assms Init_negotiate_universal_failed[OF Some False, of dev0]
    have "dev = dev0\<lparr>fd := Some f, HasAddFb2ModifiersSupport := HasAddFb2ModifiersSupport dev0,
          trace := trace dev0 @
                  [sys_open path, drmSetClientCap DRM_CLIENT_CAP_UNIVERSAL_PLANES,
                   ALOGE ''Failed to set universal plane cap %d'']\<rparr>"
      by (elim disjE) simp_all
    then show ?thesis by blast
  next
    case u: True
    show ?thesis
    proof (cases "k_set_atomic k = 0")
      case False
      from assms Init_negotiate_atomic_failed[OF Some u False, of dev0]
      have "dev = dev0\<lparr>fd := Some f, HasAddFb2ModifiersSupport := HasAddFb2ModifiersSupport dev0,
          trace := trace dev0 @
                  [sys_open path, drmSetClientCap DRM_CLIENT_CAP_UNIVERSAL_PLANES,
                   drmSetClientCap DRM_CLIENT_CAP_ATOMIC,
                   ALOGE ''Failed to set atomic cap %d'']\<rparr>"
        by (elim disjE) simp_all
      then show ?thesis by blast
    next
      case True
      have n: "\<exists>f h t. negotiated k path dev0 = dev0\<lparr>fd := f, HasAddFb2ModifiersSupport := h, trace := t\<rparr>"
        unfolding negotiated_def by blast
      then obtain f h t where n: "negotiated k path dev0 = dev0\<lparr>fd := f, HasAddFb2ModifiersSupport := h, trace := t\<rparr>"
        by blast
      show ?thesis
      proof (cases "k_is_master k = 0")
        case True
        from assms Init_negotiate_caps_set[OF Some u \<open>k_set_atomic k = 0\<close>, of dev0] True
        have "dev = emit (ALOGE ''DRM/KMS master access required'') (negotiated k path dev0)"
          by (elim disjE) simp_all
        with n have "dev = dev0\<lparr>fd := f, HasAddFb2ModifiersSupport := h,
            trace := t @ [ALOGE ''DRM/KMS master access required'']\<rparr>"
          by (simp add: emit_def)
        then show ?thesis by blast
      next
        case False
        from assms Init_negotiate_caps_set[OF Some u \<open>k_set_atomic k = 0\<close>, of dev0] False
        have "dev = negotiated k path dev0"
          by (elim disjE) simp_all
        with n show ?thesis by blast
      qed
    qed
  qed
qed

lemma Init_negotiate_ret:
  assumes "Init_negotiate k path dev0 = Inr (ret, dev)"
  shows "ret = 0"
  using assms
  by (simp add: Init_negotiate_def Let_def split: if_splits prod.splits)

lemma Init_negotiate_wf:
  assumes "Init_negotiate k path dev0 = Inl (r, dev) \<or> Init_negotiate k path dev0 = Inr (ret, dev)"
  shows "connectors_wf dev = connectors_wf dev0 \<and> pipelines_wf dev = pipelines_wf dev0 \<and>
         connectors dev = connectors dev0 \<and> writeback_connectors dev = writeback_connectors dev0 \<and>
         bound_connectors dev = bound_connectors dev0"
proof -
  from Init_negotiate_frame[OF assms] obtain f h t where
    "dev = dev0\<lparr>fd := f, HasAddFb2ModifiersSupport := h, trace := t\<rparr>" by blast
  then show ?thesis by (simp add: connectors_wf_def pipelines_wf_def)
qed

lemma connectors_wf_planes [simp]: "connectors_wf (dev\<lparr>planes := p\<rparr>) = connectors_wf dev"
  by (simp add: connectors_wf_def)

lemma pipelines_wf_planes [simp]: "pipelines_wf (dev\<lparr>planes := p\<rparr>) = pipelines_wf dev"
  by (simp add: pipelines_wf_def)

lemma Init_prepare_cases:
  assumes "Init_prepare k path n dev0 = X"
  obtains
    (negotiation) r dev where "Init_negotiate k path dev0 = Inl (r, dev)" "X = Inl (r, dev)"
  | (no_resources) d1 where "Init_negotiate k path dev0 = Inr (0, d1)" "k_resources k = None"
      "X = Inl ((- ENODEV, 0),
                emit (ALOGE ''Failed to get DrmDevice resources'') (emit drmModeGetResources d1))"
  | (no_planes) d1 res d3 n3 where "Init_negotiate k path dev0 = Inr (0, d1)"
      "k_resources k = Some res"
      "Init_add_displays (Init_enumerate k res (emit drmModeGetResources d1), n) = (d3, n3)"
      "k_plane_resources k = None"
      "X = Inl ((- ENOENT, 0),
                emit (ALOGE ''Failed to get plane resources'') (emit drmModeGetPlaneResources d3))"
  | (prepared) d1 res d3 n3 plane_res where "Init_negotiate k path dev0 = Inr (0, d1)"
      "k_resources k = Some res"
      "Init_add_displays (Init_enumerate k res (emit drmModeGetResources d1), n) = (d3, n3)"
      "k_plane_resources k = Some plane_res"
      "X = Inr (0, (emit drmModeGetPlaneResources d3)
                     \<lparr>planes := planes d3 @ filter (k_plane k) plane_res\<rparr>)"
proof (cases "Init_negotiate k path dev0")
  case (Inl a)
  obtain r dev where a: "a = (r, dev)" by (cases a) auto
  with Inl assms have "X = Inl (r, dev)" by (simp add: Init_prepare_def)
  with Inl a negotiation show ?thesis by simp
next
  case (Inr b)
  obtain ret d1 where b: "b = (ret, d1)" by (cases b) auto
  with Inr Init_negotiate_ret[of k path dev0 ret d1] have neg: "Init_negotiate k path dev0 = Inr (0, d1)"
    by simp
  show ?thesis
  proof (cases "k_resources k")
    case None
    with neg assms have "X = Inl ((- ENODEV, 0),
                emit (ALOGE ''Failed to get DrmDevice resources'') (emit drmModeGetResources d1))"
      by (simp add: Init_prepare_def)
    with neg None no_resources show ?thesis by simp
  next
    case (Some res)
    obtain d3 n3 where a: "Init_add_displays (Init_enumerate k res (emit drmModeGetResources d1), n) = (d3, n3)"
      by force
    show ?thesis
    proof (cases "k_plane_resources k")
      case None
      with neg Some a assms have "X = Inl ((- ENOENT, 0),
                emit (ALOGE ''Failed to get plane resources'') (emit drmModeGetPlaneResources d3))"
        by (simp add: Init_prepare_def Let_def)
      with neg Some a None no_planes show ?thesis by simp
    next
      case (Some plane_res)
      with neg \<open>k_resources k = Some res\<close> a assms
      have "X = Inr (0, (emit drmModeGetPlaneResources d3)
                     \<lparr>planes := planes d3 @ filter (k_plane k) plane_res\<rparr>)"
        by (simp add: Init_prepare_def Let_def)
      with neg \<open>k_resources k = Some res\<close> a Some prepared show ?thesis by simp
    qed
  qed
qed

lemma prepared_state_emit [simp]: "prepared_state n (emit e dev) = prepared_state n dev"
  by (simp add: prepared_state_def) (simp add: emit_def)

lemma prepared_state_planes [simp]: "prepared_state n (dev\<lparr>planes := p\<rparr>) = prepared_state n dev"
  by (simp add: prepared_state_def)

lemma prepared_state_new: "prepared_state n DrmDevice_new"
  by (simp add: prepared_state_def connectors_wf_new pipelines_wf_new)
     (simp add: DrmDevice_new_def priority_order_def)

lemma prepared_state_negotiated:
  assumes "Init_negotiate k path DrmDevice_new = Inl (r, dev) \<or>
           Init_negotiate k path DrmDevice_new = Inr (ret, dev)"
  shows "prepared_state n dev" and "bound_connectors dev = []" and "connectors dev = []"
    and "writeback_connectors dev = []"
proof -
  from Init_negotiate_wf[OF assms] prepared_state_new[of n]
  show "prepared_state n dev"
    by (simp add: prepared_state_def)
  from Init_negotiate_wf[OF assms] show "bound_connectors dev = []" "connectors dev = []"
    "writeback_connectors dev = []"
    by (simp_all add: DrmDevice_new_def)
qed

lemma prepared_state_allocated:
  assumes neg: "Init_negotiate k path DrmDevice_new = Inr (0, d1)"
    and a: "Init_add_displays (Init_enumerate k res (emit drmModeGetResources d1), n) = (d3, n3)"
  shows "prepared_state n d3"
    and "connectors d3 =
           filter (\<lambda>c. \<not> IsWriteback c) (create_all (DrmConnector_CreateInstance k) (res_connectors res))"
    and "writeback_connectors d3 =
           filter IsWriteback (create_all (DrmConnector_CreateInstance k) (res_connectors res))"
proof -
  let ?d2 = "Init_enumerate k res (emit drmModeGetResources d1)"
  note p1 = prepared_state_negotiated[OF disjI2[OF neg]]
  from p1(1)[of n] have w1: "connectors_wf d1" "pipelines_wf d1" by (simp_all add: prepared_state_def)
  have w2: "connectors_wf ?d2" "pipelines_wf ?d2"
    using w1 by (simp_all add: Init_enumerate_wf Init_enumerate_pipelines_wf)
  have b2: "bound_connectors ?d2 = []"
    using p1(2) by (simp add: Init_enumerate_def Let_def emit_def)
  have c2: "connectors ?d2 =
           filter (\<lambda>c. \<not> IsWriteback c) (create_all (DrmConnector_CreateInstance k) (res_connectors res))"
    using p1(3) by (simp add: Init_enumerate_def Let_def emit_def)
  have wb2: "writeback_connectors ?d2 =
           filter IsWriteback (create_all (DrmConnector_CreateInstance k) (res_connectors res))"
    using p1(4) by (simp add: Init_enumerate_def Let_def emit_def)
  note w3 = Init_add_displays_wf[OF a w2]
  have j3: "bound_connectors d3 = sequential_ids n (priority_order (connectors d3))"
    if "length (connectors d3) < 2 ^ 31"
  proof -
    from w3 have c: "connectors d3 = connectors ?d2" by simp
    from that c have "length (connectors ?d2) < 2 ^ 31" by simp
    then have "length (priority_order (connectors ?d2)) \<le> 2 ^ 32"
      by (rule priority_order_fits)
    from Init_add_displays_bound(1)[OF b2 a this] c show ?thesis by simp
  qed
  from w3 j3 show "prepared_state n d3" by (simp add: prepared_state_def)
  from w3 c2 show "connectors d3 =
           filter (\<lambda>c. \<not> IsWriteback c) (create_all (DrmConnector_CreateInstance k) (res_connectors res))"
    by simp
  from w3 wb2 show "writeback_connectors d3 =
           filter IsWriteback (create_all (DrmConnector_CreateInstance k) (res_connectors res))"
    by simp
qed

lemma Init_prepare_state:
  assumes "Init_prepare k path n DrmDevice_new = Inl (r, dev) \<or>
           Init_prepare k path n DrmDevice_new = Inr (ret, dev)"
  shows "prepared_state n dev"
proof -
  from assms obtain X where X: "Init_prepare k path n DrmDevice_new = X"
    and d: "X = Inl (r, dev) \<or> X = Inr (ret, dev)" by blast
  from X show ?thesis
  proof (cases rule: Init_prepare_cases)
    case (negotiation r' dev')
    with d have "Init_negotiate k path DrmDevice_new = Inl (r, dev)" by auto
    from prepared_state_negotiated(1)[OF disjI1[OF this]] show ?thesis .
  next
    case (no_resources d1)
    from prepared_state_negotiated(1)[OF disjI2[OF no_resources(1)], of n] no_resources(3) d
    show ?thesis by auto
  next
    case (no_planes d1 res d3 n3)
    from prepared_state_allocated(1)[OF no_planes(1) no_planes(3)] no_planes(5) d
    show ?thesis by auto
  next
    case (prepared d1 res d3 n3 plane_res)
    from prepared_state_allocated(1)[OF prepared(1) prepared(3)] prepared(5) d
    show ?thesis by auto
  qed
qed

lemma Init_prepare_returned:
  assumes "Init_prepare k path n DrmDevice_new = Inl ((r, c), dev)"
  shows "r \<noteq> 0 \<and> c = 0"
  using assms
proof (cases rule: Init_prepare_cases)
  case (negotiation r' dev')
  then have "Init_negotiate k path DrmDevice_new = Inl ((r, c), dev)" by simp
  then show ?thesis
    by (simp add: Init_negotiate_def Let_def ENODEV_def EACCES_def split: if_splits prod.splits)
qed (simp_all add: ENODEV_def ENOENT_def)

lemma Init_prepare_Inr:
  assumes "Init_prepare k path n DrmDevice_new = Inr (ret, dev)"
  shows "ret = 0 \<and> (\<exists>res. k_resources k = Some res \<and>
      connectors dev =
        filter (\<lambda>c. \<not> IsWriteback c) (create_all (DrmConnector_CreateInstance k) (res_connectors res)) \<and>
      writeback_connectors dev =
        filter IsWriteback (create_all (DrmConnector_CreateInstance k) (res_connectors res)))"
  using assms
proof (cases rule: Init_prepare_cases)
  case (prepared d1 res d3 n3 plane_res)
  from prepared_state_allocated(2,3)[OF prepared(1) prepared(3)] prepared(2,5)
  show ?thesis by (simp add: emit_def)
qed simp_all

lemma CreateDisplayPipe_frame:
  assumes "CreateDisplayPipe dev conn = Inr (ret, dev')"
  shows "connectors dev' = connectors dev" "writeback_connectors dev' = writeback_connectors dev"
    "encoders dev' = encoders dev" "crtcs dev' = crtcs dev"
    "bound_connectors dev' = bound_connectors dev"
    "connectors_to_display_id dev' = connectors_to_display_id dev"
    "ret = 0 \<or> ret = - ENODEV"
  using CreateDisplayPipe_cases[OF assms]
  by (auto simp: emit_def bind_pipeline_def)

lemma connectors_wf_frame:
  "connectors dev' = connectors dev \<Longrightarrow> writeback_connectors dev' = writeback_connectors dev \<Longrightarrow>
   bound_connectors dev' = bound_connectors dev \<Longrightarrow>
   connectors_to_display_id dev' = connectors_to_display_id dev \<Longrightarrow>
   connectors_wf dev' = connectors_wf dev"
  by (simp add: connectors_wf_def)

lemma CreateDisplayPipe_wf:
  assumes c: "CreateDisplayPipe dev conn = Inr (ret, dev')"
    and w: "connectors_wf dev" and p: "pipelines_wf dev"
  shows "connectors_wf dev'" and "pipelines_wf dev'"
proof -
  note f = CreateDisplayPipe_frame[OF c]
  from w connectors_wf_frame[OF f(1,2,5,6)] show "connectors_wf dev'" by simp
  from CreateDisplayPipe_cases[OF c] obtain display where
    d: "map_of (connectors_to_display_id dev) conn = Some display"
    and r: "(ret = - ENODEV \<and>
       dev' = emit (ALOGE ''Could not find a suitable encoder/crtc for display %d'') dev) \<or>
      (ret = 0 \<and> (\<exists>enc crtc. enc \<in> set (encoders dev) \<and> crtc \<in> set (crtcs dev) \<and>
          map_of (encoders_to_display_id dev) enc = None \<and>
          dev' = bind_pipeline dev display crtc enc))"
    by blast
  from d w have k: "display \<in> fst ` set (bound_connectors dev)"
    unfolding connectors_wf_def using map_of_values[OF d] by blast
  from r show "pipelines_wf dev'"
  proof
    assume "ret = - ENODEV \<and>
       dev' = emit (ALOGE ''Could not find a suitable encoder/crtc for display %d'') dev"
    with p show ?thesis by simp
  next
    assume "ret = 0 \<and> (\<exists>enc crtc. enc \<in> set (encoders dev) \<and> crtc \<in> set (crtcs dev) \<and>
          map_of (encoders_to_display_id dev) enc = None \<and>
          dev' = bind_pipeline dev display crtc enc)"
    then obtain enc crtc where b: "dev' = bind_pipeline dev display crtc enc" by blast
    have 1: "fst ` set (bound_crtcs dev') = insert display (fst ` set (bound_crtcs dev))"
      by (simp add: b bind_pipeline_def keys_update)
    have 2: "snd ` set (encoders_to_display_id dev') \<subseteq>
               insert display (snd ` set (encoders_to_display_id dev))"
      using values_update[of enc display "encoders_to_display_id dev"]
      by (simp add: b bind_pipeline_def)
    have 3: "bound_connectors dev' = bound_connectors dev"
      by (simp add: b bind_pipeline_def)
    from p k 1 2 show ?thesis
      unfolding pipelines_wf_def 3 by blast
  qed
qed

lemma Init_pipes_wf:
  "Init_pipes ret dev cs = Inr (r, dev') \<Longrightarrow> connectors_wf dev \<Longrightarrow> pipelines_wf dev \<Longrightarrow>
     connectors_wf dev' \<and> pipelines_wf dev' \<and>
     connectors dev' = connectors dev \<and> writeback_connectors dev' = writeback_connectors dev \<and>
     bound_connectors dev' = bound_connectors dev \<and>
     connectors_to_display_id dev' = connectors_to_display_id dev"
proof (induction cs arbitrary: ret dev)
  case Nil
  then show ?case by simp
next
  case (Cons conn cs)
  from Cons.prems(1) obtain ret1 dev1 where c: "CreateDisplayPipe dev conn = Inr (ret1, dev1)"
    by (cases "CreateDisplayPipe dev conn") auto
  note f = CreateDisplayPipe_frame[OF c]
  note w = CreateDisplayPipe_wf[OF c Cons.prems(2,3)]
  show ?case
  proof (cases "ret1 = 0")
    case True
    with c Cons.prems(1) have "Init_pipes ret1 dev1 cs = Inr (r, dev')" by simp
    from Cons.IH[OF this w] f show ?thesis by simp
  next
    case False
    with c Cons.prems(1) have "dev' = emit (ALOGE ''Failed CreateDisplayPipe %d with %d'') dev1"
      by auto
    with w have "connectors_wf dev'" "pipelines_wf dev'" by simp_all
    moreover from \<open>dev' = emit (ALOGE ''Failed CreateDisplayPipe %d with %d'') dev1\<close> f
    have "connectors dev' = connectors dev" "writeback_connectors dev' = writeback_connectors dev"
      "bound_connectors dev' = bound_connectors dev"
      "connectors_to_display_id dev' = connectors_to_display_id dev"
      by (simp_all add: emit_def)
    ultimately show ?thesis by simp
  qed
qed

lemma Init_pipes_result:
  "Init_pipes 0 dev cs = Inr ((ret, cnt), dev') \<Longrightarrow>
     (ret = 0 \<and> cnt = sint (of_nat (map_size (bound_connectors dev')) :: cint)) \<or>
     (ret = - ENODEV \<and> cnt = 0)"
proof (induction cs arbitrary: dev)
  case Nil
  then show ?case by auto
next
  case (Cons conn cs)
  from Cons.prems(1) obtain ret1 dev1 where c: "CreateDisplayPipe dev conn = Inr (ret1, dev1)"
    by (cases "CreateDisplayPipe dev conn") auto
  note f = CreateDisplayPipe_frame(7)[OF c]
  show ?case
  proof (cases "ret1 = 0")
    case True
    with c Cons.prems(1) have "Init_pipes 0 dev1 cs = Inr ((ret, cnt), dev')" by simp
    from Cons.IH[OF this] show ?thesis .
  next
    case False
    with c Cons.prems(1) f show ?thesis by auto
  qed
qed

lemma Init_state:
  assumes "Init k path n DrmDevice_new = Inr (r, dev)"
  shows "prepared_state n dev"
proof (cases "Init_prepare k path n DrmDevice_new")
  case (Inl a)
  with assms have "Init_prepare k path n DrmDevice_new = Inl (r, dev)"
    by (simp add: Init_def)
  from Init_prepare_state[OF disjI1[OF this]] show ?thesis .
next
  case (Inr b)
  obtain ret0 dev0 where b: "b = (ret0, dev0)" by (cases b) auto
  with Inr have p: "Init_prepare k path n DrmDevice_new = Inr (ret0, dev0)" by simp
  from Init_prepare_state[OF disjI2[OF p]] have s: "prepared_state n dev0" .
  from p assms have "Init_pipes ret0 dev0 (connectors dev0) = Inr (r, dev)"
    by (simp add: Init_def)
  from Init_pipes_wf[OF this] s show ?thesis
    by (simp add: prepared_state_def)
qed


text \<open>
  The display ids that \<^verbatim>\<open>Init\<close> leaves in \<^verbatim>\<open>bound_connectors_\<close> follow the priority order,
  whatever \<^verbatim>\<open>Init\<close> returned.
\<close>

lemma Init_display_ids_by_priority:
  assumes "Init k path n DrmDevice_new = Inr (r, dev)"
    and "length (connectors dev) < 2 ^ 31"
  shows "bound_connectors dev = sequential_ids n (priority_order (connectors dev))"
  using Init_state[OF assms(1)] assms(2) by (simp add: prepared_state_def)

text \<open>Objects created by a factory that stores the index are pairwise different.\<close>

lemma map_filter_enumerate_index:
  assumes "\<And>ident i x. f ident i = Some x \<Longrightarrow> idx x = i"
  shows "distinct (map idx (List.map_filter (\<lambda>(i, ident). f ident i) (enumerate n ids))) \<and>
         (\<forall>x \<in> set (List.map_filter (\<lambda>(i, ident). f ident i) (enumerate n ids)). n \<le> idx x)"
proof (induction ids arbitrary: n)
  case Nil
  show ?case by (simp add: List.map_filter_simps)
next
  case (Cons ident ids)
  note ih = Cons.IH[of "Suc n"]
  show ?case
  proof (cases "f ident n")
    case None
    with ih show ?thesis by (auto simp: List.map_filter_simps)
  next
    case (Some x)
    with assms have "idx x = n" by simp
    with Some ih show ?thesis by (fastforce simp: List.map_filter_simps)
  qed
qed

lemma create_all_distinct:
  assumes "\<And>ident i x. f ident i = Some x \<Longrightarrow> idx x = i"
  shows "distinct (create_all f ids)"
proof -
  from map_filter_enumerate_index[of f idx 0 ids, OF assms]
  have "distinct (map idx (create_all f ids))" by (simp add: create_all_def)
  then show ?thesis by (rule distinct_map[THEN iffD1, THEN conjunct1])
qed

lemma created_objects_distinct:
  "distinct (create_all (DrmCrtc_CreateInstance k) ids)"
  "distinct (create_all (DrmEncoder_CreateInstance k) ids)"
  "distinct (create_all (DrmConnector_CreateInstance k) ids)"
proof -
  show "distinct (create_all (DrmCrtc_CreateInstance k) ids)"
    by (rule create_all_distinct[where idx = crtc_index])
       (auto simp: DrmCrtc_CreateInstance_def split: if_splits)
  show "distinct (create_all (DrmEncoder_CreateInstance k) ids)"
    by (rule create_all_distinct[where idx = enc_index])
       (auto simp: DrmEncoder_CreateInstance_def split: option.splits)
  show "distinct (create_all (DrmConnector_CreateInstance k) ids)"
    by (rule create_all_distinct[where idx = conn_index])
       (auto simp: DrmConnector_CreateInstance_def split: option.splits)
qed

text \<open>
  The encoder and connector bindings are injective in every device that \<^verbatim>\<open>Init\<close> leaves
  with fewer than \<open>2 ^ 31\<close> connectors (the kernel counts them in an \<^verbatim>\<open>int\<close>, and each
  gets at most two of the \<open>2 ^ 32\<close> display ids): no encoder and no display id occurs
  twice in \<^verbatim>\<open>encoders_to_display_id_\<close>, no display id twice in \<^verbatim>\<open>bound_connectors_\<close>. And
  when \<^verbatim>\<open>Init\<close> calls \<^verbatim>\<open>CreateDisplayPipe\<close> for a connector, its display has no CRTC.
\<close>

lemma update_distinct_values:
  "distinct (map snd al) \<Longrightarrow> v \<notin> snd ` set al \<Longrightarrow> distinct (map snd (AList.update k v al))"
proof (induction al)
  case Nil
  then show ?case by simp
next
  case (Cons p ps)
  show ?case
  proof (cases "fst p = k")
    case True
    with Cons.prems show ?thesis by (auto simp: image_iff)
  next
    case False
    from Cons.prems have d: "distinct (map snd ps)" and v: "v \<notin> snd ` set ps"
      and pv: "snd p \<noteq> v" and pn: "snd p \<notin> snd ` set ps"
      by (auto simp: image_iff)
    from values_update[of k v ps] pv pn have "snd p \<notin> snd ` set (AList.update k v ps)"
      by blast
    with False Cons.IH[OF d v] show ?thesis by (simp add: image_iff)
  qed
qed

lemma map_of_distinct_values:
  "distinct (map snd al) \<Longrightarrow> map_of al k = Some v \<Longrightarrow> map_of al k' = Some v \<Longrightarrow> k = k'"
proof (induction al)
  case Nil
  then show ?case by simp
next
  case (Cons p ps)
  obtain a b where p: "p = (a, b)" by (cases p) auto
  from Cons.prems(1) p have d: "distinct (map snd ps)" and b: "b \<notin> snd ` set ps"
    by (auto simp: image_iff)
  show ?case
  proof (cases "k = a")
    case True
    with Cons.prems(2) p have vb: "v = b" by simp
    show ?thesis
    proof (cases "k' = a")
      case True
      with \<open>k = a\<close> show ?thesis by simp
    next
      case False
      with Cons.prems(3) p have "map_of ps k' = Some v" by simp
      from map_of_values[OF this] vb b show ?thesis by simp
    qed
  next
    case False
    with Cons.prems(2) p have k: "map_of ps k = Some v" by simp
    show ?thesis
    proof (cases "k' = a")
      case True
      with Cons.prems(3) p have "v = b" by simp
      with map_of_values[OF k] b show ?thesis by simp
    next
      case False
      with Cons.prems(3) p have "map_of ps k' = Some v" by simp
      from Cons.IH[OF d k this] show ?thesis .
    qed
  qed
qed

lemma add_displays_loop_distinct:
  "add_displays_loop i c cs (dev, n0 + of_nat m) = (dev', n') \<Longrightarrow>
   m + length (filter (in_class i c) cs) \<le> 2 ^ 32 \<Longrightarrow>
   distinct (map snd (connectors_to_display_id dev)) \<Longrightarrow>
   snd ` set (connectors_to_display_id dev) \<subseteq> (\<lambda>j. n0 + of_nat j) ` {..<m} \<Longrightarrow>
     distinct (map snd (connectors_to_display_id dev')) \<and>
     snd ` set (connectors_to_display_id dev') \<subseteq>
       (\<lambda>j. n0 + of_nat j) ` {..<m + length (filter (in_class i c) cs)} \<and>
     n' = n0 + of_nat (m + length (filter (in_class i c) cs))"
proof (induction cs arbitrary: dev m)
  case Nil
  then show ?case by simp
next
  case (Cons conn cs)
  show ?case
  proof (cases "in_class i c conn")
    case False
    with Cons.prems(1,2) have *: "add_displays_loop i c cs (dev, n0 + of_nat m) = (dev', n')"
      "m + length (filter (in_class i c) cs) \<le> 2 ^ 32"
      by (simp_all add: add_displays_loop_Cons del: add_displays_loop.simps)
    from False have feq: "filter (in_class i c) (conn # cs) = filter (in_class i c) cs"
      by simp
    from Cons.IH[OF * Cons.prems(3,4)] show ?thesis unfolding feq .
  next
    case True
    define n where "n = n0 + of_nat m"
    define cd where "cd = AList.update conn n (connectors_to_display_id dev)"
    define d where "d = dev\<lparr> bound_connectors := AList.update n conn (bound_connectors dev),
                            connectors_to_display_id := cd \<rparr>"
    from True Cons.prems(1) have l: "add_displays_loop i c cs (d, n0 + of_nat (Suc m)) = (dev', n')"
      by (simp add: add_displays_loop_Cons d_def cd_def n_def cint_offset_Suc
               del: add_displays_loop.simps of_nat_Suc)
    from True Cons.prems(2) have m: "m < 2 ^ 32"
      and le: "Suc m + length (filter (in_class i c) cs) \<le> 2 ^ 32" by simp_all
    from cint_offset_fresh[OF m, of n0] Cons.prems(4)
    have fresh: "n \<notin> snd ` set (connectors_to_display_id dev)" unfolding n_def by blast
    have 1: "distinct (map snd (connectors_to_display_id d))"
      using update_distinct_values[OF Cons.prems(3) fresh, of conn] by (simp add: d_def cd_def)
    have vc: "snd ` set cd \<subseteq> insert n (snd ` set (connectors_to_display_id dev))"
      unfolding cd_def by (rule values_update)
    with Cons.prems(4)
    have 2: "snd ` set (connectors_to_display_id d) \<subseteq> (\<lambda>j. n0 + of_nat j) ` {..<Suc m}"
      unfolding d_def n_def by (simp add: lessThan_Suc, blast)
    have eq: "Suc m + length (filter (in_class i c) cs) =
              m + length (filter (in_class i c) (conn # cs))"
      using True by simp
    from Cons.IH[OF l le 1 2] show ?thesis unfolding eq .
  qed
qed

lemma add_displays_distinct:
  assumes "add_displays i c (dev, n0 + of_nat m) = (dev', n')"
    and "m + length (filter (in_class i c) (connectors dev)) \<le> 2 ^ 32"
    and "distinct (map snd (connectors_to_display_id dev))"
    and "snd ` set (connectors_to_display_id dev) \<subseteq> (\<lambda>j. n0 + of_nat j) ` {..<m}"
  shows "distinct (map snd (connectors_to_display_id dev'))"
    and "snd ` set (connectors_to_display_id dev') \<subseteq>
           (\<lambda>j. n0 + of_nat j) ` {..<m + length (filter (in_class i c) (connectors dev))}"
    and "n' = n0 + of_nat (m + length (filter (in_class i c) (connectors dev)))"
    and "connectors dev' = connectors dev"
proof -
  from assms(1) have l: "add_displays_loop i c (connectors dev) (dev, n0 + of_nat m) = (dev', n')"
    by (simp add: add_displays_def)
  note r = add_displays_loop_distinct[OF l assms(2,3,4)]
  from r show "distinct (map snd (connectors_to_display_id dev'))" by (rule conjunct1)
  from r show "snd ` set (connectors_to_display_id dev') \<subseteq>
           (\<lambda>j. n0 + of_nat j) ` {..<m + length (filter (in_class i c) (connectors dev))}"
    by (rule conjunct2[THEN conjunct1])
  from r show "n' = n0 + of_nat (m + length (filter (in_class i c) (connectors dev)))"
    by (rule conjunct2[THEN conjunct2])
  from add_displays_loop_frame[OF l]
  have "connectors dev' = connectors (dev\<lparr> bound_connectors := bound_connectors dev',
                 connectors_to_display_id := connectors_to_display_id dev' \<rparr>)" by simp
  then show "connectors dev' = connectors dev" by simp
qed

lemma Init_add_displays_distinct:
  assumes a: "Init_add_displays (dev, n) = (dev', n')"
    and e: "connectors_to_display_id dev = []"
    and len: "length (priority_order (connectors dev)) \<le> 2 ^ 32"
  shows "distinct (map snd (connectors_to_display_id dev'))"
proof -
  define f1 where "f1 = filter (in_class True True) (connectors dev)"
  define f2 where "f2 = filter (in_class False True) (connectors dev)"
  define f3 where "f3 = filter (in_class True False) (connectors dev)"
  define f4 where "f4 = filter (in_class False False) (connectors dev)"
  have p: "priority_order (connectors dev) = f1 @ f2 @ f3 @ f4"
    by (simp add: priority_order_classes f1_def f2_def f3_def f4_def)
  obtain d1 n1 where s1: "add_displays True True (dev, n + of_nat 0) = (d1, n1)" by force
  obtain d2 n2 where s2: "add_displays False True (d1, n1) = (d2, n2)" by force
  obtain d3 n3 where s3: "add_displays True False (d2, n2) = (d3, n3)" by force
  from a s1 s2 s3 have s4: "add_displays False False (d3, n3) = (dev', n')"
    by (simp add: Init_add_displays_def)
  from len have t: "length f1 + length f2 + length f3 + length f4 \<le> 2 ^ 32"
    by (simp add: p)
  from e have k0: "distinct (map snd (connectors_to_display_id dev))"
    "snd ` set (connectors_to_display_id dev) \<subseteq> (\<lambda>j. n + of_nat j) ` {..<0}" by simp_all
  from t have t1: "0 + length (filter (in_class True True) (connectors dev)) \<le> 2 ^ 32"
    by (simp add: f1_def)
  note r1 = add_displays_distinct[OF s1 t1 k0, folded f1_def]
  from t have t2: "(0 + length f1) + length (filter (in_class False True) (connectors d1)) \<le> 2 ^ 32"
    by (simp add: r1(4) f2_def)
  note r2 = add_displays_distinct[OF s2[unfolded r1(3)] t2 r1(1,2), unfolded r1(4), folded f2_def]
  from t have t3: "(0 + length f1 + length f2) +
      length (filter (in_class True False) (connectors d2)) \<le> 2 ^ 32"
    by (simp add: r2(4) f3_def)
  note r3 = add_displays_distinct[OF s3[unfolded r2(3)] t3 r2(1,2), unfolded r2(4), folded f3_def]
  from t have t4: "(0 + length f1 + length f2 + length f3) +
      length (filter (in_class False False) (connectors d3)) \<le> 2 ^ 32"
    by (simp add: r3(4) f4_def)
  from add_displays_distinct(1)[OF s4[unfolded r3(3)] t4 r3(1,2)] show ?thesis .
qed

text \<open>Every connector that is internal or external gets a display id.\<close>

lemma add_displays_loop_assigned:
  "add_displays_loop i c cs (dev, n) = (dev', n') \<Longrightarrow>
     fst ` set (connectors_to_display_id dev') =
       fst ` set (connectors_to_display_id dev) \<union> set (filter (in_class i c) cs)"
proof (induction cs arbitrary: dev n)
  case Nil
  then show ?case by simp
next
  case (Cons conn cs)
  show ?case
  proof (cases "in_class i c conn")
    case False
    with Cons.prems have "add_displays_loop i c cs (dev, n) = (dev', n')"
      by (simp add: add_displays_loop_Cons del: add_displays_loop.simps)
    from Cons.IH[OF this] False show ?thesis by simp
  next
    case True
    define d where "d = dev\<lparr> bound_connectors := AList.update n conn (bound_connectors dev),
                   connectors_to_display_id :=
                     AList.update conn n (connectors_to_display_id dev) \<rparr>"
    from True Cons.prems have l: "add_displays_loop i c cs (d, n + 1) = (dev', n')"
      by (simp add: add_displays_loop_Cons d_def del: add_displays_loop.simps)
    have "fst ` set (connectors_to_display_id d) =
            insert conn (fst ` set (connectors_to_display_id dev))"
      by (simp add: d_def keys_update)
    with Cons.IH[OF l] True show ?thesis by simp
  qed
qed

lemma add_displays_assigned:
  assumes "add_displays i c (dev, n) = (dev', n')"
  shows "fst ` set (connectors_to_display_id dev') =
       fst ` set (connectors_to_display_id dev) \<union> set (filter (in_class i c) (connectors dev))"
    and "connectors dev' = connectors dev"
proof -
  from assms have l: "add_displays_loop i c (connectors dev) (dev, n) = (dev', n')"
    by (simp add: add_displays_def)
  from add_displays_loop_assigned[OF l]
  show "fst ` set (connectors_to_display_id dev') =
       fst ` set (connectors_to_display_id dev) \<union> set (filter (in_class i c) (connectors dev))" .
  from add_displays_loop_frame[OF l]
  have "connectors dev' = connectors (dev\<lparr> bound_connectors := bound_connectors dev',
                 connectors_to_display_id := connectors_to_display_id dev' \<rparr>)" by simp
  then show "connectors dev' = connectors dev" by simp
qed

lemma Init_add_displays_assigned:
  assumes a: "Init_add_displays (dev, n) = (dev', n')"
    and c: "conn \<in> set (connectors dev)" and i: "IsInternal conn \<or> IsExternal conn"
  shows "conn \<in> fst ` set (connectors_to_display_id dev')"
proof -
  obtain d1 n1 where s1: "add_displays True True (dev, n) = (d1, n1)" by force
  obtain d2 n2 where s2: "add_displays False True (d1, n1) = (d2, n2)" by force
  obtain d3 n3 where s3: "add_displays True False (d2, n2) = (d3, n3)" by force
  from a s1 s2 s3 have s4: "add_displays False False (d3, n3) = (dev', n')"
    by (simp add: Init_add_displays_def)
  note r1 = add_displays_assigned[OF s1]
  note r2 = add_displays_assigned[OF s2, unfolded r1(2)]
  note r3 = add_displays_assigned[OF s3, unfolded r2(2)]
  note r4 = add_displays_assigned[OF s4, unfolded r3(2)]
  define F where "F = (\<lambda>a b. set (filter (in_class a b) (connectors dev)))"
  have k: "fst ` set (connectors_to_display_id dev') =
      fst ` set (connectors_to_display_id dev) \<union> F True True \<union> F False True \<union>
      F True False \<union> F False False"
    by (simp only: r4(1) r3(1) r2(1) r1(1) F_def)
  have "conn \<in> F True True \<or> conn \<in> F False True \<or> conn \<in> F True False \<or>
        conn \<in> F False False"
    using c i by (cases "IsConnected conn") (simp_all add: F_def in_class_def)
  then show ?thesis unfolding k Un_iff by (elim disjE) simp_all
qed

lemma Init_add_displays_connectors:
  assumes a: "Init_add_displays (dev, n) = (dev', n')"
  shows "connectors dev' = connectors dev"
proof -
  obtain d1 n1 where s1: "add_displays True True (dev, n) = (d1, n1)" by force
  obtain d2 n2 where s2: "add_displays False True (d1, n1) = (d2, n2)" by force
  obtain d3 n3 where s3: "add_displays True False (d2, n2) = (d3, n3)" by force
  from a s1 s2 s3 have s4: "add_displays False False (d3, n3) = (dev', n')"
    by (simp add: Init_add_displays_def)
  from add_displays_assigned(2)[OF s1] add_displays_assigned(2)[OF s2]
    add_displays_assigned(2)[OF s3] add_displays_assigned(2)[OF s4]
  show ?thesis by simp
qed

lemma add_displays_frame:
  assumes "add_displays i c (dev, n) = (dev', n')"
  shows "bound_crtcs dev' = bound_crtcs dev"
    "encoders_to_display_id dev' = encoders_to_display_id dev"
    "bound_encoders dev' = bound_encoders dev"
proof -
  from assms have l: "add_displays_loop i c (connectors dev) (dev, n) = (dev', n')"
    by (simp add: add_displays_def)
  from add_displays_loop_frame[OF l]
  have f: "dev' = dev\<lparr> bound_connectors := bound_connectors dev',
                 connectors_to_display_id := connectors_to_display_id dev' \<rparr>" .
  show "bound_crtcs dev' = bound_crtcs dev"
    "encoders_to_display_id dev' = encoders_to_display_id dev"
    "bound_encoders dev' = bound_encoders dev"
    by (subst f, simp)+
qed

lemma Init_add_displays_frame:
  assumes a: "Init_add_displays (dev, n) = (dev', n')"
  shows "bound_crtcs dev' = bound_crtcs dev"
    "encoders_to_display_id dev' = encoders_to_display_id dev"
    "bound_encoders dev' = bound_encoders dev"
proof -
  obtain d1 n1 where s1: "add_displays True True (dev, n) = (d1, n1)" by force
  obtain d2 n2 where s2: "add_displays False True (d1, n1) = (d2, n2)" by force
  obtain d3 n3 where s3: "add_displays True False (d2, n2) = (d3, n3)" by force
  from a s1 s2 s3 have s4: "add_displays False False (d3, n3) = (dev', n')"
    by (simp add: Init_add_displays_def)
  note f = add_displays_frame[OF s1] add_displays_frame[OF s2] add_displays_frame[OF s3]
    add_displays_frame[OF s4]
  from f show "bound_crtcs dev' = bound_crtcs dev" by simp
  from f show "encoders_to_display_id dev' = encoders_to_display_id dev" by simp
  from f show "bound_encoders dev' = bound_encoders dev" by simp
qed

lemma Init_prepare_fresh:
  assumes "Init_prepare k path n DrmDevice_new = Inr (ret0, dev0)"
  shows "distinct (connectors dev0) \<and> bound_crtcs dev0 = [] \<and>
         encoders_to_display_id dev0 = [] \<and> bound_encoders dev0 = [] \<and>
         (length (connectors dev0) < 2 ^ 31 \<longrightarrow>
            distinct (map snd (connectors_to_display_id dev0))) \<and>
         (\<forall>conn \<in> set (connectors dev0). IsInternal conn \<or> IsExternal conn \<longrightarrow>
            conn \<in> fst ` set (connectors_to_display_id dev0))"
  using assms
proof (cases rule: Init_prepare_cases)
  case (prepared d1 res d3 n3 plane_res)
  let ?d2 = "Init_enumerate k res (emit drmModeGetResources d1)"
  from Init_negotiate_frame[OF disjI2[OF prepared(1)]] obtain f h t where
    d1: "d1 = DrmDevice_new\<lparr>fd := f, HasAddFb2ModifiersSupport := h, trace := t\<rparr>" by blast
  have e2: "connectors_to_display_id ?d2 = []" "bound_connectors ?d2 = []"
    "bound_crtcs ?d2 = []" "encoders_to_display_id ?d2 = []" "bound_encoders ?d2 = []"
    by (simp_all add: d1 Init_enumerate_def Let_def emit_def DrmDevice_new_def)
  note fr = Init_add_displays_frame[OF prepared(3)]
  from prepared(5) have dev0: "dev0 = (emit drmModeGetPlaneResources d3)
                     \<lparr>planes := planes d3 @ filter (k_plane k) plane_res\<rparr>" by simp
  have c3: "connectors d3 = connectors ?d2"
    by (rule Init_add_displays_connectors[OF prepared(3)])
  from prepared_state_allocated(2)[OF prepared(1,3)]
  have 1: "distinct (connectors dev0)"
    by (simp add: created_objects_distinct dev0 emit_def)
  from fr e2 have 2: "bound_crtcs dev0 = []" "encoders_to_display_id dev0 = []"
    "bound_encoders dev0 = []"
    by (simp_all add: dev0 emit_def)
  have 3: "distinct (map snd (connectors_to_display_id dev0))"
    if "length (connectors dev0) < 2 ^ 31"
  proof -
    from that c3 have "length (connectors ?d2) < 2 ^ 31" by (simp add: dev0 emit_def)
    then have "length (priority_order (connectors ?d2)) \<le> 2 ^ 32"
      by (rule priority_order_fits)
    from Init_add_displays_distinct[OF prepared(3) e2(1) this] show ?thesis
      by (simp add: dev0 emit_def)
  qed
  have 4: "conn \<in> fst ` set (connectors_to_display_id dev0)"
    if "conn \<in> set (connectors dev0)" "IsInternal conn \<or> IsExternal conn" for conn
  proof -
    from that(1) c3 have "conn \<in> set (connectors ?d2)" by (simp add: dev0 emit_def)
    from Init_add_displays_assigned[OF prepared(3) this that(2)] show ?thesis
      by (simp add: dev0 emit_def)
  qed
  from 1 2 3 4 show ?thesis by blast
qed simp_all

lemma Init_prepare_injective:
  assumes "Init_prepare k path n DrmDevice_new = Inr (ret0, dev0)"
    and "length (connectors dev0) < 2 ^ 31"
  shows "ids_injective dev0 \<and> bound_crtcs dev0 = [] \<and> encoders_to_display_id dev0 = [] \<and>
         bound_encoders dev0 = []"
  using Init_prepare_fresh[OF assms(1)] assms(2) by (simp add: ids_injective_def)

lemma displays_free_prepared:
  assumes "Init_prepare k path n DrmDevice_new = Inr (ret0, dev0)"
  shows "displays_free dev0 (connectors dev0)"
  using Init_prepare_fresh[OF assms]
  by (simp add: displays_free_def list_all_iff split: option.splits)

lemma CreateDisplayPipe_free:
  assumes c: "CreateDisplayPipe dev conn = Inr (0, dev')"
    and f: "displays_free dev (conn # rest)"
    and i: "distinct (map snd (connectors_to_display_id dev))"
  shows "displays_free dev' rest"
proof -
  from CreateDisplayPipe_cases[OF c] obtain display enc crtc where
    d: "map_of (connectors_to_display_id dev) conn = Some display"
    and u: "map_of (encoders_to_display_id dev) enc = None"
    and b: "dev' = bind_pipeline dev display crtc enc"
    by (auto simp: ENODEV_def)
  from f have dr: "distinct rest" and cn: "conn \<notin> set rest"
    and dk: "distinct (map fst (encoders_to_display_id dev))"
    and dv: "distinct (map snd (encoders_to_display_id dev))"
    by (simp_all add: displays_free_def)
  from f d have fc: "display \<notin> fst ` set (bound_crtcs dev)"
    "display \<notin> snd ` set (encoders_to_display_id dev)"
    by (simp_all add: displays_free_def)
  have k': "fst ` set (bound_crtcs dev') = insert display (fst ` set (bound_crtcs dev))"
    by (simp add: b bind_pipeline_def keys_update)
  have v': "snd ` set (encoders_to_display_id dev') \<subseteq>
              insert display (snd ` set (encoders_to_display_id dev))"
    using values_update[of enc display "encoders_to_display_id dev"]
    by (simp add: b bind_pipeline_def)
  have c': "connectors_to_display_id dev' = connectors_to_display_id dev"
    by (simp add: b bind_pipeline_def)
  have "d' \<notin> fst ` set (bound_crtcs dev') \<and> d' \<notin> snd ` set (encoders_to_display_id dev')"
    if m: "x \<in> set rest" and s: "map_of (connectors_to_display_id dev') x = Some d'" for x d'
  proof -
    from s c' have s': "map_of (connectors_to_display_id dev) x = Some d'" by simp
    from m cn have "x \<noteq> conn" by blast
    with map_of_distinct_values[OF i s'] d have ne: "d' \<noteq> display" by blast
    from f m have "case map_of (connectors_to_display_id dev) x of
                      None \<Rightarrow> True
                    | Some d \<Rightarrow> d \<notin> fst ` set (bound_crtcs dev) \<and>
                               d \<notin> snd ` set (encoders_to_display_id dev)"
      by (simp add: displays_free_def list_all_iff)
    with s' have "d' \<notin> fst ` set (bound_crtcs dev) \<and>
                  d' \<notin> snd ` set (encoders_to_display_id dev)"
      by simp
    with ne k' v' show ?thesis by blast
  qed
  then have l: "list_all (\<lambda>c. case map_of (connectors_to_display_id dev') c of
                      None \<Rightarrow> True
                    | Some d \<Rightarrow> d \<notin> fst ` set (bound_crtcs dev') \<and>
                               d \<notin> snd ` set (encoders_to_display_id dev')) rest"
    by (simp add: list_all_iff split: option.splits)
  have ek: "distinct (map fst (encoders_to_display_id dev'))"
    using AList.distinct_update[OF dk, of enc display] by (simp add: b bind_pipeline_def)
  have ev: "distinct (map snd (encoders_to_display_id dev'))"
    using update_distinct_values[OF dv fc(2), of enc] by (simp add: b bind_pipeline_def)
  from dr l ek ev show ?thesis by (simp add: displays_free_def)
qed

lemma displays_free_emit [simp]: "displays_free (emit e dev) todo = displays_free dev todo"
  by (simp add: displays_free_def emit_def cong: option.case_cong)

lemma Init_pipes_free:
  "Init_pipes ret dev before = Inr ((0, cnt), dev1) \<Longrightarrow>
   displays_free dev (before @ todo) \<Longrightarrow>
   distinct (map snd (connectors_to_display_id dev)) \<Longrightarrow>
     displays_free dev1 todo \<and> connectors_to_display_id dev1 = connectors_to_display_id dev"
proof (induction before arbitrary: ret dev)
  case Nil
  then show ?case by simp
next
  case (Cons conn before)
  from Cons.prems(1) obtain ret1 dev' where c: "CreateDisplayPipe dev conn = Inr (ret1, dev')"
    by (cases "CreateDisplayPipe dev conn") auto
  from c Cons.prems(1) have z: "ret1 = 0"
    by (cases "ret1 = 0") auto
  with c Cons.prems(1) have p: "Init_pipes ret1 dev' before = Inr ((0, cnt), dev1)" by simp
  from c z have c0: "CreateDisplayPipe dev conn = Inr (0, dev')" by simp
  from Cons.prems(2) have "displays_free dev (conn # (before @ todo))" by simp
  from CreateDisplayPipe_free[OF c0 this Cons.prems(3)]
  have f: "displays_free dev' (before @ todo)" .
  from CreateDisplayPipe_frame(6)[OF c]
  have e: "connectors_to_display_id dev' = connectors_to_display_id dev" .
  with Cons.prems(3) have "distinct (map snd (connectors_to_display_id dev'))" by simp
  from Cons.IH[OF p f this] e show ?case by simp
qed

lemma Init_pipes_encoders_distinct:
  "Init_pipes ret dev cs = Inr (r, dev') \<Longrightarrow> displays_free dev cs \<Longrightarrow>
   distinct (map snd (connectors_to_display_id dev)) \<Longrightarrow>
     distinct (map fst (encoders_to_display_id dev')) \<and>
     distinct (map snd (encoders_to_display_id dev'))"
proof (induction cs arbitrary: ret dev)
  case Nil
  then show ?case by (simp add: displays_free_def)
next
  case (Cons conn cs)
  from Cons.prems(1) obtain ret1 dev1 where c: "CreateDisplayPipe dev conn = Inr (ret1, dev1)"
    by (cases "CreateDisplayPipe dev conn") auto
  show ?case
  proof (cases "ret1 = 0")
    case True
    with c Cons.prems(1) have p: "Init_pipes ret1 dev1 cs = Inr (r, dev')" by simp
    from c True have c0: "CreateDisplayPipe dev conn = Inr (0, dev1)" by simp
    from CreateDisplayPipe_free[OF c0 Cons.prems(2,3)] have f: "displays_free dev1 cs" .
    from CreateDisplayPipe_frame(6)[OF c] Cons.prems(3)
    have "distinct (map snd (connectors_to_display_id dev1))" by simp
    from Cons.IH[OF p f this] show ?thesis .
  next
    case False
    with c Cons.prems(1) have d: "dev' = emit (ALOGE ''Failed CreateDisplayPipe %d with %d'') dev1"
      by auto
    from CreateDisplayPipe_cases[OF c] False
    have "dev1 = emit (ALOGE ''Could not find a suitable encoder/crtc for display %d'') dev"
      by auto
    with d Cons.prems(2) show ?thesis by (simp add: displays_free_def emit_def)
  qed
qed

lemma Init_bindings_injective:
  assumes "Init k path n DrmDevice_new = Inr (r, dev)"
    and len: "length (connectors dev) < 2 ^ 31"
  shows "distinct (map fst (encoders_to_display_id dev)) \<and>
         distinct (map snd (encoders_to_display_id dev)) \<and>
         distinct (map fst (bound_connectors dev))"
proof -
  have 3: "distinct (map fst (bound_connectors dev))"
  proof -
    have "distinct (map fst (sequential_ids m xs))" if "length xs \<le> 2 ^ 32"
      for m :: cint and xs :: "DrmConnector list"
      using that
    proof (induction xs arbitrary: m)
      case Nil
      show ?case by simp
    next
      case (Cons x xs)
      from Cons.prems have l: "length xs < 2 ^ 32" by simp
      have "m \<notin> fst ` set (sequential_ids (m + 1) xs)"
      proof
        assume "m \<in> fst ` set (sequential_ids (m + 1) xs)"
        then obtain j where j: "j < length xs" "m + 0 = m + of_nat (Suc j)"
          by (auto simp: sequential_ids_keys add.assoc)
        from j(1) l have "Suc j < 2 ^ 32" by simp
        from cint_offset_inj[of 0 "Suc j" m] this j(2) show False by simp
      qed
      with Cons.IH[of "m + 1"] Cons.prems show ?case by simp
    qed
    from this[OF priority_order_fits[OF len]]
      Init_display_ids_by_priority[OF assms(1) len] show ?thesis by simp
  qed
  show ?thesis
  proof (cases "Init_prepare k path n DrmDevice_new")
    case (Inl a)
    with assms(1) have p: "Init_prepare k path n DrmDevice_new = Inl (r, dev)"
      by (simp add: Init_def)
    then have "encoders_to_display_id dev = []"
    proof (cases rule: Init_prepare_cases)
      case (negotiation r' dev')
      from Init_negotiate_frame[OF disjI1[OF negotiation(1)]] negotiation(2) show ?thesis
        by (auto simp: DrmDevice_new_def)
    next
      case (no_resources d1)
      from Init_negotiate_frame[OF disjI2[OF no_resources(1)]] no_resources(3) show ?thesis
        by (auto simp: DrmDevice_new_def emit_def)
    next
      case (no_planes d1 res d3 n3)
      from Init_negotiate_frame[OF disjI2[OF no_planes(1)]] obtain f h t where
        d1: "d1 = DrmDevice_new\<lparr>fd := f, HasAddFb2ModifiersSupport := h, trace := t\<rparr>" by blast
      have "encoders_to_display_id (Init_enumerate k res (emit drmModeGetResources d1)) = []"
        by (simp add: d1 Init_enumerate_def Let_def emit_def DrmDevice_new_def)
      with Init_add_displays_frame(2)[OF no_planes(3)] no_planes(5) show ?thesis
        by (simp add: emit_def)
    qed simp
    with 3 show ?thesis by simp
  next
    case (Inr b)
    obtain ret0 dev0 where b: "b = (ret0, dev0)" by (cases b) auto
    with Inr have p: "Init_prepare k path n DrmDevice_new = Inr (ret0, dev0)" by simp
    from p assms(1) have i: "Init_pipes ret0 dev0 (connectors dev0) = Inr (r, dev)"
      by (simp add: Init_def)
    from Init_prepare_state[OF disjI2[OF p]] have "connectors_wf dev0" "pipelines_wf dev0"
      by (simp_all add: prepared_state_def)
    from Init_pipes_wf[OF i this] len have "length (connectors dev0) < 2 ^ 31" by simp
    from Init_pipes_encoders_distinct[OF i displays_free_prepared[OF p]]
      Init_prepare_injective[OF p this] 3
    show ?thesis by (simp add: ids_injective_def)
  qed
qed

lemma Init_pipes_display_unbound:
  assumes p: "Init_prepare k path n DrmDevice_new = Inr (ret0, dev0)"
    and l: "connectors dev0 = before @ conn # rest"
    and b: "Init_pipes ret0 dev0 before = Inr ((0, cnt), dev1)"
    and d: "map_of (connectors_to_display_id dev1) conn = Some display"
    and len: "length (connectors dev0) < 2 ^ 31"
  shows "map_of (bound_crtcs dev1) display = None"
proof -
  from displays_free_prepared[OF p] l have "displays_free dev0 (before @ conn # rest)" by simp
  from Init_pipes_free[OF b this] Init_prepare_injective[OF p len]
  have "displays_free dev1 (conn # rest)" by (simp add: ids_injective_def)
  with d show ?thesis by (simp add: displays_free_def map_of_None_keys)
qed

section \<open>The runs of the concrete devices\<close>

lemma Init_kernel_A:
  "Init kernel_A ''/dev/dri/card0'' 0 DrmDevice_new = Inr ((0, 2), device_A_done)"
  by (simp add: init_defs engine_defs concrete_defs concrete_defs)


lemma Init_kernel_B:
  "Init kernel_B ''/dev/dri/card0'' 0 DrmDevice_new = Inr ((- ENODEV, 0), device_B_failed)"
  by (simp add: init_defs engine_defs concrete_defs concrete_defs)

section \<open>A connector without a pipeline\<close>


text \<open>
  A connector that has exhausted its candidates gets \<^verbatim>\<open>-ENODEV\<close> from
  \<^verbatim>\<open>CreateDisplayPipe\<close>, with the device unchanged but for the log line; and one whose
  display has no CRTC yet and that has a candidate left gets its pipeline.
\<close>

lemma TryEncoderForDisplay_exhausted:
  assumes "crtc_search dev enc = None"
  shows "TryEncoderForDisplay dev display enc = (- EAGAIN, dev)"
proof (cases "map_of (bound_crtcs dev) display = None")
  case True
  from TryEncoderForDisplay_unbound[OF True, of enc] assms show ?thesis by simp
next
  case False
  from TryEncoderForDisplay_bound[OF False] show ?thesis .
qed




lemma try_encoders_candidate:
  "map_of (bound_crtcs dev) display = None \<Longrightarrow>
   \<not> list_all (\<lambda>enc. crtc_search dev enc = None)
       (filter (\<lambda>enc. SupportsEncoder conn enc \<and>
                       map_of (encoders_to_display_id dev) enc = None) es) \<Longrightarrow>
   \<exists>dev'. try_encoders dev conn display es = (0, dev')"
proof (induction es)
  case Nil
  then show ?case by simp
next
  case (Cons enc es)
  show ?case
  proof (cases "SupportsEncoder conn enc \<and> map_of (encoders_to_display_id dev) enc = None")
    case False
    with Cons show ?thesis by auto
  next
    case True
    show ?thesis
    proof (cases "crtc_search dev enc")
      case None
      from TryEncoderForDisplay_exhausted[OF None, of display] True None Cons
      show ?thesis by (auto simp: EAGAIN_def)
    next
      case (Some crtc)
      with TryEncoderForDisplay_unbound[OF Cons.prems(1), of enc] True
      show ?thesis by simp
    qed
  qed
qed

lemma CreateDisplayPipe_candidate:
  assumes d: "map_of (connectors_to_display_id dev) conn = Some display"
    and u: "map_of (bound_crtcs dev) display = None"
    and x: "\<not> candidates_exhausted dev conn"
  shows "\<exists>dev'. CreateDisplayPipe dev conn = Inr (0, dev')"
proof (cases "try_current_encoder dev conn display")
  case (Inl r)
  from try_current_encoder_cases[OF Inl] obtain dev' where "r = (0, dev')" by auto
  with Inl d show ?thesis by (simp add: CreateDisplayPipe_def map_at_def)
next
  case (Inr dev')
  from try_current_encoder_cases[OF Inr] have e: "dev' = dev" by auto
  have "list_all (\<lambda>enc. crtc_search dev enc = None)
     (filter (\<lambda>enc. map_of (encoders_to_display_id dev) enc = None)
        (case FindEncoderById dev (current_encoder_id conn) of
           None \<Rightarrow> [] | Some enc0 \<Rightarrow> [enc0]))"
  proof (cases "FindEncoderById dev (current_encoder_id conn)")
    case None
    then show ?thesis by simp
  next
    case (Some enc0)
    show ?thesis
    proof (cases "map_of (encoders_to_display_id dev) enc0 = None \<and> crtc_search dev enc0 \<noteq> None")
      case True
      then obtain crtc where "crtc_search dev enc0 = Some crtc" by auto
      with TryEncoderForDisplay_unbound[OF u, of enc0] True Some Inr show ?thesis
        by (simp add: try_current_encoder_def)
    next
      case False
      with Some show ?thesis by auto
    qed
  qed
  with x have "\<not> list_all (\<lambda>enc. crtc_search dev enc = None)
       (filter (\<lambda>enc. SupportsEncoder conn enc \<and>
                       map_of (encoders_to_display_id dev) enc = None) (encoders dev))"
    by (simp add: candidates_exhausted_def candidate_encoders_def)
  from try_encoders_candidate[OF u this] obtain dev2 where
    "try_encoders dev conn display (encoders dev) = (0, dev2)" by blast
  with Inr e d show ?thesis by (simp add: CreateDisplayPipe_def map_at_def)
qed



section \<open>Lookups by display id\<close>

text \<open>
  C9. In the device that \<^verbatim>\<open>Init\<close> leaves, whatever it returned: a display id with no
  entry in \<^verbatim>\<open>bound_connectors_\<close> is not handled and has no entry in \<^verbatim>\<open>bound_crtcs_\<close>
  either, and both accessors throw \<^verbatim>\<open>std::out_of_range\<close> for it;
  \<^verbatim>\<open>GetCrtcForDisplay\<close> throws for every id with no entry in \<^verbatim>\<open>bound_crtcs_\<close>. So an
  accessor returns only for a display that \<^verbatim>\<open>HandlesDisplay\<close> accepts.
\<close>

theorem C9_accessors_need_HandlesDisplay:
  assumes "Init k path n DrmDevice_new = Inr (r, dev)"
  shows "(map_of (bound_connectors dev) display = None \<longrightarrow>
            \<not> HandlesDisplay dev display \<and>
            GetConnectorForDisplay dev display = Inl out_of_range \<and>
            GetCrtcForDisplay dev display = Inl out_of_range) \<and>
         (map_of (bound_crtcs dev) display = None \<longrightarrow>
            GetCrtcForDisplay dev display = Inl out_of_range) \<and>
         (\<not> HandlesDisplay dev display \<longrightarrow>
            GetConnectorForDisplay dev display = Inl out_of_range \<and>
            GetCrtcForDisplay dev display = Inl out_of_range)"
proof -
  from Init_state[OF assms] have "pipelines_wf dev" by (simp add: prepared_state_def)
  then have "fst ` set (bound_crtcs dev) \<subseteq> fst ` set (bound_connectors dev)"
    by (simp add: pipelines_wf_def)
  then have "map_of (bound_crtcs dev) display = None"
    if "map_of (bound_connectors dev) display = None"
    using that unfolding map_of_None_keys by blast
  then show ?thesis
    by (auto simp: HandlesDisplay_def GetConnectorForDisplay_def GetCrtcForDisplay_def map_at_def)
qed

theorem C9_accessors_need_HandlesDisplay_witness:
  "Init kernel_B ''/dev/dri/card0'' 0 DrmDevice_new = Inr ((- ENODEV, 0), device_B_failed) \<and>
   map_of (bound_connectors device_B_failed) 7 = None \<and>
   \<not> HandlesDisplay device_B_failed 7 \<and>
   GetConnectorForDisplay device_B_failed 7 = Inl out_of_range \<and>
   GetCrtcForDisplay device_B_failed 7 = Inl out_of_range"
proof -
  have n: "map_of (bound_connectors device_B_failed) 7 = None"
    by (simp add: concrete_defs DrmDevice_new_def)
  from C9_accessors_need_HandlesDisplay[OF Init_kernel_B, of 7] n Init_kernel_B
  show ?thesis by blast
qed

section \<open>Writeback connectors\<close>

text \<open>
  C10. In the device that \<^verbatim>\<open>Init\<close> leaves, whatever the kernel answered to the
  writeback capability and whatever \<^verbatim>\<open>Init\<close> returned: no connector of \<^verbatim>\<open>connectors_\<close>
  is a writeback connector and every connector of \<^verbatim>\<open>writeback_connectors_\<close> is one; the
  connectors that \<^verbatim>\<open>bound_connectors_\<close> and \<^verbatim>\<open>connectors_to_display_id_\<close> refer to are in
  \<^verbatim>\<open>connectors_\<close> and are no writeback connectors (the other three maps hold no
  connector). When \<^verbatim>\<open>Init\<close> succeeds, the two vectors are the created connectors split
  by \<^verbatim>\<open>IsWriteback\<close>.
\<close>

theorem C10_writeback_connectors_apart:
  assumes "Init k path n DrmDevice_new = Inr ((ret, cnt), dev)"
  shows "list_all (\<lambda>c. \<not> IsWriteback c) (connectors dev) \<and>
         list_all IsWriteback (writeback_connectors dev) \<and>
         (\<forall>display c. map_of (bound_connectors dev) display = Some c \<longrightarrow>
            c \<in> set (connectors dev) \<and> \<not> IsWriteback c) \<and>
         (\<forall>c display. map_of (connectors_to_display_id dev) c = Some display \<longrightarrow>
            c \<in> set (connectors dev) \<and> \<not> IsWriteback c) \<and>
         (ret = 0 \<longrightarrow>
            (\<exists>res. k_resources k = Some res \<and>
               connectors dev =
                 filter (\<lambda>c. \<not> IsWriteback c)
                   (create_all (DrmConnector_CreateInstance k) (res_connectors res)) \<and>
               writeback_connectors dev =
                 filter IsWriteback
                   (create_all (DrmConnector_CreateInstance k) (res_connectors res))))"
proof -
  from Init_state[OF assms] have w: "connectors_wf dev" by (simp add: prepared_state_def)
  then have 1: "list_all (\<lambda>c. \<not> IsWriteback c) (connectors dev)"
    and 2: "list_all IsWriteback (writeback_connectors dev)"
    and 3: "snd ` set (bound_connectors dev) \<subseteq> set (connectors dev)"
    and 4: "fst ` set (connectors_to_display_id dev) \<subseteq> set (connectors dev)"
    by (simp_all add: connectors_wf_def)
  have 5: "c \<in> set (connectors dev) \<and> \<not> IsWriteback c"
    if "map_of (bound_connectors dev) display = Some c" for display c
    using map_of_values[OF that] 3 1 by (auto simp: list_all_iff)
  have 6: "c \<in> set (connectors dev) \<and> \<not> IsWriteback c"
    if "map_of (connectors_to_display_id dev) c = Some display" for display c
    using map_of_keys[OF that] 4 1 by (auto simp: list_all_iff)
  have 7: "\<exists>res. k_resources k = Some res \<and>
               connectors dev =
                 filter (\<lambda>c. \<not> IsWriteback c)
                   (create_all (DrmConnector_CreateInstance k) (res_connectors res)) \<and>
               writeback_connectors dev =
                 filter IsWriteback
                   (create_all (DrmConnector_CreateInstance k) (res_connectors res))"
    if z: "ret = 0"
  proof (cases "Init_prepare k path n DrmDevice_new")
    case (Inl a)
    with assms have "Init_prepare k path n DrmDevice_new = Inl ((ret, cnt), dev)"
      by (simp add: Init_def)
    from Init_prepare_returned[OF this] z show ?thesis by simp
  next
    case (Inr b)
    obtain ret0 dev0 where b: "b = (ret0, dev0)" by (cases b) auto
    with Inr have p: "Init_prepare k path n DrmDevice_new = Inr (ret0, dev0)" by simp
    from Init_prepare_state[OF disjI2[OF p]] have s: "prepared_state n dev0" .
    from p assms have "Init_pipes ret0 dev0 (connectors dev0) = Inr ((ret, cnt), dev)"
      by (simp add: Init_def)
    from Init_pipes_wf[OF this] s Init_prepare_Inr[OF p] show ?thesis
      by (simp add: prepared_state_def)
  qed
  from 1 2 5 6 7 show ?thesis by blast
qed

theorem C10_writeback_connectors_apart_witness:
  "Init kernel_A ''/dev/dri/card0'' 0 DrmDevice_new = Inr ((0, 2), device_A_done) \<and>
   list_all (\<lambda>c. \<not> IsWriteback c) (connectors device_A_done) \<and>
   list_all IsWriteback (writeback_connectors device_A_done) \<and>
   writeback_connectors device_A_done = [conn_52] \<and>
   bound_connectors device_A_done = [(0, conn_50), (1, conn_51)]"
proof -
  have w: "writeback_connectors device_A_done = [conn_52]"
    by (simp add: concrete_defs DrmDevice_new_def)
  have b: "bound_connectors device_A_done = [(0, conn_50), (1, conn_51)]"
    by (simp add: concrete_defs DrmDevice_new_def)
  from C10_writeback_connectors_apart[OF Init_kernel_A] Init_kernel_A w b
  show ?thesis by blast
qed

end
